(* ===== verification/Prelude.thy ===== *)
theory Prelude
  imports Main "HOL-Library.Word" "HOL-Library.Finite_Map" "HOL-Library.State_Monad"
    "HOL-Library.Sublist"
begin

text \<open>
  What every component of the development shares: the integer widths of the Go code, Go errors
  as values, the result type of a fallible Go function with its propagation operator, weakest
  preconditions for the library's state monad, and the interface of a reflexive and transitive
  relation between the states before and after a computation.
\<close>

section \<open>Shared automation\<close>

named_theorems wp_simps \<open>weakest preconditions of the operations of the model\<close>
named_theorems sel_simps \<open>kind, name and namespace of the objects the operator builds\<close>

section \<open>Machine integers\<close>

type_synonym int32 = "32 word"
type_synonym int64 = "64 word"

section \<open>Errors and results\<close>

text \<open>
  A Go \<^verbatim>\<open>error\<close>: one for which \<^verbatim>\<open>errors.IsNotFound\<close> holds, any other error of a library or of
  the API server, or one made with \<^verbatim>\<open>errors.New\<close>.
\<close>

datatype go_error = NotFound | LibError string | NewError string

definition is_not_found :: "go_error \<Rightarrow> bool" where
  "is_not_found e \<longleftrightarrow> e = NotFound"

text \<open>
  The result of a fallible function: a value, an error that the caller propagates, or a run-time
  panic (nil dereference, index out of range), which unwinds every caller.
\<close>

datatype 'a res = Ok 'a | Err go_error | Panic string

definition ok :: "'a \<Rightarrow> ('s, 'a res) state" where
  "ok x = State_Monad.return (Ok x)"

definition fail :: "go_error \<Rightarrow> ('s, 'a res) state" where
  "fail e = State_Monad.return (Err e)"

definition panic :: "string \<Rightarrow> ('s, 'a res) state" where
  "panic msg = State_Monad.return (Panic msg)"

text \<open>
  The Go idiom \<^verbatim>\<open>x, err := f(); if err != nil { return err }; ...\<close>, with panics unwinding.
\<close>

definition and_then :: "('s, 'a res) state \<Rightarrow> ('a \<Rightarrow> ('s, 'b res) state) \<Rightarrow> ('s, 'b res) state"
where
  "and_then m k = do {
     r \<leftarrow> m;
     case r of Ok x \<Rightarrow> k x | Err e \<Rightarrow> State_Monad.return (Err e)
             | Panic msg \<Rightarrow> State_Monad.return (Panic msg) }"

lemma and_then_assoc: "and_then (and_then m f) g = and_then m (\<lambda>x. and_then (f x) g)"
  unfolding and_then_def State_Monad.bind_assoc
  by (intro arg_cong [where f = "State_Monad.bind m"] ext) (simp split: res.split)

section \<open>Weakest preconditions\<close>

definition wp :: "('s, 'a) state \<Rightarrow> ('a \<Rightarrow> 's \<Rightarrow> bool) \<Rightarrow> 's \<Rightarrow> bool" where
  "wp m Q s = (case run_state m s of (a, s') \<Rightarrow> Q a s')"

lemma wp_return [wp_simps]: "wp (State_Monad.return a) Q s = Q a s"
  by (simp add: wp_def)

lemma wp_ok [wp_simps]: "wp (ok a) Q s = Q (Ok a) s"
  by (simp add: ok_def wp_return)

lemma wp_fail [wp_simps]: "wp (fail e) Q s = Q (Err e) s"
  by (simp add: fail_def wp_return)

lemma wp_panic [wp_simps]: "wp (panic p) Q s = Q (Panic p) s"
  by (simp add: panic_def wp_return)

lemma wp_bind [wp_simps]: "wp (State_Monad.bind m f) Q s = wp m (\<lambda>a. wp (f a) Q) s"
  by (simp add: wp_def split: prod.splits)

lemma wp_and_then [wp_simps]:
  "wp (and_then m k) Q s =
     wp m (\<lambda>r s'. case r of Ok a \<Rightarrow> wp (k a) Q s' | Err e \<Rightarrow> Q (Err e) s'
                          | Panic p \<Rightarrow> Q (Panic p) s') s"
  by (auto simp: and_then_def wp_def split: prod.splits res.splits)

lemma wp_get [wp_simps]: "wp State_Monad.get Q s = Q s s"
  by (simp add: wp_def)

lemma wp_set [wp_simps]: "wp (State_Monad.set t) Q s = Q () t"
  by (simp add: wp_def)

lemma wp_update [wp_simps]: "wp (State_Monad.update f) Q s = Q () (f s)"
  by (simp add: State_Monad.update_def wp_simps)

lemma wp_mono: "wp m Q s \<Longrightarrow> (\<And>a s'. Q a s' \<Longrightarrow> Q' a s') \<Longrightarrow> wp m Q' s"
  by (simp add: wp_def split: prod.splits)

lemma wp_trivial: "(\<And>a t. Q a t) \<Longrightarrow> wp m Q s"
  by (simp add: wp_def split: prod.splits)

lemma wp_conj: "wp m Q s \<Longrightarrow> wp m Q' s \<Longrightarrow> wp m (\<lambda>a s'. Q a s' \<and> Q' a s') s"
  by (simp add: wp_def split: prod.splits)

lemma wp_if: "(b \<Longrightarrow> wp m Q s) \<Longrightarrow> (\<not> b \<Longrightarrow> wp n Q s) \<Longrightarrow> wp (if b then m else n) Q s"
  by simp

lemma wp_okI: "Q (Ok a) s \<Longrightarrow> wp (ok a) Q s"
  by (simp add: wp_ok)

lemma wp_run: "wp m Q s \<Longrightarrow> run_state m s = (a, s') \<Longrightarrow> Q a s'"
  by (simp add: wp_def)

section \<open>Relations kept by every computation\<close>

text \<open>
  Many facts about the operator relate the states before and after a computation: the API calls
  made in between follow some protocol, a part of the cluster is left alone. If the relation is
  reflexive and transitive, it holds for a composition when it holds for the parts.
\<close>

locale step_order =
  fixes R :: "'s \<Rightarrow> 's \<Rightarrow> bool"
  assumes R_refl: "R s s"
    and R_trans: "R s t \<Longrightarrow> R t u \<Longrightarrow> R s u"
begin

lemma keeps_return: "state_io_rel R (State_Monad.return a)"
  by (auto simp: state_io_rel_def R_refl)

lemma keeps_ok: "state_io_rel R (ok a)"
  by (simp add: ok_def keeps_return)

lemma keeps_fail: "state_io_rel R (fail e)"
  by (simp add: fail_def keeps_return)

lemma keeps_panic: "state_io_rel R (panic p)"
  by (simp add: panic_def keeps_return)

lemma keeps_bind:
  assumes "state_io_rel R m" and "\<And>a. state_io_rel R (f a)"
  shows "state_io_rel R (State_Monad.bind m f)"
  using assms by (auto simp: state_io_rel_def split: prod.splits)
    (metis R_trans prod.collapse snd_conv)

lemma keeps_and_then:
  assumes "state_io_rel R m" and "\<And>a. state_io_rel R (k a)"
  shows "state_io_rel R (and_then m k)"
  unfolding and_then_def
  by (intro keeps_bind assms) (auto split: res.splits intro: keeps_return assms)

lemma keeps_get: "state_io_rel R State_Monad.get"
  by (auto simp: state_io_rel_def R_refl)

lemma keeps_if:
  assumes "state_io_rel R m" and "state_io_rel R n"
  shows "state_io_rel R (if b then m else n)"
  using assms by simp

text \<open>The relation is kept by \<open>m\<close> and, given what \<open>m\<close> establishes of its result, by the rest.\<close>

lemma keeps_bind_post:
  assumes "state_io_rel R m" and "\<And>s. wp m (\<lambda>a _. P a) s" and "\<And>a. P a \<Longrightarrow> state_io_rel R (f a)"
  shows "state_io_rel R (State_Monad.bind m f)"
proof -
  have "R s (snd (run_state (State_Monad.bind m f) s))" for s
  proof -
    obtain a t where m: "run_state m s = (a, t)" by fastforce
    then have "R s t" using assms(1) unfolding state_io_rel_def by (metis snd_conv)
    moreover have "R t (snd (run_state (f a) t))"
      using assms(2) [of s] assms(3) [of a] m by (simp add: wp_def state_io_rel_def)
    ultimately show ?thesis using m by (auto intro: R_trans)
  qed
  then show ?thesis by (simp add: state_io_rel_def)
qed

lemma keeps_and_then_post:
  assumes "state_io_rel R m" and "\<And>s. wp m (\<lambda>res _. \<forall>a. res = Ok a \<longrightarrow> P a) s"
    and "\<And>a. P a \<Longrightarrow> state_io_rel R (k a)"
  shows "state_io_rel R (and_then m k)"
  unfolding and_then_def
  by (rule keeps_bind_post [OF assms(1,2)]) (auto split: res.splits intro: assms(3) keeps_return)

lemmas keeps_intros = keeps_return keeps_ok keeps_fail keeps_panic keeps_get keeps_bind
  keeps_and_then keeps_if

end

section \<open>Generic lemmas\<close>

lemma fmlookup_fmap_of_list_Cons [simp]:
  "fmlookup (fmap_of_list ((k, v) # xs)) = (fmlookup (fmap_of_list xs))(k \<mapsto> v)"
  by (auto simp: fmlookup_of_list)

lemma fmlookup_fmap_of_list_Nil [simp]: "fmlookup (fmap_of_list []) = Map.empty"
  by (auto simp: fmlookup_of_list)

text \<open>Two finite maps of the same size, one contained in the other, are equal.\<close>

lemma fmap_eq_if_subset_card:
  assumes card: "fcard (fmdom m1) = fcard (fmdom m2)"
    and sub: "\<And>k v. fmlookup m1 k = Some v \<Longrightarrow> fmlookup m2 k = Some v"
  shows "m1 = m2"
proof (rule fmap_ext)
  fix k
  have "fmdom m1 |\<subseteq>| fmdom m2"
    by (auto dest!: sub simp: fmdom_notI dest: fmdomI)
  with card have dom: "fmdom m1 = fmdom m2"
    by (simp add: fcard_seteq)
  show "fmlookup m1 k = fmlookup m2 k"
  proof (cases "fmlookup m1 k")
    case None
    then have "k |\<notin>| fmdom m2" using dom by (metis fmdom_notI)
    then show ?thesis using None by (simp add: fmdom_notD)
  next
    case (Some v)
    then show ?thesis using sub by metis
  qed
qed

end
