(* ===== verification/Go_Std.thy ===== *)
theory Go_Std
  imports Prelude
begin

text \<open>
  The parts of the Go standard library that the operator relies on: \<^verbatim>\<open>strconv.Itoa\<close> (also the
  \<^verbatim>\<open>%d\<close> verb and \<^verbatim>\<open>fmt.Sprint\<close> of an integer), \<^verbatim>\<open>strings.HasPrefix\<close>, \<^verbatim>\<open>time.Time.AddDate\<close> and
  \<^verbatim>\<open>url.ParseRequestURI\<close> as far as its \<^verbatim>\<open>Host\<close> and its error go (Go 1.19, the version of go.mod).
  None of it is code of the repository, so it has no map entries.
\<close>

section \<open>strconv and strings\<close>

definition digit_char :: "nat \<Rightarrow> char" where
  "digit_char d = char_of (48 + d)"

fun nat_digits :: "nat \<Rightarrow> string" where
  "nat_digits n = (if n < 10 then [digit_char n] else nat_digits (n div 10) @ [digit_char (n mod 10)])"

declare nat_digits.simps [simp del]

definition itoa :: "int \<Rightarrow> string" where
  "itoa i = (if i < 0 then ''-'' @ nat_digits (nat (- i)) else nat_digits (nat i))"

definition digit_value :: "char \<Rightarrow> nat" where
  "digit_value c = of_char c - 48"

definition read_digits :: "string \<Rightarrow> nat" where
  "read_digits = foldl (\<lambda>n c. 10 * n + digit_value c) 0"

definition is_digit :: "char \<Rightarrow> bool" where
  "is_digit c \<longleftrightarrow> 48 \<le> (of_char c :: nat) \<and> (of_char c :: nat) \<le> 57"

definition has_prefix :: "string \<Rightarrow> string \<Rightarrow> bool" where
  "has_prefix s p \<longleftrightarrow> prefix p s"

lemma of_char_digit: "d < 10 \<Longrightarrow> of_char (digit_char d) = 48 + d"
  by (simp add: digit_char_def)

lemma digit_value_char [simp]: "d < 10 \<Longrightarrow> digit_value (digit_char d) = d"
  by (simp add: digit_value_def of_char_digit)

lemma is_digit_char [simp]: "d < 10 \<Longrightarrow> is_digit (digit_char d)"
  by (simp add: is_digit_def of_char_digit)

lemma nat_digits_is_digit: "\<forall>c \<in> set (nat_digits n). is_digit c"
proof (induction n rule: nat_digits.induct)
  case (1 n)
  then show ?case by (subst nat_digits.simps) auto
qed

lemma nat_digits_nonempty [simp]: "nat_digits n \<noteq> []"
  by (subst nat_digits.simps) simp

text \<open>Reading the digits back gives the number.\<close>

lemma read_nat_digits [simp]: "read_digits (nat_digits n) = n"
proof (induction n rule: nat_digits.induct)
  case (1 n)
  show ?case
  proof (cases "n < 10")
    case True
    then show ?thesis by (subst nat_digits.simps) (simp add: read_digits_def)
  next
    case False
    with 1 have "read_digits (nat_digits (n div 10)) = n div 10" by simp
    with False show ?thesis
      by (subst nat_digits.simps) (simp add: read_digits_def)
  qed
qed

lemma nat_digits_inj [simp]: "nat_digits m = nat_digits n \<longleftrightarrow> m = n"
  by (metis read_nat_digits)

lemma minus_notin_digits: "CHR ''-'' \<notin> set (nat_digits n)"
  using nat_digits_is_digit [of n] by (auto simp: is_digit_def)

lemma itoa_inj [simp]: "itoa i = itoa j \<longleftrightarrow> i = j"
proof -
  have "nat_digits m \<noteq> ''-'' @ nat_digits n" for m n
    using minus_notin_digits [of m] by auto
  then show ?thesis
    by (auto simp: itoa_def dest: sym)
qed

lemma itoa_nonempty [simp]: "itoa i \<noteq> []"
  by (simp add: itoa_def)

section \<open>time.Time.AddDate\<close>

text \<open>
  A \<^verbatim>\<open>time.Time\<close> is its UTC offset from the epoch in nanoseconds. \<^verbatim>\<open>AddDate(years, 0, 0)\<close> adds to
  the year of the civil date and normalises, so 29 February becomes 1 March in a common year.
\<close>

type_synonym go_time = int

definition day_ns :: int where
  "day_ns = 86400 * 1000000000"

definition days_from_civil :: "int \<Rightarrow> int \<Rightarrow> int \<Rightarrow> int" where
  "days_from_civil y m d =
     (let y' = (if m \<le> 2 then y - 1 else y); mp = (m + 9) mod 12
      in 365 * y' + y' div 4 - y' div 100 + y' div 400 + (153 * mp + 2) div 5 + d - 1 - 719468)"

definition civil_from_days :: "int \<Rightarrow> int \<times> int \<times> int" where
  "civil_from_days z =
     (let z' = z + 719468; era = z' div 146097; doe = z' mod 146097;
          yoe = (doe - doe div 1460 + doe div 36524 - doe div 146096) div 365;
          doy = doe - (365 * yoe + yoe div 4 - yoe div 100);
          mp = (5 * doy + 2) div 153;
          m = (if mp < 10 then mp + 3 else mp - 9)
      in (yoe + era * 400 + (if m \<le> 2 then 1 else 0), m, doy - (153 * mp + 2) div 5 + 1))"

definition add_years :: "int \<Rightarrow> go_time \<Rightarrow> go_time" where
  "add_years n t =
     (case civil_from_days (t div day_ns) of
        (y, m, d) \<Rightarrow> days_from_civil (y + n) m d * day_ns + t mod day_ns)"

end
