(* ===== verification/Kube.thy ===== *)
theory Kube
  imports Go_Std
begin

text \<open>
  The Kubernetes and OpenShift objects the operator builds and reads: one record per Go struct of
  \<^verbatim>\<open>k8s.io/api/core/v1\<close> and \<^verbatim>\<open>openshift/api/route/v1\<close>, with the fields the operator sets or reads. A
  \<^verbatim>\<open>map[string]string\<close> (or \<^verbatim>\<open>[]byte\<close> values) is a finite map, a pointer to a scalar or a struct is
  an option. The \<^verbatim>\<open>zero_\<close> constants are Go's zero values, so that a struct literal that names some
  fields reads as an update of them. These types belong to libraries, so they have no map entries.
\<close>

section \<open>Metadata\<close>

text \<open>\<^verbatim>\<open>om_deleting\<close> stands for a set \<^verbatim>\<open>DeletionTimestamp\<close>: the object is stored until it has ended.\<close>

record owner_ref =
  or_kind :: string
  or_name :: string
  or_controller :: bool

record object_meta =
  om_name :: string
  om_namespace :: string
  om_labels :: "(string, string) fmap"
  om_annotations :: "(string, string) fmap"
  om_owners :: "owner_ref list"
  om_deleting :: bool

definition zero_meta :: object_meta where
  "zero_meta = \<lparr>om_name = [], om_namespace = [], om_labels = fmempty, om_annotations = fmempty,
     om_owners = [], om_deleting = False\<rparr>"

section \<open>Pods\<close>

record secret_key_selector =
  sks_name :: string
  sks_key :: string
  sks_optional :: "bool option"

record env_var =
  ev_name :: string
  ev_value :: string
  ev_from :: "secret_key_selector option"

definition env_value :: "string \<Rightarrow> string \<Rightarrow> env_var" where
  "env_value name val = \<lparr>ev_name = name, ev_value = val, ev_from = None\<rparr>"

record volume_mount =
  vm_name :: string
  vm_path :: string
  vm_sub_path :: string

datatype volume_source =
  EmptyDir | ConfigMapVolume string | SecretVolume string | ClaimVolume string

record volume =
  vol_name :: string
  vol_source :: volume_source

record container_port =
  cp_name :: string
  cp_port :: int32

record security_context =
  sc_run_as_user :: "int64 option"

record container =
  c_name :: string
  c_image :: string
  c_pull_policy :: string
  c_command :: "string list"
  c_env :: "env_var list"
  c_ports :: "container_port list"
  c_security :: "security_context option"
  c_mounts :: "volume_mount list"

definition zero_container :: container where
  "zero_container = \<lparr>c_name = [], c_image = [], c_pull_policy = [], c_command = [], c_env = [],
     c_ports = [], c_security = None, c_mounts = []\<rparr>"

record pod_security_context =
  psc_fs_group :: "int64 option"

text \<open>
  \<^verbatim>\<open>ps_rest\<close> stands for everything else a stored pod specification holds (node name, service
  account, tolerations and other defaults the server writes). The operator leaves it unset.
\<close>

record pod_spec =
  ps_grace :: "int64 option"
  ps_init :: "container list"
  ps_security :: "pod_security_context option"
  ps_containers :: "container list"
  ps_volumes :: "volume list"
  ps_rest :: string

definition zero_pod_spec :: pod_spec where
  "zero_pod_spec = \<lparr>ps_grace = None, ps_init = [], ps_security = None, ps_containers = [],
     ps_volumes = [], ps_rest = []\<rparr>"

text \<open>
  Of a container status: the reason of its \<^verbatim>\<open>Waiting\<close> state, if that pointer is set, and whether
  \<^verbatim>\<open>Terminated\<close> is set. A condition has a type and a status.
\<close>

record container_status =
  cs_waiting :: "string option"
  cs_terminated :: bool

record condition =
  cond_type :: string
  cond_status :: string

record pod =
  p_meta :: object_meta
  p_spec :: pod_spec
  p_statuses :: "container_status list"
  p_conditions :: "condition list"

definition zero_pod :: pod where
  "zero_pod = \<lparr>p_meta = zero_meta, p_spec = zero_pod_spec, p_statuses = [], p_conditions = []\<rparr>"

section \<open>Services\<close>

record service_port =
  sp_name :: string
  sp_port :: int32
  sp_target :: int32
  sp_node :: int32

record lb_ingress =
  lb_ip :: string
  lb_hostname :: string
  lb_ports :: "int32 list"

record service =
  svc_meta :: object_meta
  svc_type :: string
  svc_ports :: "service_port list"
  svc_selector :: "(string, string) fmap"
  svc_ingress :: "lb_ingress list"

section \<open>Secrets and config maps\<close>

record secret =
  sec_meta :: object_meta
  sec_type :: string
  sec_string_data :: "(string, string) fmap"
  sec_data :: "(string, string) fmap"

definition zero_secret :: secret where
  "zero_secret = \<lparr>sec_meta = zero_meta, sec_type = [], sec_string_data = fmempty,
     sec_data = fmempty\<rparr>"

record config_map =
  cm_meta :: object_meta
  cm_data :: "(string, string) fmap"
  cm_binary :: "(string, string) fmap"

section \<open>Routes\<close>

record tls_config =
  tls_termination :: string
  tls_insecure :: string
  tls_certificate :: string
  tls_key :: string
  tls_ca :: string
  tls_destination_ca :: string

record route_ingress =
  ri_host :: string
  ri_conditions :: "condition list"

record route =
  rt_meta :: object_meta
  rt_host :: string
  rt_subdomain :: string
  rt_to_kind :: string
  rt_to_name :: string
  rt_tls :: "tls_config option"
  rt_ingress :: "route_ingress list"

section \<open>Objects of any kind\<close>

datatype kind = KPod | KService | KSecret | KConfigMap | KRoute

datatype obj =
  PodObj pod | ServiceObj service | SecretObj secret | ConfigMapObj config_map | RouteObj route

fun kind_name :: "kind \<Rightarrow> string" where
  "kind_name KPod = ''Pod''"
| "kind_name KService = ''Service''"
| "kind_name KSecret = ''Secret''"
| "kind_name KConfigMap = ''ConfigMap''"
| "kind_name KRoute = ''Route''"

fun obj_kind :: "obj \<Rightarrow> kind" where
  "obj_kind (PodObj _) = KPod"
| "obj_kind (ServiceObj _) = KService"
| "obj_kind (SecretObj _) = KSecret"
| "obj_kind (ConfigMapObj _) = KConfigMap"
| "obj_kind (RouteObj _) = KRoute"

fun obj_meta :: "obj \<Rightarrow> object_meta" where
  "obj_meta (PodObj p) = p_meta p"
| "obj_meta (ServiceObj s) = svc_meta s"
| "obj_meta (SecretObj s) = sec_meta s"
| "obj_meta (ConfigMapObj c) = cm_meta c"
| "obj_meta (RouteObj r) = rt_meta r"

definition obj_name :: "obj \<Rightarrow> string" where
  "obj_name ob = om_name (obj_meta ob)"

definition obj_namespace :: "obj \<Rightarrow> string" where
  "obj_namespace ob = om_namespace (obj_meta ob)"

text \<open>An object of the cluster is identified by its kind, its namespace and its name.\<close>

type_synonym key = "kind \<times> string \<times> string"

definition obj_key :: "obj \<Rightarrow> key" where
  "obj_key ob = (obj_kind ob, obj_namespace ob, obj_name ob)"

fun set_owners :: "owner_ref list \<Rightarrow> obj \<Rightarrow> obj" where
  "set_owners os (PodObj p) = PodObj (p\<lparr>p_meta := (p_meta p)\<lparr>om_owners := os\<rparr>\<rparr>)"
| "set_owners os (ServiceObj s) = ServiceObj (s\<lparr>svc_meta := (svc_meta s)\<lparr>om_owners := os\<rparr>\<rparr>)"
| "set_owners os (SecretObj s) = SecretObj (s\<lparr>sec_meta := (sec_meta s)\<lparr>om_owners := os\<rparr>\<rparr>)"
| "set_owners os (ConfigMapObj c) = ConfigMapObj (c\<lparr>cm_meta := (cm_meta c)\<lparr>om_owners := os\<rparr>\<rparr>)"
| "set_owners os (RouteObj r) = RouteObj (r\<lparr>rt_meta := (rt_meta r)\<lparr>om_owners := os\<rparr>\<rparr>)"

lemma set_owners_key [simp]: "obj_key (set_owners os ob) = obj_key ob"
  by (cases ob) (simp_all add: obj_key_def obj_name_def obj_namespace_def)

lemma set_owners_kind [simp]: "obj_kind (set_owners os ob) = obj_kind ob"
  by (cases ob) simp_all

lemma set_owners_owners [simp]: "om_owners (obj_meta (set_owners os ob)) = os"
  by (cases ob) simp_all

text \<open>The object after its deletion was accepted, while it is still stored.\<close>

fun mark_deleted :: "obj \<Rightarrow> obj" where
  "mark_deleted (PodObj p) = PodObj (p\<lparr>p_meta := (p_meta p)\<lparr>om_deleting := True\<rparr>\<rparr>)"
| "mark_deleted (ServiceObj s) = ServiceObj (s\<lparr>svc_meta := (svc_meta s)\<lparr>om_deleting := True\<rparr>\<rparr>)"
| "mark_deleted (SecretObj s) = SecretObj (s\<lparr>sec_meta := (sec_meta s)\<lparr>om_deleting := True\<rparr>\<rparr>)"
| "mark_deleted (ConfigMapObj c) = ConfigMapObj (c\<lparr>cm_meta := (cm_meta c)\<lparr>om_deleting := True\<rparr>\<rparr>)"
| "mark_deleted (RouteObj r) = RouteObj (r\<lparr>rt_meta := (rt_meta r)\<lparr>om_deleting := True\<rparr>\<rparr>)"

definition deleting :: "obj \<Rightarrow> bool" where
  "deleting ob = om_deleting (obj_meta ob)"

lemma mark_deleted_simps [simp]:
  "obj_key (mark_deleted ob) = obj_key ob" "deleting (mark_deleted ob)"
  "mark_deleted (mark_deleted ob) = mark_deleted ob"
  by (cases ob; simp add: obj_key_def obj_name_def obj_namespace_def deleting_def)+

lemma kind_name_inj: "kind_name k = kind_name k' \<longleftrightarrow> k = k'"
  by (cases k; cases k') simp_all

end
