(* ===== verification/Api_Types.thy ===== *)
theory Api_Types
  imports Kube
begin

text \<open>
  The custom resource (\<^verbatim>\<open>api/v1alpha1/horreum_types.go\<close>): the user's specification and the status
  the operator reports. One record per Go struct; the \<^verbatim>\<open>omitempty\<close> strings and numbers have their
  zero values when the user leaves them out, the two pointer fields are options.
\<close>

record DatabaseSpec =
  Db_Host :: string
  Db_Port :: int32
  Db_Name :: string
  Db_Secret :: string

record RouteSpec =
  Route_Host :: string
  Route_Type :: string
  Route_TLS :: string

record ExternalSpec =
  Ext_PublicUri :: string
  Ext_InternalUri :: string

record KeycloakSpec =
  Kc_External :: ExternalSpec
  Kc_Image :: string
  Kc_Route :: RouteSpec
  Kc_ServiceType :: string
  Kc_AdminSecret :: string
  Kc_Database :: DatabaseSpec

record PostgresSpec =
  Pg_Enabled :: "bool option"
  Pg_Image :: string
  Pg_AdminSecret :: string
  Pg_PersistentVolumeClaim :: string
  Pg_User :: "int64 option"

record HorreumSpec =
  Spec_AdminSecret :: string
  Spec_Route :: RouteSpec
  Spec_ServiceType :: string
  Spec_Image :: string
  Spec_Database :: DatabaseSpec
  Spec_Keycloak :: KeycloakSpec
  Spec_Postgres :: PostgresSpec
  Spec_NodeHost :: string

record HorreumStatus =
  Status_Status :: string
  Status_LastUpdate :: go_time
  Status_Reason :: string
  Status_PublicUrl :: string
  Status_KeycloakUrl :: string

record Horreum =
  Meta :: object_meta
  Spec :: HorreumSpec
  Status :: HorreumStatus

record HorreumList =
  Items :: "Horreum list"

text \<open>
  The API group (\<^verbatim>\<open>groupversion_info.go\<close>) and the types that \<^verbatim>\<open>init\<close> adds to the scheme under it.
\<close>

definition GroupVersion :: "string \<times> string" where
  "GroupVersion = (''hyperfoil.io'', ''v1alpha1'')"

definition registeredTypes :: "((string \<times> string) \<times> string) list" where
  "registeredTypes = [(GroupVersion, ''Horreum''), (GroupVersion, ''HorreumList'')]"

text \<open>The promoted fields \<^verbatim>\<open>cr.Name\<close> and \<^verbatim>\<open>cr.Namespace\<close>.\<close>

abbreviation Name :: "Horreum \<Rightarrow> string" where
  "Name cr \<equiv> om_name (Meta cr)"

abbreviation Namespace :: "Horreum \<Rightarrow> string" where
  "Namespace cr \<equiv> om_namespace (Meta cr)"

abbreviation Keycloak :: "Horreum \<Rightarrow> KeycloakSpec" where
  "Keycloak cr \<equiv> Spec_Keycloak (Spec cr)"

abbreviation Postgres :: "Horreum \<Rightarrow> PostgresSpec" where
  "Postgres cr \<equiv> Spec_Postgres (Spec cr)"

abbreviation Database :: "Horreum \<Rightarrow> DatabaseSpec" where
  "Database cr \<equiv> Spec_Database (Spec cr)"

text \<open>The zero values, what the API server hands over for a resource with an empty specification.\<close>

definition zero_DatabaseSpec :: DatabaseSpec where
  "zero_DatabaseSpec = \<lparr>Db_Host = [], Db_Port = 0, Db_Name = [], Db_Secret = []\<rparr>"

definition zero_RouteSpec :: RouteSpec where
  "zero_RouteSpec = \<lparr>Route_Host = [], Route_Type = [], Route_TLS = []\<rparr>"

definition zero_KeycloakSpec :: KeycloakSpec where
  "zero_KeycloakSpec = \<lparr>Kc_External = \<lparr>Ext_PublicUri = [], Ext_InternalUri = []\<rparr>, Kc_Image = [],
     Kc_Route = zero_RouteSpec, Kc_ServiceType = [], Kc_AdminSecret = [],
     Kc_Database = zero_DatabaseSpec\<rparr>"

definition zero_PostgresSpec :: PostgresSpec where
  "zero_PostgresSpec = \<lparr>Pg_Enabled = None, Pg_Image = [], Pg_AdminSecret = [],
     Pg_PersistentVolumeClaim = [], Pg_User = None\<rparr>"

definition zero_HorreumSpec :: HorreumSpec where
  "zero_HorreumSpec = \<lparr>Spec_AdminSecret = [], Spec_Route = zero_RouteSpec, Spec_ServiceType = [],
     Spec_Image = [], Spec_Database = zero_DatabaseSpec, Spec_Keycloak = zero_KeycloakSpec,
     Spec_Postgres = zero_PostgresSpec, Spec_NodeHost = []\<rparr>"

definition zero_HorreumStatus :: HorreumStatus where
  "zero_HorreumStatus = \<lparr>Status_Status = [], Status_LastUpdate = 0, Status_Reason = [],
     Status_PublicUrl = [], Status_KeycloakUrl = []\<rparr>"

definition zero_Horreum :: Horreum where
  "zero_Horreum = \<lparr>Meta = zero_meta, Spec = zero_HorreumSpec, Status = zero_HorreumStatus\<rparr>"

end
