(* ===== verification/Runtime.thy ===== *)
theory Runtime
  imports Api_Types
begin

text \<open>
  The reconciler (\<^verbatim>\<open>HorreumReconciler\<close> of \<^verbatim>\<open>horreum_controller.go\<close>) and what it talks to. The API
  server behind \<^verbatim>\<open>client.Client\<close>, the controller-runtime and apimachinery helpers, the clock, the
  random source and the cryptographic library are parameters: records of functions over an
  arbitrary world type, so that every theorem holds for every behaviour of them.
\<close>

section \<open>Parameters\<close>

text \<open>
  The API server. Reads and writes take the world and return the new one, so other actors may
  change the cluster between two calls. \<^verbatim>\<open>Get\<close> fills a typed struct, hence one function per kind. The
  operator ignores the result of \<^verbatim>\<open>Status().Update\<close>, and it reads only the name and the namespace of
  an object after \<^verbatim>\<open>Create\<close>, which creation does not change.
\<close>

record 'w client =
  cl_get_horreum :: "string \<Rightarrow> string \<Rightarrow> 'w \<Rightarrow> (go_error + Horreum) \<times> 'w"
  cl_get_pod :: "string \<Rightarrow> string \<Rightarrow> 'w \<Rightarrow> (go_error + pod) \<times> 'w"
  cl_get_service :: "string \<Rightarrow> string \<Rightarrow> 'w \<Rightarrow> (go_error + service) \<times> 'w"
  cl_get_secret :: "string \<Rightarrow> string \<Rightarrow> 'w \<Rightarrow> (go_error + secret) \<times> 'w"
  cl_get_config_map :: "string \<Rightarrow> string \<Rightarrow> 'w \<Rightarrow> (go_error + config_map) \<times> 'w"
  cl_get_route :: "string \<Rightarrow> string \<Rightarrow> 'w \<Rightarrow> (go_error + route) \<times> 'w"
  cl_create :: "obj \<Rightarrow> 'w \<Rightarrow> go_error option \<times> 'w"
  cl_delete :: "obj \<Rightarrow> 'w \<Rightarrow> go_error option \<times> 'w"
  cl_update_status :: "Horreum \<Rightarrow> 'w \<Rightarrow> 'w"

text \<open>
  \<^verbatim>\<open>lib_owners\<close> is \<^verbatim>\<open>controllerutil.SetControllerReference\<close>: it fails or computes the new owner
  references of the object, the only part of it that it changes. \<^verbatim>\<open>lib_deep_derivative\<close> is
  \<^verbatim>\<open>equality.Semantic.DeepDerivative\<close>. \<^verbatim>\<open>lib_seed\<close> seeds \<^verbatim>\<open>math/rand\<close>
  and \<^verbatim>\<open>lib_rand\<close> is its next raw value.
\<close>

record 'w library =
  lib_now :: "'w \<Rightarrow> go_time \<times> 'w"
  lib_seed :: "int \<Rightarrow> 'w \<Rightarrow> 'w"
  lib_rand :: "'w \<Rightarrow> nat \<times> 'w"
  lib_owners :: "Horreum \<Rightarrow> obj \<Rightarrow> go_error + owner_ref list"
  lib_deep_derivative :: "pod_spec \<Rightarrow> pod_spec \<Rightarrow> bool"

text \<open>An RSA key pair and the fields of \<^verbatim>\<open>x509.Certificate\<close> that the operator sets.\<close>

record rsa_key =
  rsa_public :: string
  rsa_private :: string

record certificate =
  crt_serial :: int
  crt_organization :: "string list"
  crt_country :: "string list"
  crt_province :: "string list"
  crt_locality :: "string list"
  crt_common_name :: string
  crt_dns_names :: "string list"
  crt_not_before :: go_time
  crt_not_after :: go_time
  crt_is_ca :: bool
  crt_ext_key_usage :: "int list"
  crt_key_usage :: int
  crt_basic_constraints_valid :: bool

text \<open>
  \<^verbatim>\<open>rsa.GenerateKey\<close>, \<^verbatim>\<open>x509.CreateCertificate\<close> (template, parent, public key, signing key), the
  PKCS1 and x509 encodings, and \<^verbatim>\<open>pem\<close>: \<^verbatim>\<open>pem_encode\<close> takes the block's type and bytes, \<^verbatim>\<open>pem_decode\<close>
  returns the bytes of the first block, if there is one.
\<close>

record 'w crypto =
  rsa_generate :: "'w \<Rightarrow> (go_error + rsa_key) \<times> 'w"
  x509_create :: "certificate \<Rightarrow> certificate \<Rightarrow> string \<Rightarrow> rsa_key \<Rightarrow> 'w \<Rightarrow> (go_error + string) \<times> 'w"
  x509_parse :: "string \<Rightarrow> go_error + certificate"
  pkcs1_marshal :: "rsa_key \<Rightarrow> string"
  pkcs1_parse :: "string \<Rightarrow> go_error + rsa_key"
  pem_encode :: "string \<Rightarrow> string \<Rightarrow> string"
  pem_decode :: "string \<Rightarrow> string option"

section \<open>The reconciler and the state of a pass\<close>

record 'w HorreumReconciler =
  Client :: "'w client"
  Lib :: "'w library"
  Crypto :: "'w crypto"
  RoutesAvailable :: bool
  UseRedHatImages :: bool

text \<open>
  The API calls of a pass, in order, with their errors: a history variable of the model.
\<close>

datatype event =
  GetHorreumEv string string "go_error option"
| GetEv key "go_error option"
| CreateEv obj "go_error option"
| DeleteEv obj "go_error option"
| StatusEv string string HorreumStatus

text \<open>
  Of the resource \<^verbatim>\<open>cr\<close> that a pass works on, only the status is changed in memory; it is part of
  the state, the rest of \<^verbatim>\<open>cr\<close> is passed as an argument.
\<close>

record 'w st =
  st_world :: 'w
  st_status :: HorreumStatus
  st_events :: "event list"

section \<open>Calls\<close>

definition effect :: "('w \<Rightarrow> 'a \<times> 'w) \<Rightarrow> ('w st, 'a) state" where
  "effect f = State (\<lambda>s. case f (st_world s) of (a, w) \<Rightarrow> (a, s\<lparr>st_world := w\<rparr>))"

definition emit :: "event \<Rightarrow> ('w st, unit) state" where
  "emit e = State_Monad.update (\<lambda>s. s\<lparr>st_events := st_events s @ [e]\<rparr>)"

definition error_of :: "go_error + 'a \<Rightarrow> go_error option" where
  "error_of x = (case x of Inl e \<Rightarrow> Some e | Inr _ \<Rightarrow> None)"

definition typed_get ::
  "kind \<Rightarrow> (string \<Rightarrow> string \<Rightarrow> 'w \<Rightarrow> (go_error + 'a) \<times> 'w) \<Rightarrow> string \<Rightarrow> string
     \<Rightarrow> ('w st, go_error + 'a) state" where
  "typed_get k get ns name = do {
     x \<leftarrow> effect (get ns name);
     emit (GetEv (k, ns, name) (error_of x));
     State_Monad.return x }"

definition get_pod :: "'w HorreumReconciler \<Rightarrow> string \<Rightarrow> string \<Rightarrow> ('w st, go_error + pod) state"
where
  "get_pod r = typed_get KPod (cl_get_pod (Client r))"

definition get_service ::
  "'w HorreumReconciler \<Rightarrow> string \<Rightarrow> string \<Rightarrow> ('w st, go_error + service) state" where
  "get_service r = typed_get KService (cl_get_service (Client r))"

definition get_secret ::
  "'w HorreumReconciler \<Rightarrow> string \<Rightarrow> string \<Rightarrow> ('w st, go_error + secret) state" where
  "get_secret r = typed_get KSecret (cl_get_secret (Client r))"

definition get_config_map ::
  "'w HorreumReconciler \<Rightarrow> string \<Rightarrow> string \<Rightarrow> ('w st, go_error + config_map) state" where
  "get_config_map r = typed_get KConfigMap (cl_get_config_map (Client r))"

definition get_route ::
  "'w HorreumReconciler \<Rightarrow> string \<Rightarrow> string \<Rightarrow> ('w st, go_error + route) state" where
  "get_route r = typed_get KRoute (cl_get_route (Client r))"

text \<open>\<^verbatim>\<open>Get\<close> into an object of a kind known at run time only, as \<^verbatim>\<open>ensureSame\<close> calls it.\<close>

definition client_get :: "'w client \<Rightarrow> kind \<Rightarrow> string \<Rightarrow> string \<Rightarrow> 'w \<Rightarrow> (go_error + obj) \<times> 'w" where
  "client_get c k ns name w =
     (case k of
        KPod \<Rightarrow> apfst (map_sum id PodObj) (cl_get_pod c ns name w)
      | KService \<Rightarrow> apfst (map_sum id ServiceObj) (cl_get_service c ns name w)
      | KSecret \<Rightarrow> apfst (map_sum id SecretObj) (cl_get_secret c ns name w)
      | KConfigMap \<Rightarrow> apfst (map_sum id ConfigMapObj) (cl_get_config_map c ns name w)
      | KRoute \<Rightarrow> apfst (map_sum id RouteObj) (cl_get_route c ns name w))"

definition get_obj ::
  "'w HorreumReconciler \<Rightarrow> kind \<Rightarrow> string \<Rightarrow> string \<Rightarrow> ('w st, go_error + obj) state" where
  "get_obj r k = typed_get k (client_get (Client r) k)"

definition create :: "'w HorreumReconciler \<Rightarrow> obj \<Rightarrow> ('w st, go_error option) state" where
  "create r ob = do {
     x \<leftarrow> effect (cl_create (Client r) ob);
     emit (CreateEv ob x);
     State_Monad.return x }"

definition delete :: "'w HorreumReconciler \<Rightarrow> obj \<Rightarrow> ('w st, go_error option) state" where
  "delete r ob = do {
     x \<leftarrow> effect (cl_delete (Client r) ob);
     emit (DeleteEv ob x);
     State_Monad.return x }"

definition now :: "'w HorreumReconciler \<Rightarrow> ('w st, go_time) state" where
  "now r = effect (lib_now (Lib r))"

text \<open>\<^verbatim>\<open>rand.Intn(n)\<close> for a positive \<^verbatim>\<open>n\<close>.\<close>

definition rand_intn :: "'w HorreumReconciler \<Rightarrow> nat \<Rightarrow> ('w st, nat) state" where
  "rand_intn r n = do { x \<leftarrow> effect (lib_rand (Lib r)); State_Monad.return (x mod n) }"

definition set_controller_reference ::
  "'w HorreumReconciler \<Rightarrow> Horreum \<Rightarrow> obj \<Rightarrow> go_error + obj" where
  "set_controller_reference r cr ob =
     (case lib_owners (Lib r) cr ob of Inl e \<Rightarrow> Inl e | Inr os \<Rightarrow> Inr (set_owners os ob))"

section \<open>Weakest preconditions of the calls\<close>

lemma wp_effect [wp_simps]:
  "wp (effect f) Q s = (case f (st_world s) of (a, w) \<Rightarrow> Q a (s\<lparr>st_world := w\<rparr>))"
  by (simp add: wp_def effect_def split: prod.splits)

lemma wp_emit [wp_simps]: "wp (emit e) Q s = Q () (s\<lparr>st_events := st_events s @ [e]\<rparr>)"
  by (simp add: emit_def wp_update)

lemma wp_typed_get [wp_simps]:
  "wp (typed_get k get ns name) Q s =
     (case get ns name (st_world s) of (x, w) \<Rightarrow>
        Q x (s\<lparr>st_world := w, st_events := st_events s @ [GetEv (k, ns, name) (error_of x)]\<rparr>))"
  by (simp add: typed_get_def wp_simps split: prod.splits)

lemma wp_create [wp_simps]:
  "wp (create r ob) Q s =
     (case cl_create (Client r) ob (st_world s) of (x, w) \<Rightarrow>
        Q x (s\<lparr>st_world := w, st_events := st_events s @ [CreateEv ob x]\<rparr>))"
  by (simp add: create_def wp_simps split: prod.splits)

lemma wp_delete [wp_simps]:
  "wp (delete r ob) Q s =
     (case cl_delete (Client r) ob (st_world s) of (x, w) \<Rightarrow>
        Q x (s\<lparr>st_world := w, st_events := st_events s @ [DeleteEv ob x]\<rparr>))"
  by (simp add: delete_def wp_simps split: prod.splits)

lemma wp_now [wp_simps]:
  "wp (now r) Q s = (case lib_now (Lib r) (st_world s) of (t, w) \<Rightarrow> Q t (s\<lparr>st_world := w\<rparr>))"
  by (simp add: now_def wp_effect)

lemma wp_rand_intn [wp_simps]:
  "wp (rand_intn r n) Q s =
     (case lib_rand (Lib r) (st_world s) of (x, w) \<Rightarrow> Q (x mod n) (s\<lparr>st_world := w\<rparr>))"
  by (simp add: rand_intn_def wp_simps split: prod.splits)

lemma map_sum_id_Inr: "map_sum id f x = Inr y \<longleftrightarrow> (\<exists>z. x = Inr z \<and> y = f z)"
  by (cases x) auto

lemma map_sum_id_Inl: "map_sum id f x = Inl e \<longleftrightarrow> x = Inl e"
  by (cases x) auto

lemma client_get_kind: "client_get c k ns name w = (Inr ob, w') \<Longrightarrow> obj_kind ob = k"
  by (cases k) (auto simp: client_get_def apfst_def map_prod_def map_sum_id_Inr split: prod.splits)

lemma set_controller_reference_Inr:
  assumes "set_controller_reference r cr ob = Inr ob'"
  shows "obj_key ob' = obj_key ob" and "obj_kind ob' = obj_kind ob"
    and "\<exists>os. lib_owners (Lib r) cr ob = Inr os \<and> ob' = set_owners os ob"
  using assms by (auto simp: set_controller_reference_def split: sum.splits)

section \<open>The calls made by a computation\<close>

text \<open>
  \<^verbatim>\<open>emits L\<close> relates the states around a computation whose calls form a list of the language \<^verbatim>\<open>L\<close>.
  If \<^verbatim>\<open>L\<close> holds the empty list and is closed under concatenation, so are the computations.
\<close>

definition emits :: "(event list \<Rightarrow> bool) \<Rightarrow> 'w st \<Rightarrow> 'w st \<Rightarrow> bool" where
  "emits L s t \<longleftrightarrow> (\<exists>es. st_events t = st_events s @ es \<and> L es)"

lemma state_io_rel_wp: "state_io_rel R m \<longleftrightarrow> (\<forall>s. wp m (\<lambda>_ t. R s t) s)"
  by (simp add: state_io_rel_def wp_def case_prod_beta)

lemma emits_append:
  "st_events t = st_events s @ es \<Longrightarrow> emits L s t \<longleftrightarrow> L es"
  by (auto simp: emits_def)

lemma emits_mono: "emits L s t \<Longrightarrow> (\<And>es. L es \<Longrightarrow> L' es) \<Longrightarrow> emits L' s t"
  by (auto simp: emits_def)

locale trace_language =
  fixes L :: "event list \<Rightarrow> bool"
  assumes L_Nil: "L []"
    and L_append: "L xs \<Longrightarrow> L ys \<Longrightarrow> L (xs @ ys)"
begin

lemma emits_refl: "emits L s s"
  by (simp add: emits_def L_Nil)

lemma emits_trans: "emits L s t \<Longrightarrow> emits L t u \<Longrightarrow> emits L s u"
  by (auto simp: emits_def intro: L_append)

lemma emits_silent: "st_events t = st_events s \<Longrightarrow> emits L s t"
  by (simp add: emits_def L_Nil)

end

sublocale trace_language \<subseteq> step_order "emits L"
  by unfold_locales (auto intro: emits_refl emits_trans)

context trace_language begin

lemma keeps_effect: "state_io_rel (emits L) (effect f)"
  by (auto simp: state_io_rel_wp wp_simps intro: emits_silent split: prod.splits)

lemma keeps_now: "state_io_rel (emits L) (now r)"
  by (simp add: now_def keeps_effect)

lemma keeps_rand_intn: "state_io_rel (emits L) (rand_intn r n)"
  by (simp add: rand_intn_def keeps_bind keeps_effect keeps_return)

lemmas silent_intros = keeps_effect keeps_now keeps_rand_intn

end

end
