(* ===== verification/Status.thy ===== *)
theory Status
  imports Runtime
begin

text \<open>
  \<^verbatim>\<open>setStatus\<close> and \<^verbatim>\<open>updateStatus\<close> of \<^verbatim>\<open>horreum_controller.go\<close>: the status a pass accumulates. An
  \<^verbatim>\<open>Error\<close> of a pass is not overwritten by a later \<^verbatim>\<open>Pending\<close>. The abstract view orders the three
  statuses by severity and says that a report raises the severity to the maximum.
\<close>

section \<open>The code\<close>

definition setStatus :: "'w HorreumReconciler \<Rightarrow> string \<Rightarrow> string \<Rightarrow> ('w st, unit) state" where
  "setStatus r status reason = do {
     s \<leftarrow> State_Monad.get;
     if Status_Status (st_status s) = ''Error'' \<and> status = ''Pending'' then State_Monad.return ()
     else do {
       t \<leftarrow> now r;
       State_Monad.update (\<lambda>s. s\<lparr>st_status := (st_status s)
         \<lparr>Status_Status := status, Status_Reason := reason, Status_LastUpdate := t\<rparr>\<rparr>) } }"

text \<open>\<^verbatim>\<open>r.Status().Update(ctx, cr)\<close>, whose error every caller ignores.\<close>

definition statusUpdate :: "'w HorreumReconciler \<Rightarrow> Horreum \<Rightarrow> ('w st, unit) state" where
  "statusUpdate r cr = do {
     s \<leftarrow> State_Monad.get;
     _ \<leftarrow> effect (\<lambda>w. ((), cl_update_status (Client r) (cr\<lparr>Status := st_status s\<rparr>) w));
     emit (StatusEv (Namespace cr) (Name cr) (st_status s)) }"

definition updateStatus ::
  "'w HorreumReconciler \<Rightarrow> Horreum \<Rightarrow> string \<Rightarrow> string \<Rightarrow> ('w st, unit) state" where
  "updateStatus r cr status reason = do { setStatus r status reason; statusUpdate r cr }"

section \<open>Severity\<close>

datatype severity = SReady | SPending | SError

instantiation severity :: linorder
begin

definition less_eq_severity :: "severity \<Rightarrow> severity \<Rightarrow> bool" where
  "less_eq_severity a b \<longleftrightarrow>
     (case a of SReady \<Rightarrow> True | SPending \<Rightarrow> b \<noteq> SReady | SError \<Rightarrow> b = SError)"

definition less_severity :: "severity \<Rightarrow> severity \<Rightarrow> bool" where
  "less_severity a b \<longleftrightarrow> a \<le> b \<and> a \<noteq> (b :: severity)"

instance
  by standard (auto simp: less_eq_severity_def less_severity_def split: severity.splits)

end

definition severity_of :: "string \<Rightarrow> severity" where
  "severity_of s = (if s = ''Error'' then SError else if s = ''Pending'' then SPending else SReady)"

lemma severity_of_simps [simp]:
  "severity_of ''Error'' = SError" "severity_of ''Pending'' = SPending"
  "severity_of ''Ready'' = SReady"
  by (simp_all add: severity_of_def)

abbreviation status_severity :: "'w st \<Rightarrow> severity" where
  "status_severity s \<equiv> severity_of (Status_Status (st_status s))"

lemma severity_max_simps [simp]:
  "max SReady a = a" "max a SReady = a" "max SError a = SError" "max a SError = SError"
  "max a a = (a :: severity)"
  by (simp_all add: max_def less_eq_severity_def split: severity.splits)

section \<open>Facts\<close>

lemma wp_setStatus [wp_simps]:
  "wp (setStatus r status reason) Q s =
     (if Status_Status (st_status s) = ''Error'' \<and> status = ''Pending'' then Q () s
      else case lib_now (Lib r) (st_world s) of (t, w) \<Rightarrow>
        Q () (s\<lparr>st_world := w, st_status := (st_status s)
          \<lparr>Status_Status := status, Status_Reason := reason, Status_LastUpdate := t\<rparr>\<rparr>))"
  by (simp add: setStatus_def wp_simps split: prod.splits)

lemma wp_statusUpdate [wp_simps]:
  "wp (statusUpdate r cr) Q s =
     Q () (s\<lparr>st_world := cl_update_status (Client r) (cr\<lparr>Status := st_status s\<rparr>) (st_world s),
             st_events := st_events s @ [StatusEv (Namespace cr) (Name cr) (st_status s)]\<rparr>)"
  by (simp add: statusUpdate_def wp_simps)

lemma wp_updateStatus [wp_simps]:
  "wp (updateStatus r cr status reason) Q s = wp (setStatus r status reason) (\<lambda>_. wp (statusUpdate r cr) Q) s"
  by (simp add: updateStatus_def wp_bind)

text \<open>
  A report of \<^verbatim>\<open>Error\<close> or \<^verbatim>\<open>Pending\<close> raises the severity to the maximum and touches neither the URLs
  nor the history.
\<close>

lemma setStatus_severity:
  assumes "status = ''Error'' \<or> status = ''Pending''"
  shows "wp (setStatus r status reason)
    (\<lambda>_ t. status_severity t = max (status_severity s) (severity_of status)
         \<and> Status_PublicUrl (st_status t) = Status_PublicUrl (st_status s)
         \<and> Status_KeycloakUrl (st_status t) = Status_KeycloakUrl (st_status s)
         \<and> st_events t = st_events s) s"
  using assms
  by (auto simp: wp_simps severity_of_def max_def less_eq_severity_def split: prod.splits)

lemma updateStatus_event:
  "wp (updateStatus r cr status reason)
     (\<lambda>_ t. \<exists>status'. st_events t = st_events s @ [StatusEv (Namespace cr) (Name cr) status']
        \<and> st_status t = status') s"
  by (auto simp: wp_simps split: prod.splits)

context trace_language begin

lemma keeps_setStatus: "state_io_rel (emits L) (setStatus r status reason)"
  by (auto simp: state_io_rel_wp wp_simps intro: emits_silent split: prod.splits)

end

end
