(* ===== verification/Defaults.thy ===== *)
theory Defaults
  imports Api_Types
begin

text \<open>
  \<^verbatim>\<open>controllers/defaults.go\<close> and the small pure helpers of \<^verbatim>\<open>controllers/utils.go\<close>: the names, URLs
  and images that apply when the user leaves a field of the resource empty.
\<close>

section \<open>Helpers of utils.go\<close>

definition withDefault :: "string \<Rightarrow> string \<Rightarrow> string" where
  "withDefault custom def = (if custom = [] then def else custom)"

definition ifThenElse :: "bool \<Rightarrow> string \<Rightarrow> string \<Rightarrow> string" where
  "ifThenElse condition thn els = (if condition then thn else els)"

definition withDefaultInt :: "int32 \<Rightarrow> int32 \<Rightarrow> string" where
  "withDefaultInt custom def = (if custom = 0 then itoa (sint def) else itoa (sint custom))"

definition innerProtocol :: "RouteSpec \<Rightarrow> string" where
  "innerProtocol route =
     (if Route_Type route = ''http'' \<or> Route_Type route = ''edge'' then ''http://''
      else ''https://'')"

section \<open>defaults.go\<close>

definition dbDefaultHost :: "Horreum \<Rightarrow> string" where
  "dbDefaultHost cr = Name cr @ ''-db.'' @ Namespace cr @ ''.svc''"

definition dbURL :: "Horreum \<Rightarrow> DatabaseSpec \<Rightarrow> string \<Rightarrow> string" where
  "dbURL cr db defName =
     ''jdbc:postgresql://'' @ withDefault (Db_Host db) (dbDefaultHost cr) @
     '':'' @ withDefaultInt (Db_Port db) 5432 @ ''/'' @ withDefault (Db_Name db) defName"

definition dbAdminSecret :: "Horreum \<Rightarrow> string" where
  "dbAdminSecret cr = withDefault (Pg_AdminSecret (Postgres cr)) (Name cr @ ''-db-admin'')"

definition appUserSecret :: "Horreum \<Rightarrow> string" where
  "appUserSecret cr = withDefault (Db_Secret (Database cr)) (Name cr @ ''-app'')"

definition keycloakDbSecret :: "Horreum \<Rightarrow> string" where
  "keycloakDbSecret cr =
     withDefault (Db_Secret (Kc_Database (Keycloak cr))) (Name cr @ ''-keycloak-db'')"

definition keycloakAdminSecret :: "Horreum \<Rightarrow> string" where
  "keycloakAdminSecret cr =
     withDefault (Kc_AdminSecret (Keycloak cr)) (Name cr @ ''-keycloak-admin'')"

definition horreumAdminSecret :: "Horreum \<Rightarrow> string" where
  "horreumAdminSecret cr = withDefault (Spec_AdminSecret (Spec cr)) (Name cr @ ''-admin'')"

definition dbImage :: "Horreum \<Rightarrow> bool \<Rightarrow> string" where
  "dbImage cr useRedHatImage =
     withDefault (Pg_Image (Postgres cr))
       (ifThenElse useRedHatImage ''registry.redhat.io/rhel8/postgresql-12:latest''
          ''docker.io/library/postgres:14.4'')"

definition appImage :: "Horreum \<Rightarrow> string" where
  "appImage cr = withDefault (Spec_Image (Spec cr)) ''quay.io/hyperfoil/horreum:latest''"

definition keycloakInternalURL :: "Horreum \<Rightarrow> string" where
  "keycloakInternalURL cr =
     (if Ext_InternalUri (Kc_External (Keycloak cr)) \<noteq> []
      then Ext_InternalUri (Kc_External (Keycloak cr))
      else if Ext_PublicUri (Kc_External (Keycloak cr)) \<noteq> []
      then Ext_PublicUri (Kc_External (Keycloak cr))
      else ''https://'' @ Name cr @ ''-keycloak.'' @ Namespace cr @ ''.svc'')"

section \<open>Facts\<close>

lemma withDefault_simps [simp]:
  "withDefault [] d = d"
  "c \<noteq> [] \<Longrightarrow> withDefault c d = c"
  by (simp_all add: withDefault_def)

lemma withDefault_Cons [simp]: "withDefault (x # c) d = x # c"
  by (simp add: withDefault_def)

lemma withDefault_nonempty: "d \<noteq> [] \<Longrightarrow> withDefault c d \<noteq> []"
  by (simp add: withDefault_def)

end
