(* ===== verification/Utils.thy ===== *)
theory Utils
  imports Status Defaults
begin

text \<open>
  The rest of \<^verbatim>\<open>controllers/utils.go\<close>: generated credentials, environment variables that refer to
  secrets, the TLS settings and the route of an exposed service, and service ports and types.
\<close>

section \<open>Constants of the Kubernetes API\<close>

abbreviation "BasicAuthUsernameKey \<equiv> ''username''"
abbreviation "BasicAuthPasswordKey \<equiv> ''password''"
abbreviation "TLSCertKey \<equiv> ''tls.crt''"
abbreviation "TLSPrivateKeyKey \<equiv> ''tls.key''"
abbreviation "SecretTypeBasicAuth \<equiv> ''kubernetes.io/basic-auth''"
abbreviation "SecretTypeTLS \<equiv> ''kubernetes.io/tls''"
abbreviation "ServiceTypeClusterIP \<equiv> ''ClusterIP''"
abbreviation "ServiceTypeNodePort \<equiv> ''NodePort''"
abbreviation "ServiceTypeLoadBalancer \<equiv> ''LoadBalancer''"

section \<open>Credentials\<close>

definition password_chars :: string where
  "password_chars = ''ABCDEFGHIJKLMNOPQRSTUVWXYZabcdefghijklmnopqrstuvwxyz0123456789''"

text \<open>The loop that fills the buffer, one random character per position.\<close>

fun fillPassword :: "'w HorreumReconciler \<Rightarrow> nat \<Rightarrow> ('w st, string) state" where
  "fillPassword r 0 = State_Monad.return []"
| "fillPassword r (Suc n) = do {
     i \<leftarrow> rand_intn r (length password_chars);
     cs \<leftarrow> fillPassword r n;
     State_Monad.return (password_chars ! i # cs) }"

definition generatePassword :: "'w HorreumReconciler \<Rightarrow> ('w st, string) state" where
  "generatePassword r = do {
     t \<leftarrow> now r;
     _ \<leftarrow> effect (\<lambda>w. ((), lib_seed (Lib r) t w));
     fillPassword r 16 }"

definition newSecret ::
  "'w HorreumReconciler \<Rightarrow> Horreum \<Rightarrow> string \<Rightarrow> ('w st, secret) state" where
  "newSecret r cr name = do {
     password \<leftarrow> generatePassword r;
     State_Monad.return (zero_secret
       \<lparr>sec_meta := zero_meta\<lparr>om_name := name, om_namespace := Namespace cr\<rparr>,
        sec_type := SecretTypeBasicAuth,
        sec_string_data := fmap_of_list
          [(BasicAuthUsernameKey, name), (BasicAuthPasswordKey, password)]\<rparr>) }"

definition secretEnv :: "string \<Rightarrow> string \<Rightarrow> string \<Rightarrow> env_var" where
  "secretEnv name secret key =
     \<lparr>ev_name = name, ev_value = [],
      ev_from = Some \<lparr>sks_name = secret, sks_key = key, sks_optional = Some False\<rparr>\<rparr>"

section \<open>Routes\<close>

text \<open>\<^verbatim>\<open>string(secret.Data[key])\<close>: the empty string if the key is missing.\<close>

definition data_at :: "(string, string) fmap \<Rightarrow> string \<Rightarrow> string" where
  "data_at m k = (case fmlookup m k of None \<Rightarrow> [] | Some b \<Rightarrow> b)"

definition tls ::
  "'w HorreumReconciler \<Rightarrow> Horreum \<Rightarrow> RouteSpec \<Rightarrow> ('w st, tls_config option res) state" where
  "tls r cr route =
     (let type = Route_Type (Spec_Route (Spec cr)); tlsName = Route_TLS (Spec_Route (Spec cr)) in
      if type = ''http'' then ok None
      else if type = ''passthrough'' then
        ok (Some \<lparr>tls_termination = ''passthrough'', tls_insecure = ''Redirect'',
                  tls_certificate = [], tls_key = [], tls_ca = [], tls_destination_ca = []\<rparr>)
      else do {
        found \<leftarrow> (if tlsName \<noteq> [] then get_secret r (Namespace cr) tlsName
                 else State_Monad.return (Inr zero_secret));
        (case found of
           Inl e \<Rightarrow> do {
             _ \<leftarrow> updateStatus r cr ''Error'' (''Cannot find secret '' @ Route_TLS route);
             fail e }
         | Inr tlsSecret \<Rightarrow>
             let cacert = (case fmlookup (sec_data tlsSecret) ''ca.crt'' of
                             Some bytes \<Rightarrow> bytes | None \<Rightarrow> []);
                 config = (\<lambda>termination. ok (Some
                   \<lparr>tls_termination = termination, tls_insecure = ''Redirect'',
                    tls_certificate = data_at (sec_data tlsSecret) TLSCertKey,
                    tls_key = data_at (sec_data tlsSecret) TLSPrivateKeyKey,
                    tls_ca = cacert, tls_destination_ca = []\<rparr>))
             in if type = ''edge'' then config ''edge''
                else if type = ''reencrypt'' \<or> type = [] then config ''reencrypt''
                else fail (NewError (''Invalid route type: '' @ type))) })"

definition route ::
  "RouteSpec \<Rightarrow> string \<Rightarrow> Horreum \<Rightarrow> 'w HorreumReconciler \<Rightarrow> ('w st, route option res) state"
where
  "route rs sfx cr r =
     (if \<not> RoutesAvailable r then ok None
      else let subdomain = (if Route_Host rs = [] then Name cr @ sfx else []) in
        and_then (tls r cr rs) (\<lambda>tls.
          ok (Some
            \<lparr>rt_meta = zero_meta\<lparr>om_name := Name cr @ sfx, om_namespace := Namespace cr\<rparr>,
             rt_host = Route_Host rs, rt_subdomain = subdomain,
             rt_to_kind = ''Service'', rt_to_name = Name cr @ sfx,
             rt_tls = tls, rt_ingress = []\<rparr>)))"

section \<open>Services\<close>

definition servicePort :: "RouteSpec \<Rightarrow> int32 \<Rightarrow> int32 \<Rightarrow> service_port" where
  "servicePort rs httpPort httpsPort =
     (if Route_Type rs = ''http'' \<or> Route_Type rs = ''edge''
      then \<lparr>sp_name = ''http'', sp_port = 80, sp_target = httpPort, sp_node = 0\<rparr>
      else \<lparr>sp_name = ''https'', sp_port = 443, sp_target = httpsPort, sp_node = 0\<rparr>)"

definition serviceType :: "string \<Rightarrow> 'w HorreumReconciler \<Rightarrow> string" where
  "serviceType svcType r =
     (if svcType \<noteq> [] then svcType
      else if RoutesAvailable r then ServiceTypeClusterIP
      else ServiceTypeNodePort)"

section \<open>Facts about credentials\<close>

lemma length_password_chars [simp]: "length password_chars = 62"
  by (simp add: password_chars_def)

lemma wp_fillPassword:
  "wp (fillPassword r n)
     (\<lambda>p t. length p = n \<and> set p \<subseteq> set password_chars
          \<and> st_status t = st_status s \<and> st_events t = st_events s) s"
proof (induction n arbitrary: s)
  case 0
  show ?case by (simp add: wp_simps)
next
  case (Suc n)
  show ?case
    by (auto simp: wp_simps split: prod.splits intro!: wp_mono [OF Suc.IH])
qed

lemma wp_generatePassword:
  "wp (generatePassword r)
     (\<lambda>p t. length p = 16 \<and> set p \<subseteq> set password_chars
          \<and> st_status t = st_status s \<and> st_events t = st_events s) s"
  by (auto simp: generatePassword_def wp_simps split: prod.splits
      intro!: wp_mono [OF wp_fillPassword])

lemma wp_newSecret:
  "wp (newSecret r cr name)
     (\<lambda>sec t. obj_key (SecretObj sec) = (KSecret, Namespace cr, name)
          \<and> sec_data sec = fmempty
          \<and> (\<exists>p. length p = 16 \<and> set p \<subseteq> set password_chars
               \<and> sec_string_data sec = fmap_of_list [(BasicAuthUsernameKey, name), (BasicAuthPasswordKey, p)])
          \<and> st_status t = st_status s \<and> st_events t = st_events s) s"
  by (auto simp: newSecret_def wp_simps zero_secret_def obj_key_def obj_namespace_def obj_name_def
      intro!: wp_mono [OF wp_generatePassword])

text \<open>\<^verbatim>\<open>fillPassword\<close> never changes anything but the world.\<close>

context trace_language begin

lemma keeps_newSecret: "state_io_rel (emits L) (newSecret r cr name)"
  unfolding state_io_rel_wp
  by (auto intro!: wp_mono [OF wp_newSecret] emits_silent)

lemma keeps_generatePassword: "state_io_rel (emits L) (generatePassword r)"
  unfolding state_io_rel_wp
  by (auto intro!: wp_mono [OF wp_generatePassword] emits_silent)

end

end
