(* ===== verification/Postgres.thy ===== *)
theory Postgres
  imports Utils
begin

text \<open>
  \<^verbatim>\<open>controllers/postgres.go\<close>: the config map with the database's init scripts, the database pod and
  its service. The scripts are the literal text of the source.
\<close>

section \<open>Init scripts\<close>

definition initKeycloakScript :: "string \<Rightarrow> string" where
  \<open>initKeycloakScript keycloakDbName =
     ''
				if psql -t -c "SELECT 1 FROM pg_roles WHERE rolname = '$KEYCLOAK_USER';" | grep -q 1; then
					echo "Database role $KEYCLOAK_USER already exists.";
				else
					psql -c "CREATE ROLE '' @ [CHR 0x5C] @ ''"$KEYCLOAK_USER'' @ [CHR 0x5C] @ ''" noinherit login password '$KEYCLOAK_PASSWORD';";
				fi
				if psql -t -c "SELECT 1 FROM pg_database WHERE datname = '' @ [CHR 0x27] @ keycloakDbName @
     [CHR 0x27] @ '';" | grep -q 1; then
					echo "Database "'' @ keycloakDbName @
     ''" already exists.";
				else
					psql -c "CREATE DATABASE '' @ keycloakDbName @
     '' WITH OWNER = '$KEYCLOAK_USER';";
				fi
			''\<close>

definition initAppScript :: string where
  \<open>initAppScript =
     ''
			    # Adding extension pgcrypto requires superuser priviledges
				psql -c 'ALTER ROLE "'$POSTGRESQL_USER'" WITH SUPERUSER';
				if psql -t -c "SELECT 1 FROM pg_roles WHERE rolname = '$APP_USER';" | grep -q 1; then
					echo "Database role $APP_USER already exists.";
				else
					psql -c "CREATE ROLE '' @ [CHR 0x5C] @ ''"$APP_USER'' @ [CHR 0x5C] @ ''" noinherit login password '$APP_PASSWORD';"
				fi
			''\<close>

definition postgresConfigMap :: "Horreum \<Rightarrow> config_map" where
  "postgresConfigMap cr =
     (let keycloakDbName = withDefault (Db_Name (Kc_Database (Keycloak cr))) ''keycloak'' in
      \<lparr>cm_meta = zero_meta\<lparr>om_name := Name cr @ ''-postgresql-start'',
         om_namespace := Namespace cr, om_labels := fmap_of_list [(''app'', Name cr)]\<rparr>,
       cm_data = fmap_of_list
         [(''init_keycloak.sh'', initKeycloakScript keycloakDbName),
          (''init_app.sh'', initAppScript)],
       cm_binary = fmempty\<rparr>)"

section \<open>The pod\<close>

definition isPostgresImage :: "string \<Rightarrow> bool" where
  "isPostgresImage img \<longleftrightarrow>
     has_prefix img ''docker.io/library/postgres'' \<or> has_prefix img ''postgres''"

definition postgresEnv :: "Horreum \<Rightarrow> string \<Rightarrow> env_var list" where
  "postgresEnv cr img =
     [secretEnv ''KEYCLOAK_USER'' (keycloakDbSecret cr) BasicAuthUsernameKey,
      secretEnv ''KEYCLOAK_PASSWORD'' (keycloakDbSecret cr) BasicAuthPasswordKey,
      secretEnv ''APP_USER'' (appUserSecret cr) BasicAuthUsernameKey,
      secretEnv ''APP_PASSWORD'' (appUserSecret cr) BasicAuthPasswordKey,
      secretEnv ''APP_DB_SECRET'' (appUserSecret cr) ''dbsecret''] @
     (if isPostgresImage img then
        [env_value ''POSTGRES_DB'' (withDefault (Db_Name (Database cr)) ''horreum''),
         env_value ''PGDATABASE'' (withDefault (Db_Name (Database cr)) ''horreum''),
         env_value ''PGDATA'' ''/var/lib/pgsql/data'',
         secretEnv ''PGUSER'' (dbAdminSecret cr) BasicAuthUsernameKey,
         secretEnv ''POSTGRES_USER'' (dbAdminSecret cr) BasicAuthUsernameKey,
         secretEnv ''POSTGRESQL_USER'' (dbAdminSecret cr) BasicAuthUsernameKey,
         secretEnv ''POSTGRES_PASSWORD'' (dbAdminSecret cr) BasicAuthPasswordKey]
      else
        [env_value ''POSTGRESQL_DATABASE'' (withDefault (Db_Name (Database cr)) ''horreum''),
         secretEnv ''POSTGRESQL_USER'' (dbAdminSecret cr) BasicAuthUsernameKey,
         secretEnv ''POSTGRESQL_PASSWORD'' (dbAdminSecret cr) BasicAuthPasswordKey])"

definition postgresUserId :: "Horreum \<Rightarrow> string \<Rightarrow> int64" where
  "postgresUserId cr img =
     (case Pg_User (Postgres cr) of
        Some user \<Rightarrow> user
      | None \<Rightarrow> (if isPostgresImage img then 999 else 26))"

definition postgresPod :: "Horreum \<Rightarrow> 'w HorreumReconciler \<Rightarrow> pod" where
  "postgresPod cr r =
     (let labels = fmap_of_list [(''app'', Name cr), (''service'', ''db'')];
          claim = Pg_PersistentVolumeClaim (Postgres cr);
          dbVolumeSrc = (if claim \<noteq> [] then ClaimVolume claim else EmptyDir);
          img = dbImage cr (UseRedHatImages r);
          envs = postgresEnv cr img;
          userId = postgresUserId cr img;
          initDir = (if isPostgresImage img then ''/docker-entrypoint-initdb.d/''
                     else ''/opt/app-root/src/postgresql-start'');
          initContainers =
            (if \<not> UseRedHatImages r then
               [zero_container\<lparr>c_name := ''init'', c_image := img,
                  c_command := [''chown'', itoa (sint userId), ''/var/lib/pgsql/data''],
                  c_security := Some \<lparr>sc_run_as_user = Some 0\<rparr>,
                  c_mounts := [\<lparr>vm_name = ''db-volume'', vm_path = ''/var/lib/pgsql/data'',
                                vm_sub_path = []\<rparr>]\<rparr>]
             else [])
      in zero_pod\<lparr>
        p_meta := zero_meta\<lparr>om_name := Name cr @ ''-db'', om_namespace := Namespace cr,
          om_labels := labels\<rparr>,
        p_spec := zero_pod_spec\<lparr>
          ps_init := initContainers,
          ps_security := Some \<lparr>psc_fs_group = Some userId\<rparr>,
          ps_containers :=
            [zero_container\<lparr>c_name := ''postgres'', c_image := img, c_env := envs,
               c_ports := [\<lparr>cp_name = ''postgres'', cp_port = 5432\<rparr>],
               c_security := Some \<lparr>sc_run_as_user = Some userId\<rparr>,
               c_mounts :=
                 [\<lparr>vm_name = ''db-volume'', vm_path = ''/var/lib/pgsql/data'', vm_sub_path = []\<rparr>,
                  \<lparr>vm_name = ''postgresql-start'', vm_path = initDir, vm_sub_path = []\<rparr>]\<rparr>],
          ps_volumes :=
            [\<lparr>vol_name = ''db-volume'', vol_source = dbVolumeSrc\<rparr>,
             \<lparr>vol_name = ''postgresql-start'',
              vol_source = ConfigMapVolume (Name cr @ ''-postgresql-start'')\<rparr>]\<rparr>\<rparr>)"

section \<open>The service\<close>

definition postgresService :: "Horreum \<Rightarrow> service" where
  "postgresService cr =
     \<lparr>svc_meta = zero_meta\<lparr>om_name := Name cr @ ''-db'', om_namespace := Namespace cr,
        om_annotations := fmap_of_list
          [(''service.beta.openshift.io/serving-cert-secret-name'', Name cr @ ''-postgres'')]\<rparr>,
      svc_type = ServiceTypeClusterIP,
      svc_ports = [\<lparr>sp_name = ''postgres'', sp_port = 5432, sp_target = 5432, sp_node = 0\<rparr>],
      svc_selector = fmap_of_list [(''app'', Name cr), (''service'', ''db'')],
      svc_ingress = []\<rparr>"

end
