(* ===== verification/Compare.thy ===== *)
theory Compare
  imports Utils
begin

text \<open>
  The \<^verbatim>\<open>compare*\<close> and \<^verbatim>\<open>check*\<close> functions of \<^verbatim>\<open>horreum_controller.go\<close>: whether an existing object
  still matches the desired one, and whether it is healthy. They take \<^verbatim>\<open>interface{}\<close> values, so a type
  assertion is a case analysis on the kind of object. Logging is left out.
\<close>

section \<open>The code\<close>

type_synonym compareFunc = "obj \<Rightarrow> obj \<Rightarrow> bool"
type_synonym checkFunc = "obj \<Rightarrow> bool \<times> string \<times> string"

definition nocompare :: compareFunc where
  "nocompare i1 i2 = True"

definition nocheck :: checkFunc where
  "nocheck i = (True, [], [])"

definition comparePods :: "'w HorreumReconciler \<Rightarrow> compareFunc" where
  "comparePods r i1 i2 =
     (case (i1, i2) of
        (PodObj p1, PodObj p2) \<Rightarrow> lib_deep_derivative (Lib r) (p_spec p1) (p_spec p2)
      | _ \<Rightarrow> False)"

text \<open>
  The loop over the ports reads \<^verbatim>\<open>s2.Spec.Ports[i]\<close>; it runs only when both lists have the same
  length, so the last equation is never used.
\<close>

fun samePorts :: "service_port list \<Rightarrow> service_port list \<Rightarrow> bool" where
  "samePorts [] _ = True"
| "samePorts (p1 # ps1) (p2 # ps2) = (if sp_port p1 \<noteq> sp_port p2 then False else samePorts ps1 ps2)"
| "samePorts (_ # _) [] = False"

definition compareService :: compareFunc where
  "compareService i1 i2 =
     (case (i1, i2) of
        (ServiceObj s1, ServiceObj s2) \<Rightarrow>
          (if svc_type s1 \<noteq> svc_type s2 then False
           else if length (svc_ports s1) \<noteq> length (svc_ports s2) then False
           else samePorts (svc_ports s1) (svc_ports s2))
      | _ \<Rightarrow> False)"

definition compareRoute :: compareFunc where
  "compareRoute i1 i2 =
     (case (i1, i2) of
        (RouteObj r1, RouteObj r2) \<Rightarrow>
          (if rt_host r1 = [] then rt_subdomain r1 = rt_subdomain r2
           else if rt_host r1 \<noteq> rt_host r2 then False
           else rt_tls r1 = rt_tls r2)
      | _ \<Rightarrow> False)"

text \<open>The loop over the keys of a map stops at the first one that is missing or differs.\<close>

definition compareConfigMap :: compareFunc where
  "compareConfigMap i1 i2 =
     (case (i1, i2) of
        (ConfigMapObj cm1, ConfigMapObj cm2) \<Rightarrow>
          (if fcard (fmdom (cm_data cm1)) \<noteq> fcard (fmdom (cm_data cm2)) then False
           else fmpred (\<lambda>key val1. fmlookup (cm_data cm2) key = Some val1) (cm_data cm1))
      | _ \<Rightarrow> False)"

fun firstMissing :: "(string, string) fmap \<Rightarrow> string list \<Rightarrow> string option" where
  "firstMissing m [] = None"
| "firstMissing m (key # keys) = (if fmlookup m key = None then Some key else firstMissing m keys)"

definition checkSecret :: "string list \<Rightarrow> checkFunc" where
  "checkSecret keys i =
     (case i of
        SecretObj secret \<Rightarrow>
          (case firstMissing (sec_data secret) keys of
             Some key \<Rightarrow> (False, ''Error'', '' missing data '' @ key)
           | None \<Rightarrow> (True, [], []))
      | _ \<Rightarrow> (False, ''Error'', '' is not a secret''))"

fun scanStatuses :: "container_status list \<Rightarrow> (bool \<times> string \<times> string) option" where
  "scanStatuses [] = None"
| "scanStatuses (cs # rest) =
     (case cs_waiting cs of
        Some reason \<Rightarrow>
          (if reason = ''ImagePullBackOff'' \<or> reason = ''ErrImagePull''
           then Some (False, ''Error'', '' cannot pull container image'')
           else scanStatuses rest)
      | None \<Rightarrow>
          (if cs_terminated cs then Some (False, ''Pending'', '' has terminated container'')
           else scanStatuses rest))"

definition checkPod :: checkFunc where
  "checkPod i =
     (case i of
        PodObj pod \<Rightarrow>
          (case scanStatuses (p_statuses pod) of
             Some verdict \<Rightarrow> verdict
           | None \<Rightarrow>
               (if list_ex (\<lambda>c. cond_type c = ''Ready'' \<and> cond_status c = ''True'') (p_conditions pod)
                then (True, [], []) else (False, ''Pending'', '' is not ready'')))
      | _ \<Rightarrow> (False, ''Error'', '' is not a pod''))"

fun scanConditions :: "condition list \<Rightarrow> (bool \<times> string \<times> string) option" where
  "scanConditions [] = None"
| "scanConditions (c # cs) =
     (if cond_type c = ''Admitted''
      then Some (if cond_status c = ''True'' then (True, [], [])
                 else (False, ''Error'', '' was not admitted''))
      else scanConditions cs)"

fun scanIngress :: "route_ingress list \<Rightarrow> bool \<times> string \<times> string" where
  "scanIngress [] = (False, ''Pending'', '' is in unknown state'')"
| "scanIngress (ri # ris) =
     (case scanConditions (ri_conditions ri) of Some verdict \<Rightarrow> verdict | None \<Rightarrow> scanIngress ris)"

definition checkRoute :: checkFunc where
  "checkRoute i =
     (case i of RouteObj rt \<Rightarrow> scanIngress (rt_ingress rt)
      | _ \<Rightarrow> (False, ''Error'', '' is not a route''))"

section \<open>The contract of a resource\<close>

text \<open>
  What \<^verbatim>\<open>ensureSame\<close> relies on: a failed check reports \<^verbatim>\<open>Error\<close> or \<^verbatim>\<open>Pending\<close>, and a comparison does
  not look at owner references, which are set on the desired object just before.
\<close>

locale resource_contract =
  fixes compare :: compareFunc and check :: checkFunc
  assumes check_status: "check ob = (False, status, reason) \<Longrightarrow> status = ''Error'' \<or> status = ''Pending''"
    and compare_owners: "compare (set_owners os ob) out = compare ob out"
begin

lemma check_severity: "check ob = (False, status, reason) \<Longrightarrow> severity_of status \<noteq> SReady"
  using check_status by fastforce

end

lemma scanStatuses_status:
  "scanStatuses css = Some (b, status, reason) \<Longrightarrow> \<not> b \<and> (status = ''Error'' \<or> status = ''Pending'')"
  by (induction css) (auto split: option.splits if_splits)

lemma checkPod_status:
  "checkPod ob = (False, status, reason) \<Longrightarrow> status = ''Error'' \<or> status = ''Pending''"
  by (auto simp: checkPod_def split: obj.splits option.splits if_splits dest: scanStatuses_status)

lemma checkSecret_status:
  "checkSecret keys ob = (False, status, reason) \<Longrightarrow> status = ''Error'' \<or> status = ''Pending''"
  by (auto simp: checkSecret_def split: obj.splits option.splits)

lemma scanConditions_status:
  "scanConditions cs = Some (False, status, reason) \<Longrightarrow> status = ''Error'' \<or> status = ''Pending''"
  by (induction cs) (auto split: if_splits)

lemma scanIngress_status:
  "scanIngress ris = (False, status, reason) \<Longrightarrow> status = ''Error'' \<or> status = ''Pending''"
  by (induction ris) (auto split: option.splits dest: scanConditions_status)

lemma checkRoute_status:
  "checkRoute ob = (False, status, reason) \<Longrightarrow> status = ''Error'' \<or> status = ''Pending''"
  by (auto simp: checkRoute_def split: obj.splits dest: scanIngress_status)

lemma comparePods_owners: "comparePods r (set_owners os ob) out = comparePods r ob out"
  by (cases ob; cases out) (simp_all add: comparePods_def)

lemma compareService_owners: "compareService (set_owners os ob) out = compareService ob out"
  by (cases ob; cases out) (simp_all add: compareService_def)

lemma compareRoute_owners: "compareRoute (set_owners os ob) out = compareRoute ob out"
  by (cases ob; cases out) (simp_all add: compareRoute_def)

lemma compareConfigMap_owners: "compareConfigMap (set_owners os ob) out = compareConfigMap ob out"
  by (cases ob; cases out) (simp_all add: compareConfigMap_def)

interpretation secrets: resource_contract nocompare "checkSecret keys" for keys
  by unfold_locales (auto simp: nocompare_def dest: checkSecret_status)

interpretation kept: resource_contract nocompare nocheck
  by unfold_locales (auto simp: nocompare_def nocheck_def)

interpretation config_maps: resource_contract compareConfigMap nocheck
  by unfold_locales (auto simp: nocheck_def compareConfigMap_owners)

interpretation services: resource_contract compareService nocheck
  by unfold_locales (auto simp: nocheck_def compareService_owners)

interpretation routes: resource_contract compareRoute checkRoute
  by unfold_locales (auto simp: compareRoute_owners dest: checkRoute_status)

interpretation pods: resource_contract "comparePods r" checkPod for r
  by unfold_locales (auto simp: comparePods_owners dest: checkPod_status)

section \<open>What the functions decide\<close>

lemma samePorts_iff:
  "length ps1 = length ps2 \<Longrightarrow> samePorts ps1 ps2 \<longleftrightarrow> map sp_port ps1 = map sp_port ps2"
  by (induction ps1 ps2 rule: samePorts.induct) auto

lemma firstMissing_None: "firstMissing m keys = None \<longleftrightarrow> set keys \<subseteq> fset (fmdom m)"
  by (induction keys) (auto simp: fmdom_notD fmdomI split: if_splits)

lemma firstMissing_find: "firstMissing m keys = find (\<lambda>key. fmlookup m key = None) keys"
  by (induction keys) auto

text \<open>
  C32: an existing service is kept exactly if it has the desired type and the desired list of
  ports; node ports, selectors and annotations are not compared.
\<close>

theorem compareService_iff:
  "compareService (ServiceObj s1) (ServiceObj s2) \<longleftrightarrow>
     svc_type s1 = svc_type s2 \<and> map sp_port (svc_ports s1) = map sp_port (svc_ports s2)"
  by (auto simp: compareService_def samePorts_iff dest: map_eq_imp_length_eq)

text \<open>
  The size test and the loop over one of the maps decide equality: an existing config map
  is kept exactly if its string data are the desired ones.
\<close>

lemma compareConfigMap_iff:
  "compareConfigMap (ConfigMapObj cm1) (ConfigMapObj cm2) \<longleftrightarrow> cm_data cm1 = cm_data cm2"
  by (auto simp: compareConfigMap_def fmpred_iff intro: fmap_eq_if_subset_card)

text \<open>The two container states that decide at once: an image that cannot be pulled, and an end without a wait.\<close>

definition pull_failed :: "container_status \<Rightarrow> bool" where
  "pull_failed cs \<longleftrightarrow> cs_waiting cs \<in> {Some ''ImagePullBackOff'', Some ''ErrImagePull''}"

definition halted :: "container_status \<Rightarrow> bool" where
  "halted cs \<longleftrightarrow> cs_waiting cs = None \<and> cs_terminated cs"

lemma scanStatuses_find:
  "scanStatuses css = map_option (\<lambda>cs. if pull_failed cs then (False, ''Error'', '' cannot pull container image'')
       else (False, ''Pending'', '' has terminated container'')) (find (\<lambda>cs. pull_failed cs \<or> halted cs) css)"
  by (induction css) (auto simp: pull_failed_def halted_def split: option.splits)

text \<open>
  C33: the verdict on a pod is that of the first container, in the order of the statuses, whose image cannot be
  pulled or that has terminated and does not wait: an \<^verbatim>\<open>Error\<close> that names the image in the first case,
  \<^verbatim>\<open>Pending\<close> with the terminated container in the second. Without such a container the pod is healthy if its
  \<^verbatim>\<open>Ready\<close> condition is true and \<^verbatim>\<open>Pending\<close> as not ready otherwise.
\<close>

theorem checkPod_spec:
  "checkPod (PodObj p) =
     (case find (\<lambda>cs. pull_failed cs \<or> halted cs) (p_statuses p) of
        Some cs \<Rightarrow>
          if pull_failed cs then (False, ''Error'', '' cannot pull container image'')
          else (False, ''Pending'', '' has terminated container'')
      | None \<Rightarrow>
          if list_ex (\<lambda>c. cond_type c = ''Ready'' \<and> cond_status c = ''True'') (p_conditions p) then (True, [], [])
          else (False, ''Pending'', '' is not ready''))"
  by (simp add: checkPod_def scanStatuses_find split: option.splits)

lemma scanConditions_find:
  "scanConditions cs = map_option (\<lambda>c. if cond_status c = ''True'' then (True, [], [])
       else (False, ''Error'', '' was not admitted'')) (find (\<lambda>c. cond_type c = ''Admitted'') cs)"
  by (induction cs) auto

lemma find_append: "find P (xs @ ys) = (case find P xs of None \<Rightarrow> find P ys | Some x \<Rightarrow> Some x)"
  by (induction xs) auto

text \<open>
  C34: the verdict on a route is that of the first \<^verbatim>\<open>Admitted\<close> condition over all its ingresses in
  order: healthy if it is true, an error otherwise, and pending if there is none.
\<close>

theorem checkRoute_spec:
  "checkRoute (RouteObj rt) =
     (case find (\<lambda>c. cond_type c = ''Admitted'') (concat (map ri_conditions (rt_ingress rt))) of
        None \<Rightarrow> (False, ''Pending'', '' is in unknown state'')
      | Some c \<Rightarrow> if cond_status c = ''True'' then (True, [], [])
                  else (False, ''Error'', '' was not admitted''))"
proof -
  have "scanIngress ris =
     (case find (\<lambda>c. cond_type c = ''Admitted'') (concat (map ri_conditions ris)) of
        None \<Rightarrow> (False, ''Pending'', '' is in unknown state'')
      | Some c \<Rightarrow> if cond_status c = ''True'' then (True, [], [])
                  else (False, ''Error'', '' was not admitted''))" for ris
    by (induction ris) (auto simp: scanConditions_find find_append split: option.splits)
  then show ?thesis by (simp add: checkRoute_def)
qed

end
