(* ===== verification/Ensure.thy ===== *)
theory Ensure
  imports Compare
begin

text \<open>
  \<^verbatim>\<open>ensureSame\<close>, \<^verbatim>\<open>ensureDeleted\<close> and the readers of services and routes of
  \<^verbatim>\<open>horreum_controller.go\<close>. A pointer to an object is an option: only \<^verbatim>\<open>keycloakPod\<close> can return nil,
  and any use of a nil pointer panics.
\<close>

section \<open>Creating, replacing and deleting objects\<close>

definition kind_and_name :: "obj \<Rightarrow> string" where
  "kind_and_name ob = kind_name (obj_kind ob) @ '' '' @ obj_name ob"

text \<open>
  The result of \<^verbatim>\<open>ensureSame\<close> is what the call leaves in the \<^verbatim>\<open>out\<close> parameter: the object that was
  found, or \<^const>\<open>None\<close> for the zero value when there was none.
\<close>

definition createObj ::
  "'w HorreumReconciler \<Rightarrow> Horreum \<Rightarrow> obj \<Rightarrow> obj option \<Rightarrow> ('w st, obj option res) state" where
  "createObj r cr ob out = do {
     err \<leftarrow> create r ob;
     (case err of
        Some e \<Rightarrow> do {
          updateStatus r cr ''Error'' (''Cannot create '' @ kind_and_name ob);
          fail e }
      | None \<Rightarrow> do {
          setStatus r ''Pending'' (''Creating '' @ kind_and_name ob);
          ok out }) }"

definition ensureSame ::
  "'w HorreumReconciler \<Rightarrow> Horreum \<Rightarrow> obj option \<Rightarrow> compareFunc \<Rightarrow> checkFunc
     \<Rightarrow> ('w st, obj option res) state" where
  "ensureSame r cr object compare check =
     (case object of
        None \<Rightarrow> panic ''nil pointer dereference''
      | Some ob0 \<Rightarrow>
     (case set_controller_reference r cr ob0 of
        Inl e \<Rightarrow> fail e
      | Inr ob \<Rightarrow> do {
          found \<leftarrow> get_obj r (obj_kind ob) (obj_namespace ob) (obj_name ob);
          (case found of
             Inl e \<Rightarrow>
               (if is_not_found e then createObj r cr ob None
                else do {
                  updateStatus r cr ''Error'' (''Cannot find '' @ kind_and_name ob);
                  fail e })
           | Inr out \<Rightarrow>
               (if compare ob out then
                  (case check out of (healthy, status, reason) \<Rightarrow>
                     (if \<not> healthy then do {
                        setStatus r status (kind_and_name ob @ '' '' @ reason);
                        ok (Some out) }
                      else ok (Some out)))
                else do {
                  err \<leftarrow> delete r out;
                  (case err of
                     Some e \<Rightarrow> do {
                       updateStatus r cr ''Error'' (''Cannot delete '' @ kind_and_name ob);
                       fail e }
                   | None \<Rightarrow> createObj r cr ob (Some out)) })) }))"

definition ensureDeleted ::
  "'w HorreumReconciler \<Rightarrow> Horreum \<Rightarrow> obj option \<Rightarrow> ('w st, unit res) state" where
  "ensureDeleted r instance' object =
     (case object of
        None \<Rightarrow> panic ''nil pointer dereference''
      | Some ob \<Rightarrow> do {
          found \<leftarrow> get_obj r (obj_kind ob) (obj_namespace ob) (obj_name ob);
          (case found of
             Inl e \<Rightarrow>
               (if is_not_found e then ok ()
                else do {
                  updateStatus r instance' ''Error'' (''Cannot find '' @ kind_and_name ob);
                  fail e })
           | Inr out \<Rightarrow> do {
               err \<leftarrow> delete r out;
               (case err of
                  Some e \<Rightarrow> do {
                    updateStatus r instance' ''Error'' (''Cannot delete '' @ kind_and_name ob);
                    fail e }
                | None \<Rightarrow> ok ()) }) })"

section \<open>Addresses of services and routes\<close>

definition isNodePort :: "'w HorreumReconciler \<Rightarrow> string \<Rightarrow> bool" where
  "isNodePort r svcType \<longleftrightarrow>
     svcType = ServiceTypeNodePort \<or> svcType = [] \<and> \<not> RoutesAvailable r"

text \<open>\<^verbatim>\<open>getService\<close> returns a pointer and an error, as in Go.\<close>

definition getService ::
  "'w HorreumReconciler \<Rightarrow> service \<Rightarrow> ('w st, service option \<times> go_error option) state" where
  "getService r service = do {
     found \<leftarrow> get_service r (om_namespace (svc_meta service)) (om_name (svc_meta service));
     (case found of
        Inl e \<Rightarrow> State_Monad.return (None, Some e)
      | Inr svc \<Rightarrow> State_Monad.return (Some svc, None)) }"

definition first_port :: "service \<Rightarrow> ('w st, service_port res) state" where
  "first_port svc =
     (case svc_ports svc of [] \<Rightarrow> panic ''index out of range'' | p # _ \<Rightarrow> ok p)"

definition getNodePort :: "'w HorreumReconciler \<Rightarrow> service \<Rightarrow> ('w st, int32 res) state" where
  "getNodePort r service = do {
     (svc, err) \<leftarrow> getService r service;
     (case err of
        None \<Rightarrow>
          (case svc of
             Some svc \<Rightarrow> and_then (first_port svc) (\<lambda>p. ok (sp_node p))
           | None \<Rightarrow> panic ''nil pointer dereference'')
      | Some e \<Rightarrow> fail e) }"

definition https_url :: "string \<Rightarrow> int32 \<Rightarrow> string" where
  "https_url host port = ''https://'' @ host @ '':'' @ itoa (sint port)"

text \<open>
  The address is read from the service only when \<^verbatim>\<open>getService\<close> reports an error, and then the
  pointer is nil; without an error the function returns the empty string.
\<close>

definition getLoadBalancer :: "'w HorreumReconciler \<Rightarrow> service \<Rightarrow> ('w st, string res) state" where
  "getLoadBalancer r service = do {
     (svc, err) \<leftarrow> getService r service;
     (if err \<noteq> None then
        (case svc of
           None \<Rightarrow> panic ''nil pointer dereference''
         | Some svc \<Rightarrow>
             (case svc_ingress svc of
                [] \<Rightarrow> ok []
              | ing # _ \<Rightarrow>
                  and_then (case lb_ports ing of
                              [] \<Rightarrow> and_then (first_port svc) (\<lambda>p. ok (sp_node p))
                            | port # _ \<Rightarrow> ok port)
                    (\<lambda>port.
                       if lb_hostname ing \<noteq> [] then ok (https_url (lb_hostname ing) port)
                       else if lb_ip ing \<noteq> [] then ok (https_url (lb_ip ing) port)
                       else ok [])))
      else ok []) }"

definition getRouteUrl :: "route \<Rightarrow> string" where
  "getRouteUrl rt =
     (case rt_ingress rt of
        [] \<Rightarrow> []
      | ing # _ \<Rightarrow>
          (if ri_host ing = [] then []
           else ifThenElse (rt_tls rt \<noteq> None) ''https'' ''http'' @ ''://'' @ ri_host ing))"

text \<open>The URL of the route that \<^verbatim>\<open>ensureSame\<close> left in \<^verbatim>\<open>foundRoute\<close>.\<close>

definition foundRouteUrl :: "obj option \<Rightarrow> string" where
  "foundRouteUrl out = (case out of Some (RouteObj rt) \<Rightarrow> getRouteUrl rt | _ \<Rightarrow> [])"

end
