(* ===== verification/Go_Url.thy ===== *)
theory Go_Url
  imports Go_Std
begin

text \<open>
  \<^verbatim>\<open>url.ParseRequestURI\<close> of Go 1.19 as far as the operator uses it: whether it returns an error,
  and the \<^verbatim>\<open>Host\<close> of the URL. \<^const>\<open>None\<close> is the error. Standard library, so no map entries.
\<close>

section \<open>Characters\<close>

definition code_of :: "char \<Rightarrow> nat" where
  "code_of c = of_char c"

definition is_alpha :: "char \<Rightarrow> bool" where
  "is_alpha c \<longleftrightarrow> (97 \<le> code_of c \<and> code_of c \<le> 122) \<or> (65 \<le> code_of c \<and> code_of c \<le> 90)"

definition is_alnum :: "char \<Rightarrow> bool" where
  "is_alnum c \<longleftrightarrow> is_alpha c \<or> is_digit c"

definition is_ctl :: "char \<Rightarrow> bool" where
  "is_ctl c \<longleftrightarrow> code_of c < 32 \<or> code_of c = 127"

definition unhex :: "char \<Rightarrow> nat option" where
  "unhex c =
     (if is_digit c then Some (code_of c - 48)
      else if 97 \<le> code_of c \<and> code_of c \<le> 102 then Some (code_of c - 87)
      else if 65 \<le> code_of c \<and> code_of c \<le> 70 then Some (code_of c - 55)
      else None)"

text \<open>The ASCII characters a host may hold unescaped (\<^verbatim>\<open>!shouldEscape(c, encodeHost)\<close>).\<close>

definition host_char :: "char \<Rightarrow> bool" where
  "host_char c \<longleftrightarrow> is_alnum c \<or> c \<in> set ''!$&()*+,;=:[]<>-_.~'' \<or> c = CHR 0x27 \<or> c = CHR 0x22"

definition userinfo_char :: "char \<Rightarrow> bool" where
  "userinfo_char c \<longleftrightarrow> is_alnum c \<or> c \<in> set ''-._:~!$&()*+,;=%@'' \<or> c = CHR 0x27"

section \<open>Unescaping\<close>

text \<open>
  \<^verbatim>\<open>unescape\<close> in the modes the parser uses. A malformed \<^verbatim>\<open>%\<close> escape is an error in every mode; a
  host may escape non-ASCII bytes and the percent sign only.
\<close>

datatype escape_mode = EncodePath | EncodeUserPassword | EncodeHost | EncodeZone

fun unescape :: "escape_mode \<Rightarrow> string \<Rightarrow> string option" where
  "unescape mode [] = Some []"
| "unescape mode (c # s) =
     (if c = CHR ''%'' then
        (case s of
           a # b # rest \<Rightarrow>
             (case (unhex a, unhex b) of
                (Some x, Some y) \<Rightarrow>
                  (if mode = EncodeHost \<and> x < 8 \<and> \<not> (a = CHR ''2'' \<and> b = CHR ''5'') then None
                   else if mode = EncodeZone \<and> \<not> (a = CHR ''2'' \<and> b = CHR ''5'')
                           \<and> 16 * x + y \<noteq> 32 \<and> \<not> host_char (char_of (16 * x + y)) then None
                   else map_option (Cons (char_of (16 * x + y))) (unescape mode rest))
              | _ \<Rightarrow> None)
         | _ \<Rightarrow> None)
      else if (mode = EncodeHost \<or> mode = EncodeZone) \<and> code_of c < 128 \<and> \<not> host_char c then None
      else map_option (Cons c) (unescape mode s))"

section \<open>The parts of a URL\<close>

text \<open>
  \<^verbatim>\<open>getScheme\<close>: the text before the first colon if it is a scheme, and the rest. \<open>i\<close> says whether
  any character has been read.
\<close>

fun scan_scheme :: "string \<Rightarrow> string \<Rightarrow> string \<Rightarrow> (string \<times> string) option" where
  "scan_scheme raw acc [] = Some ([], raw)"
| "scan_scheme raw acc (c # s) =
     (if is_alpha c then scan_scheme raw (acc @ [c]) s
      else if is_digit c \<or> c = CHR ''+'' \<or> c = CHR ''-'' \<or> c = CHR ''.'' then
        (if acc = [] then Some ([], raw) else scan_scheme raw (acc @ [c]) s)
      else if c = CHR '':'' then
        (if acc = [] then None else Some (acc, s))
      else Some ([], raw))"

definition get_scheme :: "string \<Rightarrow> (string \<times> string) option" where
  "get_scheme raw = scan_scheme raw [] raw"

text \<open>The part before and the part after the last occurrence of a character.\<close>

definition split_last :: "char \<Rightarrow> string \<Rightarrow> (string \<times> string) option" where
  "split_last c s =
     (if c \<in> set s
      then Some (rev (tl (dropWhile (\<lambda>x. x \<noteq> c) (rev s))), rev (takeWhile (\<lambda>x. x \<noteq> c) (rev s)))
      else None)"

definition valid_optional_port :: "string \<Rightarrow> bool" where
  "valid_optional_port p \<longleftrightarrow>
     (case p of [] \<Rightarrow> True | c # ds \<Rightarrow> c = CHR '':'' \<and> list_all is_digit ds)"

text \<open>The position of the zone marker \<^verbatim>\<open>%25\<close> of an IPv6 literal: what is before it, and from it on.\<close>

fun split_zone :: "string \<Rightarrow> string \<Rightarrow> (string \<times> string) option" where
  "split_zone acc [] = None"
| "split_zone acc (c # s) =
     (if prefix ''%25'' (c # s) then Some (acc, c # s) else split_zone (acc @ [c]) s)"

definition parse_host :: "string \<Rightarrow> string option" where
  "parse_host host =
     (if prefix ''['' host then
        (case split_last (CHR '']'') host of
           None \<Rightarrow> None
         | Some (literal, colon_port) \<Rightarrow>
             (if \<not> valid_optional_port colon_port then None
              else (case split_zone [] literal of
                      Some (h1, h2) \<Rightarrow>
                        (case (unescape EncodeHost h1, unescape EncodeZone h2,
                               unescape EncodeHost ('']'' @ colon_port)) of
                           (Some a, Some b, Some c) \<Rightarrow> Some (a @ b @ c)
                         | _ \<Rightarrow> None)
                    | None \<Rightarrow> unescape EncodeHost host)))
      else
        (case split_last (CHR '':'') host of
           Some (_, port) \<Rightarrow>
             (if valid_optional_port ('':'' @ port) then unescape EncodeHost host else None)
         | None \<Rightarrow> unescape EncodeHost host))"

definition parse_authority :: "string \<Rightarrow> string option" where
  "parse_authority authority =
     (case split_last (CHR ''@'') authority of
        None \<Rightarrow> parse_host authority
      | Some (userinfo, rest) \<Rightarrow>
          (case parse_host rest of
             None \<Rightarrow> None
           | Some host \<Rightarrow>
               (if list_all userinfo_char userinfo \<and> unescape EncodeUserPassword userinfo \<noteq> None
                then Some host else None)))"

section \<open>ParseRequestURI\<close>

definition parse_request_uri :: "string \<Rightarrow> string option" where
  "parse_request_uri raw =
     (if list_ex is_ctl raw then None
      else if raw = [] then None
      else if raw = ''*'' then Some []
      else (case get_scheme raw of
         None \<Rightarrow> None
       | Some (scheme, after) \<Rightarrow>
           (let rest = takeWhile (\<lambda>c. c \<noteq> CHR ''?'') after in
            if \<not> prefix ''/'' rest then (if scheme \<noteq> [] then Some [] else None)
            else if scheme \<noteq> [] \<and> prefix ''//'' rest then
              (let authority = takeWhile (\<lambda>c. c \<noteq> CHR ''/'') (drop 2 rest);
                   path = dropWhile (\<lambda>c. c \<noteq> CHR ''/'') (drop 2 rest)
               in case parse_authority authority of
                    None \<Rightarrow> None
                  | Some host \<Rightarrow> (if unescape EncodePath path = None then None else Some host))
            else (if unescape EncodePath rest = None then None else Some []))))"

section \<open>Plain host names and ports\<close>

text \<open>A DNS name or an IPv4 address: letters, digits, dots and dashes.\<close>

definition dns_char :: "char \<Rightarrow> bool" where
  "dns_char c \<longleftrightarrow> is_alnum c \<or> c = CHR ''.'' \<or> c = CHR ''-''"

definition dns_name :: "string \<Rightarrow> bool" where
  "dns_name h \<longleftrightarrow> h \<noteq> [] \<and> list_all dns_char h"

lemmas char_class_defs = dns_char_def host_char_def is_alnum_def is_alpha_def is_digit_def
  is_ctl_def code_of_def

lemma dns_char_excludes:
  "\<not> dns_char (CHR ''@'')" "\<not> dns_char (CHR ''?'')" "\<not> dns_char (CHR ''/'')"
  "\<not> dns_char (CHR ''['')" "\<not> dns_char (CHR '':'')" "\<not> dns_char (CHR ''*'')"
  by (simp_all add: char_class_defs)

lemma dns_char_host: "dns_char c \<Longrightarrow> host_char c"
  by (auto simp: dns_char_def host_char_def)

lemma dns_char_not_ctl: "dns_char c \<Longrightarrow> \<not> is_ctl c"
  unfolding dns_char_def is_alnum_def is_alpha_def is_digit_def is_ctl_def code_of_def by auto

lemma is_digit_dns: "is_digit c \<Longrightarrow> dns_char c"
  by (simp add: dns_char_def is_alnum_def)

lemma unescape_host_chars:
  "\<forall>c \<in> set h. host_char c \<Longrightarrow> unescape EncodeHost h = Some h"
proof (induction h)
  case (Cons c h)
  have "c \<noteq> CHR ''%''"
    using Cons.prems
    by (auto simp: host_char_def is_alnum_def is_alpha_def is_digit_def code_of_def)
  with Cons show ?case by simp
qed simp

lemma takeWhile_neq_notin: "x \<notin> set s \<Longrightarrow> takeWhile (\<lambda>c. c \<noteq> x) s = s"
  by (induction s) auto

lemma dropWhile_neq_notin: "x \<notin> set s \<Longrightarrow> dropWhile (\<lambda>c. c \<noteq> x) s = []"
  by (induction s) auto

lemma split_last_snoc:
  assumes "c \<notin> set t"
  shows "split_last c (h @ c # t) = Some (h, t)"
proof -
  have "takeWhile (\<lambda>x. x \<noteq> c) (rev t @ c # rev h) = rev t"
    and "dropWhile (\<lambda>x. x \<noteq> c) (rev t @ c # rev h) = c # rev h"
    using takeWhile_neq_notin [of c "rev t"] dropWhile_neq_notin [of c "rev t"] assms
    by (simp_all add: takeWhile_tail dropWhile_append3 del: takeWhile_eq_all_conv dropWhile_eq_Nil_conv)
  then show ?thesis by (simp add: split_last_def)
qed

lemma dns_name_notin:
  assumes "dns_name h"
  shows "CHR ''@'' \<notin> set h" and "CHR ''?'' \<notin> set h" and "CHR ''/'' \<notin> set h"
    and "CHR ''['' \<notin> set h" and "CHR '':'' \<notin> set h" and "CHR ''*'' \<notin> set h"
  using assms dns_char_excludes unfolding dns_name_def list_all_iff by blast+

lemma digits_dns_name: "dns_name (nat_digits n)"
  using nat_digits_is_digit [of n] by (auto simp: dns_name_def list_all_iff is_digit_dns)

lemmas digits_notin = dns_name_notin [OF digits_dns_name]

lemma dns_name_chars:
  assumes "dns_name h" and "c \<in> set h"
  shows "host_char c" and "\<not> is_ctl c"
  using assms dns_char_host dns_char_not_ctl unfolding dns_name_def list_all_iff by blast+

text \<open>The URL of a service on a node port parses, and its host is the host with the port.\<close>

definition host_port :: "string \<Rightarrow> nat \<Rightarrow> string" where
  "host_port h p = h @ CHR '':'' # nat_digits p"

lemma host_port_notin:
  assumes "dns_name h"
  shows "CHR ''@'' \<notin> set (host_port h p)" and "CHR ''?'' \<notin> set (host_port h p)"
    and "CHR ''/'' \<notin> set (host_port h p)"
  using dns_name_notin [OF assms] by (simp_all add: host_port_def digits_notin)

lemma host_port_chars:
  assumes "dns_name h" and "c \<in> set (host_port h p)"
  shows "host_char c" and "\<not> is_ctl c"
proof -
  have "c \<in> set h \<or> c = CHR '':'' \<or> c \<in> set (nat_digits p)"
    using assms(2) by (auto simp: host_port_def)
  moreover have "host_char (CHR '':'')" and "\<not> is_ctl (CHR '':'')"
    by (simp_all add: host_char_def is_ctl_def code_of_def)
  ultimately show "host_char c" and "\<not> is_ctl c"
    using dns_name_chars [OF assms(1)] dns_name_chars [OF digits_dns_name] by blast+
qed

lemma parse_host_port:
  assumes h: "dns_name h"
  shows "parse_host (host_port h p) = Some (host_port h p)"
proof -
  have "split_last (CHR '':'') (host_port h p) = Some (h, nat_digits p)"
    by (simp add: host_port_def split_last_snoc digits_notin)
  moreover have "\<not> prefix ''['' (host_port h p)"
    using h dns_name_notin(4) [OF h] by (cases h) (simp_all add: dns_name_def host_port_def)
  moreover have "unescape EncodeHost (host_port h p) = Some (host_port h p)"
    using host_port_chars(1) [OF h] by (intro unescape_host_chars) blast
  ultimately show ?thesis
    using nat_digits_is_digit by (simp add: parse_host_def valid_optional_port_def list_all_iff)
qed

lemma parse_authority_host_port:
  assumes h: "dns_name h"
  shows "parse_authority (host_port h p) = Some (host_port h p)"
  using host_port_notin(1) [OF h] parse_host_port [OF h]
  by (simp add: parse_authority_def split_last_def)

lemma get_scheme_https: "get_scheme (''https:'' @ s) = Some (''https'', s)"
  by (simp add: get_scheme_def is_alpha_def is_digit_def code_of_def)

lemma parse_https_host_port:
  assumes h: "dns_name h"
  shows "parse_request_uri (''https://'' @ host_port h p) = Some (host_port h p)"
proof -
  have "\<not> list_ex is_ctl (host_port h p)"
    using host_port_chars(2) [OF h] by (auto simp: list_ex_iff)
  then have "\<not> list_ex is_ctl (''https://'' @ host_port h p)"
    by (simp add: is_ctl_def code_of_def)
  moreover have "get_scheme (''https://'' @ host_port h p) = Some (''https'', ''//'' @ host_port h p)"
    using get_scheme_https [of "''//'' @ host_port h p"] by simp
  ultimately show ?thesis
    using parse_authority_host_port [OF h, of p] host_port_notin [OF h, of p]
    by (simp add: parse_request_uri_def takeWhile_neq_notin dropWhile_neq_notin)
qed

lemma parse_authority_dns_name:
  assumes h: "dns_name h"
  shows "parse_authority h = Some h"
proof -
  have "split_last (CHR '':'') h = None" "split_last (CHR ''@'') h = None"
    using dns_name_notin(1,5) [OF h] by (simp_all add: split_last_def)
  moreover have "\<not> prefix ''['' h"
    using dns_name_notin(4) [OF h] by (cases h) simp_all
  moreover have "unescape EncodeHost h = Some h"
    using dns_name_chars(1) [OF h] by (intro unescape_host_chars) blast
  ultimately show ?thesis
    by (simp add: parse_authority_def parse_host_def)
qed

lemma get_scheme_http: "get_scheme (''http:'' @ s) = Some (''http'', s)"
  by (simp add: get_scheme_def is_alpha_def is_digit_def code_of_def)

lemma parse_scheme_host:
  assumes h: "dns_name h" and s: "scheme = ''https'' \<or> scheme = ''http''"
  shows "parse_request_uri (scheme @ ''://'' @ h) = Some h"
proof -
  have "\<not> list_ex is_ctl h"
    using dns_name_chars(2) [OF h] by (auto simp: list_ex_iff)
  then have "\<not> list_ex is_ctl (scheme @ ''://'' @ h)"
    using s by (auto simp: is_ctl_def code_of_def)
  moreover have "get_scheme (scheme @ ''://'' @ h) = Some (scheme, ''//'' @ h)"
    using get_scheme_https [of "''//'' @ h"] get_scheme_http [of "''//'' @ h"] s by auto
  ultimately show ?thesis
    using parse_authority_dns_name [OF h] dns_name_notin [OF h] s
    by (auto simp: parse_request_uri_def takeWhile_neq_notin dropWhile_neq_notin)
qed

text \<open>A host without a scheme is not a request URI.\<close>

lemma scan_scheme_dns_name: "list_all dns_char h \<Longrightarrow> scan_scheme raw acc h = Some ([], raw)"
  by (induction h arbitrary: acc) (auto simp: dns_char_def is_alnum_def)

lemma parse_no_scheme:
  assumes h: "dns_name h"
  shows "parse_request_uri h = None"
proof -
  have "get_scheme h = Some ([], h)"
    using h by (simp add: get_scheme_def scan_scheme_dns_name dns_name_def)
  moreover have "\<not> prefix ''/'' h" and "h \<noteq> ''*''"
    using dns_name_notin(3,6) [OF h] by (auto simp: prefix_def)
  ultimately show ?thesis
    using dns_name_notin(2) [OF h]
    by (simp add: parse_request_uri_def takeWhile_neq_notin)
qed

end
