(* ===== verification/Keycloak.thy ===== *)
theory Keycloak
  imports Ensure Go_Url
begin

text \<open>
  \<^verbatim>\<open>controllers/keycloak.go\<close>: the pod, the service and the route of the identity provider. The pod
  needs the host of the public URL; \<^verbatim>\<open>keycloakPod\<close> returns nil when the URL does not parse.
\<close>

section \<open>The pod\<close>

definition keycloakEnv :: "Horreum \<Rightarrow> string \<Rightarrow> env_var list" where
  "keycloakEnv cr publicHost =
     [secretEnv ''KEYCLOAK_ADMIN'' (keycloakAdminSecret cr) BasicAuthUsernameKey,
      secretEnv ''KEYCLOAK_ADMIN_PASSWORD'' (keycloakAdminSecret cr) BasicAuthPasswordKey,
      env_value ''DB_ADDR'' (withDefault (Db_Host (Kc_Database (Keycloak cr))) (dbDefaultHost cr)),
      env_value ''DB_PORT'' (withDefaultInt (Db_Port (Kc_Database (Keycloak cr))) 5432),
      env_value ''DB_DATABASE'' (withDefault (Db_Name (Kc_Database (Keycloak cr))) ''keycloak''),
      env_value ''KC_HTTP_ENABLED'' ''false'',
      env_value ''KC_HTTPS_PORT'' ''8443'',
      env_value ''KC_HTTPS_CERTIFICATE_FILE'' ''/etc/x509/https/tls.crt'',
      env_value ''KC_HTTPS_CERTIFICATE_KEY_FILE'' ''/etc/x509/https/tls.key'',
      env_value ''KC_HOSTNAME'' publicHost,
      env_value ''KC_PROXY'' ''passthrough'',
      secretEnv ''KC_DB_USERNAME'' (keycloakDbSecret cr) BasicAuthUsernameKey,
      secretEnv ''KC_DB_PASSWORD'' (keycloakDbSecret cr) BasicAuthPasswordKey,
      env_value ''KEYCLOAK_COMMAND'' ''start'']"

definition keycloakPod :: "Horreum \<Rightarrow> string \<Rightarrow> pod option" where
  "keycloakPod cr keycloakPublicUrl =
     (let secretName = (if Route_Type (Kc_Route (Keycloak cr)) = ''passthrough''
                        then Route_TLS (Kc_Route (Keycloak cr)) else Name cr @ ''-keycloak-certs'') in
      case parse_request_uri keycloakPublicUrl of
        None \<Rightarrow> None
      | Some publicHost \<Rightarrow>
          Some (zero_pod\<lparr>
            p_meta := zero_meta\<lparr>om_name := Name cr @ ''-keycloak'', om_namespace := Namespace cr,
              om_labels := fmap_of_list [(''app'', Name cr), (''service'', ''keycloak'')]\<rparr>,
            p_spec := zero_pod_spec\<lparr>
              ps_containers :=
                [zero_container\<lparr>c_name := ''keycloak'',
                   c_image := withDefault (Kc_Image (Keycloak cr))
                     ''quay.io/hyperfoil/horreum-keycloak:latest'',
                   c_env := keycloakEnv cr publicHost,
                   c_ports := [\<lparr>cp_name = ''https'', cp_port = 8443\<rparr>],
                   c_mounts := [\<lparr>vm_name = ''certs'', vm_path = ''/etc/x509/https'',
                                 vm_sub_path = []\<rparr>]\<rparr>],
              ps_volumes := [\<lparr>vol_name = ''certs'', vol_source = SecretVolume secretName\<rparr>]\<rparr>\<rparr>))"

section \<open>The service and the route\<close>

definition keycloakService :: "Horreum \<Rightarrow> 'w HorreumReconciler \<Rightarrow> service" where
  "keycloakService cr r =
     \<lparr>svc_meta = zero_meta\<lparr>om_name := Name cr @ ''-keycloak'', om_namespace := Namespace cr,
        om_annotations := fmap_of_list
          [(''service.beta.openshift.io/serving-cert-secret-name'', Name cr @ ''-keycloak-certs'')]\<rparr>,
      svc_type = serviceType (Kc_ServiceType (Keycloak cr)) r,
      svc_ports = [\<lparr>sp_name = ''https'', sp_port = 443, sp_target = 8443, sp_node = 0\<rparr>],
      svc_selector = fmap_of_list [(''app'', Name cr), (''service'', ''keycloak'')],
      svc_ingress = []\<rparr>"

definition keycloakRoute ::
  "Horreum \<Rightarrow> 'w HorreumReconciler \<Rightarrow> ('w st, route option res) state" where
  "keycloakRoute cr r =
     (let routeType = Route_Type (Kc_Route (Keycloak cr)) in
      if routeType \<noteq> ''passthrough'' \<and> routeType \<noteq> ''reencrypt'' \<and> routeType \<noteq> []
      then fail (NewError ''keycloak supports only TLS-encrypted routes'')
      else route (Kc_Route (Keycloak cr)) ''-keycloak'' cr r)"

end
