(* ===== verification/App.thy ===== *)
theory App
  imports Ensure
begin

text \<open>
  \<^verbatim>\<open>controllers/app.go\<close>: the pod, the service and the route of Horreum itself, and the config map
  with the Hyperfoil upload script (\<^verbatim>\<open>uploadConfig\<close> of \<^verbatim>\<open>horreum_controller.go\<close>).
\<close>

section \<open>The pod\<close>

definition usesCerts :: "string \<Rightarrow> bool" where
  "usesCerts routeType \<longleftrightarrow>
     routeType = ''passthrough'' \<or> routeType = ''reencrypt'' \<or> routeType = []"

definition appEnv :: "Horreum \<Rightarrow> string \<Rightarrow> string \<Rightarrow> env_var list" where
  "appEnv cr keycloakPublicUrl appPublicUrl =
     [env_value ''QUARKUS_DATASOURCE_JDBC_URL'' (dbURL cr (Database cr) ''horreum''),
      secretEnv ''QUARKUS_DATASOURCE_USERNAME'' (appUserSecret cr) BasicAuthUsernameKey,
      secretEnv ''QUARKUS_DATASOURCE_PASSWORD'' (appUserSecret cr) BasicAuthPasswordKey,
      env_value ''QUARKUS_DATASOURCE_MIGRATION_JDBC_URL'' (dbURL cr (Database cr) ''horreum''),
      secretEnv ''QUARKUS_DATASOURCE_MIGRATION_USERNAME'' (dbAdminSecret cr) BasicAuthUsernameKey,
      secretEnv ''QUARKUS_DATASOURCE_MIGRATION_PASSWORD'' (dbAdminSecret cr) BasicAuthPasswordKey,
      secretEnv ''HORREUM_DB_SECRET'' (appUserSecret cr) ''dbsecret'',
      env_value ''QUARKUS_OIDC_AUTH_SERVER_URL'' (keycloakInternalURL cr @ ''/realms/horreum''),
      env_value ''QUARKUS_OIDC_TOKEN_ISSUER'' (keycloakPublicUrl @ ''/realms/horreum''),
      env_value ''QUARKUS_OIDC_TLS_VERIFICATION'' ''none'',
      env_value ''HORREUM_URL'' appPublicUrl,
      env_value ''HORREUM_INTERNAL_URL''
        (innerProtocol (Spec_Route (Spec cr)) @ Name cr @ ''.'' @ Namespace cr @ ''.svc''),
      env_value ''HORREUM_KEYCLOAK_URL'' (keycloakPublicUrl @ ''/'')] @
     (case fmlookup (om_annotations (Meta cr)) ''java-options'' of
        Some javaOptions \<Rightarrow> [env_value ''JAVA_OPTIONS'' javaOptions]
      | None \<Rightarrow> []) @
     (if usesCerts (Route_Type (Spec_Route (Spec cr))) then
        [env_value ''QUARKUS_HTTP_SSL_CERTIFICATE_FILE'' (''/opt/certs/'' @ TLSCertKey),
         env_value ''QUARKUS_HTTP_SSL_CERTIFICATE_KEY_FILE'' (''/opt/certs/'' @ TLSPrivateKeyKey)]
      else [])"

definition appVolumes :: "Horreum \<Rightarrow> volume list" where
  "appVolumes cr =
     [\<lparr>vol_name = ''imports'', vol_source = EmptyDir\<rparr>,
      \<lparr>vol_name = ''service-ca'', vol_source = ConfigMapVolume ''service-ca.crt''\<rparr>] @
     (if usesCerts (Route_Type (Spec_Route (Spec cr))) then
        (let secretName = (if Route_Type (Spec_Route (Spec cr)) = ''passthrough''
                           then Route_TLS (Spec_Route (Spec cr)) else Name cr @ ''-app-certs'')
         in [\<lparr>vol_name = ''certs'', vol_source = SecretVolume secretName\<rparr>])
      else [])"

definition appMounts :: "Horreum \<Rightarrow> volume_mount list" where
  "appMounts cr =
     [\<lparr>vm_name = ''imports'', vm_path = ''/etc/horreum/imports'', vm_sub_path = []\<rparr>] @
     (if usesCerts (Route_Type (Spec_Route (Spec cr))) then
        [\<lparr>vm_name = ''certs'', vm_path = ''/opt/certs'', vm_sub_path = []\<rparr>,
         \<lparr>vm_name = ''service-ca'', vm_path = ''/etc/ssl/certs/service-ca.crt'',
          vm_sub_path = ''service-ca.crt''\<rparr>]
      else [])"

definition appCommand :: string where
  \<open>appCommand =
     ''
							keytool -noprompt -import -alias service-ca -file /etc/ssl/certs/service-ca.crt -cacerts -storepass changeit
							export QUARKUS_OIDC_CREDENTIALS_SECRET=$$(cat /etc/horreum/imports/clientsecret)
							/deployments/horreum.sh
						''\<close>

definition appPod :: "Horreum \<Rightarrow> string \<Rightarrow> string \<Rightarrow> pod" where
  "appPod cr keycloakPublicUrl appPublicUrl =
     (let routeType = Route_Type (Spec_Route (Spec cr));
          caCertArg = (if routeType = ''reencrypt'' \<or> routeType = []
                       then ''--cacert /etc/ssl/certs/service-ca.crt'' else [])
      in zero_pod\<lparr>
        p_meta := zero_meta\<lparr>om_name := Name cr @ ''-app'', om_namespace := Namespace cr,
          om_labels := fmap_of_list [(''app'', Name cr), (''service'', ''app'')]\<rparr>,
        p_spec := zero_pod_spec\<lparr>
          ps_grace := Some 0,
          ps_init :=
            [zero_container\<lparr>c_name := ''init'', c_image := appImage cr, c_pull_policy := ''Always'',
               c_command := [''sh'', ''-x'', ''-c'', ''/deployments/k8s-setup.sh''],
               c_env :=
                 [secretEnv ''KEYCLOAK_USER'' (keycloakAdminSecret cr) BasicAuthUsernameKey,
                  secretEnv ''KEYCLOAK_PASSWORD'' (keycloakAdminSecret cr) BasicAuthPasswordKey,
                  secretEnv ''ADMIN_USERNAME'' (horreumAdminSecret cr) BasicAuthUsernameKey,
                  secretEnv ''ADMIN_PASSWORD'' (horreumAdminSecret cr) BasicAuthPasswordKey,
                  env_value ''KC_URL'' (keycloakInternalURL cr),
                  env_value ''CA_CERT_ARG'' caCertArg,
                  env_value ''APP_URL'' appPublicUrl],
               c_mounts :=
                 [\<lparr>vm_name = ''imports'', vm_path = ''/etc/horreum/imports'', vm_sub_path = []\<rparr>,
                  \<lparr>vm_name = ''service-ca'', vm_path = ''/etc/ssl/certs/service-ca.crt'',
                   vm_sub_path = ''service-ca.crt''\<rparr>]\<rparr>],
          ps_containers :=
            [zero_container\<lparr>c_name := ''horreum'', c_image := appImage cr,
               c_command := [''sh'', ''-c'', appCommand],
               c_env := appEnv cr keycloakPublicUrl appPublicUrl,
               c_mounts := appMounts cr\<rparr>],
          ps_volumes := appVolumes cr\<rparr>\<rparr>)"

section \<open>The service and the route\<close>

definition appService :: "Horreum \<Rightarrow> 'w HorreumReconciler \<Rightarrow> service" where
  "appService cr r =
     \<lparr>svc_meta = zero_meta\<lparr>om_name := Name cr, om_namespace := Namespace cr,
        om_annotations := fmap_of_list
          [(''service.beta.openshift.io/serving-cert-secret-name'', Name cr @ ''-app-certs'')]\<rparr>,
      svc_type = serviceType (Spec_ServiceType (Spec cr)) r,
      svc_ports = [servicePort (Spec_Route (Spec cr)) 8080 8443],
      svc_selector = fmap_of_list [(''app'', Name cr), (''service'', ''app'')],
      svc_ingress = []\<rparr>"

definition appRoute ::
  "Horreum \<Rightarrow> 'w HorreumReconciler \<Rightarrow> ('w st, route option res) state" where
  "appRoute cr r = route (Spec_Route (Spec cr)) [] cr r"

section \<open>The upload config map\<close>

definition uploadScript :: "string \<Rightarrow> string \<Rightarrow> string" where
  \<open>uploadScript keycloakURL horreumURL =
     ''
			#!/bin/bash

			TOKEN=$(curl -s -X POST	'' @
     keycloakURL @
     ''/auth/realms/horreum/protocol/openid-connect/token '' @
     '' -H 'content-type: application/x-www-form-urlencoded' '' @
     '' -d 'username='$HORREUM_USER'&password='$HORREUM_PASSWORD'&grant_type=password&client_id=horreum-ui'' @ [CHR 0x27] @
     '' | jq -r .access_token)

			curl -s	'' @ [CHR 0x27] @
     horreumURL @
     ''/api/run/data?owner='$HORREUM_GROUP'&access=PUBLIC&test=$.info.benchmark&start=$.info.startTime&stop=$.info.terminateTime'' @ [CHR 0x27] @
     '' -X POST -H 'content-type: application/json' -d @$RUN_DIR/all.json -H 'Authorization: Bearer '$TOKEN
			''\<close>

definition uploadConfig :: "Horreum \<Rightarrow> config_map" where
  "uploadConfig cr =
     (let keycloakURL = keycloakInternalURL cr;
          horreumURL = innerProtocol (Spec_Route (Spec cr)) @ Name cr @ ''.'' @ Namespace cr @ ''.svc''
      in \<lparr>cm_meta = zero_meta\<lparr>om_name := Name cr @ ''-hyperfoil-upload'',
            om_namespace := Namespace cr\<rparr>,
          cm_data = fmap_of_list [(''50-upload-to-horreum'', uploadScript keycloakURL horreumURL)],
          cm_binary = fmempty\<rparr>)"

end
