(* ===== verification/Certificates.thy ===== *)
theory Certificates
  imports Ensure
begin

unbundle bit_operations_syntax

text \<open>
  \<^verbatim>\<open>controllers/certificates.go\<close>: on a cluster without routes the operator keeps its own certificate
  authority in a secret, publishes its certificate in the config map \<^verbatim>\<open>service-ca.crt\<close> and issues one
  certificate per exposed service. Everything that exists already is left as it is.
\<close>

section \<open>Certificate templates\<close>

abbreviation "ExtKeyUsageServerAuth \<equiv> 1 :: int"
abbreviation "ExtKeyUsageClientAuth \<equiv> 2 :: int"
abbreviation "KeyUsageDigitalSignature \<equiv> 1 :: int"
abbreviation "KeyUsageCertSign \<equiv> 32 :: int"

definition caTemplate :: "go_time \<Rightarrow> go_time \<Rightarrow> certificate" where
  "caTemplate notBefore notAfter =
     \<lparr>crt_serial = 2019, crt_organization = [''Horreum CA''], crt_country = [''US''],
      crt_province = [[]], crt_locality = [''Raleigh''],
      crt_common_name = ''ca.horreum.hyperfoil.io'', crt_dns_names = [],
      crt_not_before = notBefore, crt_not_after = notAfter, crt_is_ca = True,
      crt_ext_key_usage = [ExtKeyUsageClientAuth, ExtKeyUsageServerAuth],
      crt_key_usage = KeyUsageDigitalSignature OR KeyUsageCertSign,
      crt_basic_constraints_valid = True\<rparr>"

definition serviceNames :: "Horreum \<Rightarrow> string \<Rightarrow> string list" where
  "serviceNames cr serviceName =
     [serviceName @ ''.'' @ Namespace cr @ ''.svc'',
      serviceName @ ''.'' @ Namespace cr @ ''.svc.cluster.local'',
      ''*.'' @ serviceName @ ''.'' @ Namespace cr @ ''.svc'',
      ''*.'' @ serviceName @ ''.'' @ Namespace cr @ ''.svc.cluster.local''] @
     (if Spec_NodeHost (Spec cr) \<noteq> [] then [Spec_NodeHost (Spec cr)] else [])"

definition serviceTemplate ::
  "Horreum \<Rightarrow> string \<Rightarrow> int \<Rightarrow> go_time \<Rightarrow> go_time \<Rightarrow> certificate" where
  "serviceTemplate cr serviceName serial notBefore notAfter =
     \<lparr>crt_serial = serial, crt_organization = [''Horreum''], crt_country = [''US''],
      crt_province = [[]], crt_locality = [''Raleigh''], crt_common_name = serviceName,
      crt_dns_names = serviceNames cr serviceName,
      crt_not_before = notBefore, crt_not_after = notAfter, crt_is_ca = False,
      crt_ext_key_usage = [ExtKeyUsageClientAuth, ExtKeyUsageServerAuth],
      crt_key_usage = KeyUsageDigitalSignature, crt_basic_constraints_valid = False\<rparr>"

text \<open>A fallible library call whose error is returned to the caller.\<close>

definition fallible :: "('w \<Rightarrow> (go_error + 'a) \<times> 'w) \<Rightarrow> ('w st, 'a res) state" where
  "fallible f = do {
     x \<leftarrow> effect f;
     (case x of Inl e \<Rightarrow> fail e | Inr a \<Rightarrow> ok a) }"

definition liftE :: "go_error + 'a \<Rightarrow> ('w st, 'a res) state" where
  "liftE x = (case x of Inl e \<Rightarrow> fail e | Inr a \<Rightarrow> ok a)"

definition tlsSecret ::
  "'w HorreumReconciler \<Rightarrow> Horreum \<Rightarrow> string \<Rightarrow> string \<Rightarrow> rsa_key \<Rightarrow> secret" where
  "tlsSecret r cr name certBytes key =
     zero_secret\<lparr>sec_meta := zero_meta\<lparr>om_name := name, om_namespace := Namespace cr\<rparr>,
       sec_type := SecretTypeTLS,
       sec_data := fmap_of_list
         [(TLSPrivateKeyKey, pem_encode (Crypto r) ''RSA PRIVATE KEY'' (pkcs1_marshal (Crypto r) key)),
          (TLSCertKey, pem_encode (Crypto r) ''CERTIFICATE'' certBytes)]\<rparr>"

section \<open>The certificate authority\<close>

text \<open>The branch of \<^verbatim>\<open>createCA\<close> for a missing secret: the template, the key and the PEM bytes.\<close>

definition newCA ::
  "Horreum \<Rightarrow> 'w HorreumReconciler \<Rightarrow> ('w st, (certificate \<times> rsa_key \<times> string) res) state" where
  "newCA cr r =
     and_then (fallible (rsa_generate (Crypto r))) (\<lambda>caPrivKey. do {
       notBefore \<leftarrow> now r;
       t \<leftarrow> now r;
       let ca = caTemplate notBefore (add_years 10 t);
       and_then (fallible (x509_create (Crypto r) ca ca (rsa_public caPrivKey) caPrivKey))
         (\<lambda>caBytes.
           let secret = tlsSecret r cr (Name cr @ ''-ca-certs'') caBytes caPrivKey in
           and_then (liftE (set_controller_reference r cr (SecretObj secret))) (\<lambda>ob. do {
             err \<leftarrow> create r ob;
             (case err of
                Some e \<Rightarrow> do {
                  updateStatus r cr ''Error'' ''Cannot create CA private key secret'';
                  fail e }
              | None \<Rightarrow> ok (ca, caPrivKey, pem_encode (Crypto r) ''CERTIFICATE'' caBytes)) })) })"

text \<open>The branch for an existing secret: both PEM blocks are decoded and parsed.\<close>

definition loadCA ::
  "'w HorreumReconciler \<Rightarrow> secret \<Rightarrow> go_error + (certificate \<times> rsa_key \<times> string)" where
  "loadCA r caSecret =
     (let caPEMBytes = data_at (sec_data caSecret) TLSCertKey;
          caPrivKeyPEM = data_at (sec_data caSecret) TLSPrivateKeyKey in
      case pem_decode (Crypto r) caPEMBytes of
        None \<Rightarrow> Inl (NewError (''cannot decode service-ca certificate ('' @
                  itoa (int (length caPEMBytes)) @ '' bytes)''))
      | Some caBlock \<Rightarrow>
      (case x509_parse (Crypto r) caBlock of
        Inl e \<Rightarrow> Inl e
      | Inr ca \<Rightarrow>
      (case pem_decode (Crypto r) caPrivKeyPEM of
        None \<Rightarrow> Inl (NewError (''cannot decode service-ca private key ('' @
                  itoa (int (length caPrivKeyPEM)) @ '' bytes)''))
      | Some caPrivKeyBlock \<Rightarrow>
      (case pkcs1_parse (Crypto r) caPrivKeyBlock of
        Inl e \<Rightarrow> Inl e
      | Inr caPrivKey \<Rightarrow> Inr (ca, caPrivKey, caPEMBytes)))))"

definition serviceCaConfigMap :: "Horreum \<Rightarrow> string \<Rightarrow> config_map" where
  "serviceCaConfigMap cr caPEMBytes =
     \<lparr>cm_meta = zero_meta\<lparr>om_namespace := Namespace cr, om_name := ''service-ca.crt''\<rparr>,
      cm_data = fmempty, cm_binary = fmap_of_list [(''service-ca.crt'', caPEMBytes)]\<rparr>"

text \<open>The second half of \<^verbatim>\<open>createCA\<close>: the config map is created if it is missing.\<close>

definition publishCA ::
  "Horreum \<Rightarrow> 'w HorreumReconciler \<Rightarrow> string \<Rightarrow> ('w st, unit res) state" where
  "publishCA cr r caPEMBytes = do {
     found \<leftarrow> get_config_map r (Namespace cr) ''service-ca.crt'';
     (case found of
        Inl e \<Rightarrow>
          (if is_not_found e then
             and_then (liftE (set_controller_reference r cr
                 (ConfigMapObj (serviceCaConfigMap cr caPEMBytes)))) (\<lambda>ob. do {
               err \<leftarrow> create r ob;
               (case err of Some e \<Rightarrow> fail e | None \<Rightarrow> ok ()) })
           else fail e)
      | Inr _ \<Rightarrow> ok ()) }"

definition createCA ::
  "Horreum \<Rightarrow> 'w HorreumReconciler \<Rightarrow> ('w st, (certificate \<times> rsa_key) res) state" where
  "createCA cr r = do {
     found \<leftarrow> get_secret r (Namespace cr) (Name cr @ ''-ca-certs'');
     and_then
       (case found of
          Inl e \<Rightarrow> (if is_not_found e then newCA cr r else fail e)
        | Inr caSecret \<Rightarrow> liftE (loadCA r caSecret))
       (\<lambda>(ca, caPrivKey, caPEMBytes).
          and_then (publishCA cr r caPEMBytes) (\<lambda>_. ok (ca, caPrivKey))) }"

section \<open>Service certificates\<close>

text \<open>The certificate and the key of the authority are pointers that must not be nil.\<close>

definition createServiceCert ::
  "Horreum \<Rightarrow> 'w HorreumReconciler \<Rightarrow> certificate option \<Rightarrow> rsa_key option \<Rightarrow> string \<Rightarrow> string \<Rightarrow> int
     \<Rightarrow> ('w st, unit res) state" where
  "createServiceCert cr r ca caPrivKey resourceName serviceName serial =
     (case (ca, caPrivKey) of
        (Some ca, Some caPrivKey) \<Rightarrow> do {
          found \<leftarrow> get_secret r (Namespace cr) resourceName;
          (case found of
             Inl e \<Rightarrow>
               (if is_not_found e then do {
                  notBefore \<leftarrow> now r;
                  t \<leftarrow> now r;
                  let cert = serviceTemplate cr serviceName serial notBefore (add_years 10 t);
                  and_then (fallible (rsa_generate (Crypto r))) (\<lambda>certPrivKey.
                  and_then (fallible (x509_create (Crypto r) cert ca (rsa_public certPrivKey) caPrivKey))
                    (\<lambda>certBytes.
                  and_then (liftE (set_controller_reference r cr
                      (SecretObj (tlsSecret r cr resourceName certBytes certPrivKey)))) (\<lambda>ob. do {
                    err \<leftarrow> create r ob;
                    (case err of Some e \<Rightarrow> fail e | None \<Rightarrow> ok ()) }))) }
                else fail e)
           | Inr _ \<Rightarrow> ok ()) }
      | _ \<Rightarrow> fail (NewError ''CA is nil''))"

section \<open>Facts\<close>

lemma wp_fallible [wp_simps]:
  "wp (fallible f) Q s =
     (case f (st_world s) of (x, w) \<Rightarrow>
        (case x of Inl e \<Rightarrow> Q (Err e) (s\<lparr>st_world := w\<rparr>) | Inr a \<Rightarrow> Q (Ok a) (s\<lparr>st_world := w\<rparr>)))"
  by (simp add: fallible_def wp_simps split: prod.splits sum.splits)

lemma wp_liftE [wp_simps]:
  "wp (liftE x) Q s = (case x of Inl e \<Rightarrow> Q (Err e) s | Inr a \<Rightarrow> Q (Ok a) s)"
  by (simp add: liftE_def wp_simps split: sum.splits)

context trace_language begin

lemma keeps_fallible: "state_io_rel (emits L) (fallible f)"
  unfolding fallible_def
  by (intro keeps_bind keeps_effect) (auto split: sum.splits intro: keeps_fail keeps_ok)

lemma keeps_liftE: "state_io_rel (emits L) (liftE x)"
  by (auto simp: liftE_def split: sum.splits intro: keeps_fail keeps_ok)

end

end
