(* ===== verification/Reconcile.thy ===== *)
theory Reconcile
  imports Postgres Keycloak App Certificates
begin

text \<open>
  \<^verbatim>\<open>Reconcile\<close> of \<^verbatim>\<open>horreum_controller.go\<close>, one definition per stage, composed in the order of the
  code. A stage that waits for the cluster ends the pass early with a request to be called again;
  that early return is the left injection of its result.
\<close>

section \<open>Results\<close>

datatype ctrl_result = Result (Requeue: bool)

definition waiting ::
  "'w HorreumReconciler \<Rightarrow> Horreum \<Rightarrow> string \<Rightarrow> ('w st, (ctrl_result + 'a) res) state" where
  "waiting r cr reason = do {
     updateStatus r cr ''Pending'' reason;
     ok (Inl (Result True)) }"

section \<open>Certificates and credentials\<close>

definition injectedCaConfigMap :: "Horreum \<Rightarrow> config_map" where
  "injectedCaConfigMap cr =
     \<lparr>cm_meta = zero_meta\<lparr>om_name := ''service-ca.crt'', om_namespace := Namespace cr,
        om_annotations := fmap_of_list [(''service.beta.openshift.io/inject-cabundle'', ''true'')]\<rparr>,
      cm_data = fmempty, cm_binary = fmempty\<rparr>"

definition reconcileCerts :: "'w HorreumReconciler \<Rightarrow> Horreum \<Rightarrow> ('w st, unit res) state" where
  "reconcileCerts r cr =
     (if \<not> RoutesAvailable r then
        and_then (createCA cr r) (\<lambda>(ca, caPrivateKey).
        and_then (createServiceCert cr r (Some ca) (Some caPrivateKey)
            (Name cr @ ''-app-certs'') (Name cr) 1000) (\<lambda>_.
        createServiceCert cr r (Some ca) (Some caPrivateKey)
            (Name cr @ ''-keycloak-certs'') (Name cr @ ''-keycloak'') 2000))
      else
        and_then (ensureSame r cr (Some (ConfigMapObj (injectedCaConfigMap cr))) nocompare nocheck)
          (\<lambda>_. ok ()))"

definition ensureSecret ::
  "'w HorreumReconciler \<Rightarrow> Horreum \<Rightarrow> secret \<Rightarrow> string list \<Rightarrow> ('w st, unit res) state" where
  "ensureSecret r cr secret keys =
     and_then (ensureSame r cr (Some (SecretObj secret)) nocompare (checkSecret keys)) (\<lambda>_. ok ())"

definition basicKeys :: "string list" where
  "basicKeys = [BasicAuthUsernameKey, BasicAuthPasswordKey]"

text \<open>A new secret is generated, with fresh passwords, before it is known whether it is needed.\<close>

definition reconcileSecrets :: "'w HorreumReconciler \<Rightarrow> Horreum \<Rightarrow> ('w st, unit res) state" where
  "reconcileSecrets r cr = do {
     dbAdmin \<leftarrow> newSecret r cr (dbAdminSecret cr);
     and_then (ensureSecret r cr dbAdmin basicKeys) (\<lambda>_. do {
     app \<leftarrow> newSecret r cr (appUserSecret cr);
     dbsecret \<leftarrow> generatePassword r;
     let app = app\<lparr>sec_string_data := fmupd ''dbsecret'' dbsecret (sec_string_data app)\<rparr>;
     and_then (ensureSecret r cr app (basicKeys @ [''dbsecret''])) (\<lambda>_. do {
     keycloakAdmin \<leftarrow> newSecret r cr (keycloakAdminSecret cr);
     and_then (ensureSecret r cr keycloakAdmin basicKeys) (\<lambda>_. do {
     keycloakDb \<leftarrow> newSecret r cr (keycloakDbSecret cr);
     and_then (ensureSecret r cr keycloakDb basicKeys) (\<lambda>_. do {
     horreumAdmin \<leftarrow> newSecret r cr (horreumAdminSecret cr);
     ensureSecret r cr horreumAdmin basicKeys }) }) }) }) }"

section \<open>The database\<close>

definition reconcilePostgres :: "'w HorreumReconciler \<Rightarrow> Horreum \<Rightarrow> ('w st, unit res) state" where
  "reconcilePostgres r cr =
     (let configMap = ConfigMapObj (postgresConfigMap cr);
          pod = PodObj (postgresPod cr r);
          service = ServiceObj (postgresService cr) in
      if Pg_Enabled (Postgres cr) = Some False then
        and_then (ensureDeleted r cr (Some pod)) (\<lambda>_.
        ensureDeleted r cr (Some service))
      else
        and_then (ensureSame r cr (Some configMap) compareConfigMap nocheck) (\<lambda>_.
        and_then (ensureSame r cr (Some pod) (comparePods r) checkPod) (\<lambda>_.
        and_then (ensureSame r cr (Some service) compareService nocheck) (\<lambda>_. ok ()))))"

section \<open>Public URLs\<close>

text \<open>
  The address under which a service is reached from outside: its node port, its load balancer or
  its route. The pass ends early while the cluster has not assigned one.
\<close>

definition serviceUrl ::
  "'w HorreumReconciler \<Rightarrow> Horreum \<Rightarrow> string \<Rightarrow> service \<Rightarrow> route option \<Rightarrow> string \<Rightarrow> string
     \<Rightarrow> ('w st, (ctrl_result + string) res) state" where
  "serviceUrl r cr svcType service rt waitPort waitUrl =
     (if isNodePort r svcType then
        and_then (getNodePort r service) (\<lambda>nodePort.
          if nodePort = 0 then waiting r cr waitPort
          else ok (Inr (https_url (Spec_NodeHost (Spec cr)) nodePort)))
      else
        and_then
          (if svcType = ServiceTypeLoadBalancer then getLoadBalancer r service
           else if RoutesAvailable r then
             and_then (ensureSame r cr (map_option RouteObj rt) compareRoute checkRoute)
               (\<lambda>foundRoute. ok (foundRouteUrl foundRoute))
           else ok [])
          (\<lambda>url. if url = [] then waiting r cr waitUrl else ok (Inr url)))"

definition setKeycloakUrl :: "string \<Rightarrow> ('w st, unit) state" where
  "setKeycloakUrl url = State_Monad.update
     (\<lambda>s. s\<lparr>st_status := (st_status s)\<lparr>Status_KeycloakUrl := url\<rparr>\<rparr>)"

definition setPublicUrl :: "string \<Rightarrow> ('w st, unit) state" where
  "setPublicUrl url = State_Monad.update
     (\<lambda>s. s\<lparr>st_status := (st_status s)\<lparr>Status_PublicUrl := url\<rparr>\<rparr>)"

definition publicUri :: "Horreum \<Rightarrow> string" where
  "publicUri cr = Ext_PublicUri (Kc_External (Keycloak cr))"

definition keycloakUrl ::
  "'w HorreumReconciler \<Rightarrow> Horreum \<Rightarrow> route option \<Rightarrow> ('w st, (ctrl_result + string) res) state"
where
  "keycloakUrl r cr rt =
     (if publicUri cr = [] then
        and_then (ensureSame r cr (Some (ServiceObj (keycloakService cr r))) compareService nocheck)
          (\<lambda>_. serviceUrl r cr (Kc_ServiceType (Keycloak cr)) (keycloakService cr r) rt
                 ''Waiting for Keycloak service node port'' ''Waiting for Keycloak service URL'')
      else ok (Inr (publicUri cr)))"

section \<open>Keycloak and Horreum\<close>

definition reconcileKeycloakPod ::
  "'w HorreumReconciler \<Rightarrow> Horreum \<Rightarrow> route option \<Rightarrow> string \<Rightarrow> ('w st, unit res) state" where
  "reconcileKeycloakPod r cr rt keycloakPublicUrl =
     (let pod = map_option PodObj (keycloakPod cr keycloakPublicUrl) in
      if publicUri cr \<noteq> [] then
        and_then (ensureDeleted r cr pod) (\<lambda>_.
        and_then (ensureDeleted r cr (Some (ServiceObj (keycloakService cr r)))) (\<lambda>_.
        if RoutesAvailable r then ensureDeleted r cr (map_option RouteObj rt) else ok ()))
      else and_then (ensureSame r cr pod (comparePods r) checkPod) (\<lambda>_. ok ()))"

definition appUrl ::
  "'w HorreumReconciler \<Rightarrow> Horreum \<Rightarrow> ('w st, (ctrl_result + string) res) state" where
  "appUrl r cr =
     and_then (appRoute cr r) (\<lambda>rt.
     and_then (ensureSame r cr (Some (ServiceObj (appService cr r))) compareService nocheck) (\<lambda>_.
     serviceUrl r cr (Spec_ServiceType (Spec cr)) (appService cr r) rt
       ''Waiting for service node port'' ''Waiting for Horreum service URL''))"

definition reconcileApp ::
  "'w HorreumReconciler \<Rightarrow> Horreum \<Rightarrow> string \<Rightarrow> string \<Rightarrow> ('w st, ctrl_result res) state" where
  "reconcileApp r cr keycloakPublicUrl appPublicUrl =
     and_then (ensureSame r cr (Some (PodObj (appPod cr keycloakPublicUrl appPublicUrl)))
       (comparePods r) checkPod) (\<lambda>_.
     and_then (ensureSame r cr (Some (ConfigMapObj (uploadConfig cr))) nocompare nocheck) (\<lambda>_. do {
       statusUpdate r cr;
       ok (Result False) }))"

section \<open>The pass\<close>

text \<open>An early return of a stage ends the pass.\<close>

definition unless_waiting ::
  "('w st, (ctrl_result + 'a) res) state \<Rightarrow> ('a \<Rightarrow> ('w st, ctrl_result res) state)
     \<Rightarrow> ('w st, ctrl_result res) state" where
  "unless_waiting m k =
     and_then m (\<lambda>x. case x of Inl result \<Rightarrow> ok result | Inr a \<Rightarrow> k a)"

definition reconcileApplication ::
  "'w HorreumReconciler \<Rightarrow> Horreum \<Rightarrow> string \<Rightarrow> ('w st, ctrl_result res) state" where
  "reconcileApplication r cr keycloakPublicUrl =
     unless_waiting (appUrl r cr) (\<lambda>appPublicUrl. do {
       setPublicUrl appPublicUrl;
       reconcileApp r cr keycloakPublicUrl appPublicUrl })"

definition reconcileKeycloak ::
  "'w HorreumReconciler \<Rightarrow> Horreum \<Rightarrow> ('w st, ctrl_result res) state" where
  "reconcileKeycloak r cr =
     and_then (keycloakRoute cr r) (\<lambda>rt.
     unless_waiting (keycloakUrl r cr rt) (\<lambda>keycloakPublicUrl. do {
       setKeycloakUrl keycloakPublicUrl;
       and_then (reconcileKeycloakPod r cr rt keycloakPublicUrl) (\<lambda>_.
       reconcileApplication r cr keycloakPublicUrl) }))"

definition noNodeHost :: string where
  "noNodeHost = ''service of type NodePort is used but spec.nodeHost is not defined''"

definition readyReason :: "string \<Rightarrow> string" where
  "readyReason adminSecret =
     ''For admin ('' @ adminSecret @ '') password run: kubectl get secret '' @ adminSecret @
     '' -o go-template='' @ [CHR 0x27] @ ''{{.data.password|base64decode}}'' @ [CHR 0x27]"

definition markReady :: "'w HorreumReconciler \<Rightarrow> Horreum \<Rightarrow> ('w st, unit) state" where
  "markReady r cr = do {
     s \<leftarrow> State_Monad.get;
     (if Status_Status (st_status s) \<noteq> ''Ready'' then do {
        t \<leftarrow> now r;
        State_Monad.update (\<lambda>s. s\<lparr>st_status := (st_status s)
          \<lparr>Status_Status := ''Ready'', Status_Reason := readyReason (horreumAdminSecret cr),
           Status_LastUpdate := t\<rparr>\<rparr>) }
      else State_Monad.return ()) }"

definition reconcileCr :: "'w HorreumReconciler \<Rightarrow> Horreum \<Rightarrow> ('w st, ctrl_result res) state" where
  "reconcileCr r cr =
     (if Spec_NodeHost (Spec cr) = [] \<and>
         (isNodePort r (Spec_ServiceType (Spec cr)) \<or> isNodePort r (Kc_ServiceType (Keycloak cr)))
      then do {
        updateStatus r cr ''Error'' noNodeHost;
        fail (NewError noNodeHost) }
      else do {
        markReady r cr;
        and_then (reconcileCerts r cr) (\<lambda>_.
        and_then (reconcileSecrets r cr) (\<lambda>_.
        and_then (reconcilePostgres r cr) (\<lambda>_.
        reconcileKeycloak r cr))) })"

definition Reconcile ::
  "'w HorreumReconciler \<Rightarrow> string \<Rightarrow> string \<Rightarrow> ('w st, ctrl_result res) state" where
  "Reconcile r namespace name = do {
     found \<leftarrow> effect (cl_get_horreum (Client r) namespace name);
     emit (GetHorreumEv namespace name (error_of found));
     (case found of
        Inl e \<Rightarrow> (if is_not_found e then ok (Result False) else fail e)
      | Inr cr \<Rightarrow> do {
          State_Monad.update (\<lambda>s. s\<lparr>st_status := Status cr\<rparr>);
          reconcileCr r cr }) }"

text \<open>A pass for one request, from a given state of the world.\<close>

definition runPass ::
  "'w HorreumReconciler \<Rightarrow> string \<Rightarrow> string \<Rightarrow> 'w \<Rightarrow> ctrl_result res \<times> 'w st" where
  "runPass r namespace name w =
     run_state (Reconcile r namespace name)
       \<lparr>st_world = w, st_status = zero_HorreumStatus, st_events = []\<rparr>"

section \<open>Registration with the manager\<close>

text \<open>The kinds of owned objects whose changes trigger a pass (\<^verbatim>\<open>SetupWithManager\<close>).\<close>

definition ownedKinds :: "'w HorreumReconciler \<Rightarrow> kind list" where
  "ownedKinds r = [KPod, KService, KSecret, KConfigMap] @ (if RoutesAvailable r then [KRoute] else [])"

end
