(* ===== verification/Protocol.thy ===== *)
theory Protocol
  imports Reconcile
begin

text \<open>
  The protocol the operator speaks with the API server: an abstract specification of the calls of
  a pass, as an inductive grammar, and the proof that \<^verbatim>\<open>Reconcile\<close> keeps to it whatever the server
  answers. Safety properties of the calls are rule inductions over the grammar.
\<close>

section \<open>The objects of a resource\<close>

text \<open>
  Kind and name of every object a pass may create for a resource, and whether it may also be
  deleted (to be replaced, or because the component is disabled).
\<close>

definition managed :: "'w HorreumReconciler \<Rightarrow> Horreum \<Rightarrow> (kind \<times> string \<times> bool) list" where
  "managed r cr =
     [(KSecret, dbAdminSecret cr, False), (KSecret, appUserSecret cr, False),
      (KSecret, keycloakAdminSecret cr, False), (KSecret, keycloakDbSecret cr, False),
      (KSecret, horreumAdminSecret cr, False),
      (KConfigMap, ''service-ca.crt'', False),
      (KConfigMap, Name cr @ ''-postgresql-start'', True),
      (KConfigMap, Name cr @ ''-hyperfoil-upload'', False),
      (KPod, Name cr @ ''-db'', True), (KService, Name cr @ ''-db'', True),
      (KPod, Name cr @ ''-keycloak'', True), (KService, Name cr @ ''-keycloak'', True),
      (KPod, Name cr @ ''-app'', True), (KService, Name cr, True)] @
     (if RoutesAvailable r
      then [(KRoute, Name cr @ ''-keycloak'', True), (KRoute, Name cr, True)]
      else [(KSecret, Name cr @ ''-ca-certs'', False), (KSecret, Name cr @ ''-app-certs'', False),
            (KSecret, Name cr @ ''-keycloak-certs'', False)])"

text \<open>What a pass reads besides: the secret with the user's certificate.\<close>

definition readable :: "'w HorreumReconciler \<Rightarrow> Horreum \<Rightarrow> (kind \<times> string) list" where
  "readable r cr =
     (KSecret, Route_TLS (Spec_Route (Spec cr))) # map (\<lambda>(k, n, _). (k, n)) (managed r cr)"

definition owned :: "'w HorreumReconciler \<Rightarrow> Horreum \<Rightarrow> obj \<Rightarrow> bool" where
  "owned r cr ob \<longleftrightarrow> (\<exists>ob0. lib_owners (Lib r) cr ob0 = Inr (om_owners (obj_meta ob)))"

definition fetched :: "'w HorreumReconciler \<Rightarrow> key \<Rightarrow> obj \<Rightarrow> bool" where
  "fetched r key out \<longleftrightarrow>
     (case key of (k, ns, n) \<Rightarrow> \<exists>w w'. client_get (Client r) k ns n w = (Inr out, w'))"

section \<open>The grammar\<close>

inductive operator_trace :: "'w HorreumReconciler \<Rightarrow> Horreum \<Rightarrow> event list \<Rightarrow> bool" for r cr where
  tr_nil: "operator_trace r cr []"
| tr_append: "operator_trace r cr xs \<Longrightarrow> operator_trace r cr ys \<Longrightarrow> operator_trace r cr (xs @ ys)"
| tr_read: "(k, n) \<in> set (readable r cr) \<Longrightarrow> operator_trace r cr [GetEv (k, Namespace cr, n) res]"
| tr_status: "operator_trace r cr [StatusEv (Namespace cr) (Name cr) status]"
| tr_create:
    "(k, n, b) \<in> set (managed r cr) \<Longrightarrow> obj_key ob = (k, Namespace cr, n) \<Longrightarrow> owned r cr ob \<Longrightarrow>
     operator_trace r cr [GetEv (k, Namespace cr, n) (Some NotFound), CreateEv ob res]"
| tr_delete:
    "(k, n, True) \<in> set (managed r cr) \<Longrightarrow> fetched r (k, Namespace cr, n) out \<Longrightarrow>
     operator_trace r cr [GetEv (k, Namespace cr, n) None, DeleteEv out res]"
| tr_replace:
    "(k, n, True) \<in> set (managed r cr) \<Longrightarrow> fetched r (k, Namespace cr, n) out \<Longrightarrow>
     obj_key ob = (k, Namespace cr, n) \<Longrightarrow> owned r cr ob \<Longrightarrow>
     operator_trace r cr [GetEv (k, Namespace cr, n) None, DeleteEv out None, CreateEv ob res]"

interpretation protocol: trace_language "operator_trace r cr" for r cr
  by unfold_locales (auto intro: tr_nil tr_append)

lemma managed_readable: "(k, n, b) \<in> set (managed r cr) \<Longrightarrow> (k, n) \<in> set (readable r cr)"
  by (force simp: readable_def)

text \<open>Calls followed by a status report, as on every error path.\<close>

lemma tr_then_status:
  "operator_trace r cr es \<Longrightarrow>
   operator_trace r cr (es @ [StatusEv (Namespace cr) (Name cr) status])"
  by (intro tr_append tr_status)

lemma tr_status_last:
  "operator_trace r cr [e1] \<Longrightarrow>
     operator_trace r cr [e1, StatusEv (Namespace cr) (Name cr) status]"
  "operator_trace r cr [e1, e2] \<Longrightarrow>
     operator_trace r cr [e1, e2, StatusEv (Namespace cr) (Name cr) status]"
  "operator_trace r cr [e1, e2, e3] \<Longrightarrow>
     operator_trace r cr [e1, e2, e3, StatusEv (Namespace cr) (Name cr) status]"
  using tr_then_status [of r cr "[e1]"] tr_then_status [of r cr "[e1, e2]"]
    tr_then_status [of r cr "[e1, e2, e3]"] by simp_all

section \<open>The operations keep to the grammar\<close>

lemma wp_updateStatus_events:
  assumes "\<And>t status'. st_events t = st_events s @ [StatusEv (Namespace cr) (Name cr) status']
      \<Longrightarrow> Q () t"
  shows "wp (updateStatus r cr status reason) Q s"
  by (rule wp_mono [OF updateStatus_event]) (auto intro: assms)

lemma wp_setStatus_events:
  assumes "\<And>t. st_events t = st_events s \<Longrightarrow> Q () t"
  shows "wp (setStatus r status reason) Q s"
  by (auto simp: wp_setStatus intro!: assms split: prod.splits)

text \<open>
  \<^verbatim>\<open>createObj\<close> after some calls \<open>es\<close>: they are followed by the creation, and by a status report if
  that failed.
\<close>

lemma wp_createObj_events:
  assumes "\<And>t res. st_events t = st_events s @ [CreateEv ob res] \<Longrightarrow> Q (Ok out) t"
    and "\<And>t e status. st_events t = st_events s @ [CreateEv ob (Some e)]
            @ [StatusEv (Namespace cr) (Name cr) status] \<Longrightarrow> Q (Err e) t"
  shows "wp (createObj r cr ob out) Q s"
  by (auto simp: createObj_def wp_simps simp del: wp_setStatus wp_updateStatus
      split: prod.splits option.splits
      intro!: wp_setStatus_events wp_updateStatus_events assms)

lemma emitsI:
  "st_events t = st_events s @ es \<Longrightarrow> operator_trace r cr es \<Longrightarrow> emits (operator_trace r cr) s t"
  by (auto simp: emits_def)

lemma fetchedI: "client_get (Client r) k ns n w = (Inr out, w') \<Longrightarrow> fetched r (k, ns, n) out"
  by (auto simp: fetched_def)

lemma error_of_simps [simp]: "error_of (Inl e) = Some e" "error_of (Inr x) = None"
  by (simp_all add: error_of_def)

text \<open>
  The obligation of a caller: the object is in the namespace of the resource and in the table, and
  a comparison that may fail is used only for objects that may be replaced.
\<close>

definition governed :: "'w HorreumReconciler \<Rightarrow> Horreum \<Rightarrow> bool \<Rightarrow> obj option \<Rightarrow> bool" where
  "governed r cr b object \<longleftrightarrow>
     (\<forall>ob. object = Some ob \<longrightarrow>
        obj_namespace ob = Namespace cr \<and> (obj_kind ob, obj_name ob, b) \<in> set (managed r cr))"

lemma governed_read:
  assumes "governed r cr b (Some ob)"
  shows "(obj_kind ob, obj_name ob) \<in> set (readable r cr)" and "obj_namespace ob = Namespace cr"
  using assms managed_readable by (auto simp: governed_def)

lemma set_controller_reference_governed:
  assumes "set_controller_reference r cr ob0 = Inr ob" and "governed r cr b (Some ob0)"
  shows "governed r cr b (Some ob)" and "owned r cr ob"
proof -
  obtain os where os: "lib_owners (Lib r) cr ob0 = Inr os" "ob = set_owners os ob0"
    and key: "obj_key ob = obj_key ob0"
    using set_controller_reference_Inr [OF assms(1)] by blast
  show "governed r cr b (Some ob)"
    using key assms(2) by (simp add: governed_def obj_key_def)
  show "owned r cr ob"
    using os by (auto simp: owned_def)
qed

lemma governed_events:
  assumes "governed r cr b (Some ob)"
  shows "operator_trace r cr [GetEv (obj_kind ob, obj_namespace ob, obj_name ob) res]"
    and "owned r cr ob \<Longrightarrow> operator_trace r cr
      [GetEv (obj_kind ob, obj_namespace ob, obj_name ob) (Some NotFound), CreateEv ob res']"
    and "b \<Longrightarrow> fetched r (obj_kind ob, obj_namespace ob, obj_name ob) out \<Longrightarrow> operator_trace r cr
      [GetEv (obj_kind ob, obj_namespace ob, obj_name ob) None, DeleteEv out res']"
    and "b \<Longrightarrow> fetched r (obj_kind ob, obj_namespace ob, obj_name ob) out \<Longrightarrow> owned r cr ob \<Longrightarrow>
      operator_trace r cr [GetEv (obj_kind ob, obj_namespace ob, obj_name ob) None,
        DeleteEv out None, CreateEv ob res']"
  using assms governed_read [OF assms]
  by (auto simp: governed_def obj_key_def intro: tr_read tr_create tr_delete tr_replace)

lemma governed_errors:
  assumes "governed r cr b (Some ob)"
  shows "operator_trace r cr [GetEv (obj_kind ob, obj_namespace ob, obj_name ob) res,
      StatusEv (Namespace cr) (Name cr) status]"
    and "owned r cr ob \<Longrightarrow> operator_trace r cr
      [GetEv (obj_kind ob, obj_namespace ob, obj_name ob) (Some NotFound), CreateEv ob res',
       StatusEv (Namespace cr) (Name cr) status]"
    and "b \<Longrightarrow> fetched r (obj_kind ob, obj_namespace ob, obj_name ob) out \<Longrightarrow> operator_trace r cr
      [GetEv (obj_kind ob, obj_namespace ob, obj_name ob) None, DeleteEv out res',
       StatusEv (Namespace cr) (Name cr) status]"
    and "b \<Longrightarrow> fetched r (obj_kind ob, obj_namespace ob, obj_name ob) out \<Longrightarrow> owned r cr ob \<Longrightarrow>
      operator_trace r cr [GetEv (obj_kind ob, obj_namespace ob, obj_name ob) None,
        DeleteEv out None, CreateEv ob res', StatusEv (Namespace cr) (Name cr) status]"
  by (intro tr_status_last governed_events [OF assms]; assumption)+

lemma governed_emits:
  assumes "governed r cr b (Some ob)"
  shows "st_events t = st_events s @ [GetEv (obj_kind ob, obj_namespace ob, obj_name ob) res] \<Longrightarrow>
      emits (operator_trace r cr) s t"
    and "st_events t = st_events s @ [GetEv (obj_kind ob, obj_namespace ob, obj_name ob) res,
        StatusEv (Namespace cr) (Name cr) status] \<Longrightarrow> emits (operator_trace r cr) s t"
    and "st_events t = st_events s @ [GetEv (obj_kind ob, obj_namespace ob, obj_name ob) (Some NotFound),
        CreateEv ob res'] \<Longrightarrow> owned r cr ob \<Longrightarrow> emits (operator_trace r cr) s t"
    and "st_events t = st_events s @ [GetEv (obj_kind ob, obj_namespace ob, obj_name ob) (Some NotFound),
        CreateEv ob res', StatusEv (Namespace cr) (Name cr) status] \<Longrightarrow> owned r cr ob \<Longrightarrow>
      emits (operator_trace r cr) s t"
    and "st_events t = st_events s @ [GetEv (obj_kind ob, obj_namespace ob, obj_name ob) None,
        DeleteEv out res'] \<Longrightarrow> b \<Longrightarrow>
      client_get (Client r) (obj_kind ob) (obj_namespace ob) (obj_name ob) w = (Inr out, w') \<Longrightarrow>
      emits (operator_trace r cr) s t"
    and "st_events t = st_events s @ [GetEv (obj_kind ob, obj_namespace ob, obj_name ob) None,
        DeleteEv out res', StatusEv (Namespace cr) (Name cr) status] \<Longrightarrow> b \<Longrightarrow>
      client_get (Client r) (obj_kind ob) (obj_namespace ob) (obj_name ob) w = (Inr out, w') \<Longrightarrow>
      emits (operator_trace r cr) s t"
    and "st_events t = st_events s @ [GetEv (obj_kind ob, obj_namespace ob, obj_name ob) None,
        DeleteEv out None, CreateEv ob res'] \<Longrightarrow> b \<Longrightarrow>
      client_get (Client r) (obj_kind ob) (obj_namespace ob) (obj_name ob) w = (Inr out, w') \<Longrightarrow>
      owned r cr ob \<Longrightarrow> emits (operator_trace r cr) s t"
    and "st_events t = st_events s @ [GetEv (obj_kind ob, obj_namespace ob, obj_name ob) None,
        DeleteEv out None, CreateEv ob res', StatusEv (Namespace cr) (Name cr) status] \<Longrightarrow> b \<Longrightarrow>
      client_get (Client r) (obj_kind ob) (obj_namespace ob) (obj_name ob) w = (Inr out, w') \<Longrightarrow>
      owned r cr ob \<Longrightarrow> emits (operator_trace r cr) s t"
  using governed_events [OF assms] governed_errors [OF assms]
  by (auto intro!: emitsI dest: fetchedI)

lemma keeps_ensureSame:
  assumes gov: "governed r cr b object" and replace: "b \<or> (\<forall>x y. compare x y)"
  shows "state_io_rel (emits (operator_trace r cr)) (ensureSame r cr object compare check)"
proof (cases object)
  case None
  then show ?thesis by (simp add: ensureSame_def protocol.keeps_panic)
next
  case (Some ob0)
  show ?thesis
  proof (cases "set_controller_reference r cr ob0")
    case (Inl e)
    then show ?thesis using Some by (simp add: ensureSame_def protocol.keeps_fail)
  next
    case (Inr ob)
    note ob = set_controller_reference_governed [OF Inr gov [unfolded Some]]
    note traces = governed_emits [OF ob(1)]
    show ?thesis
      unfolding state_io_rel_wp
    proof
      fix s
      show "wp (ensureSame r cr object compare check) (\<lambda>_. emits (operator_trace r cr) s) s"
        using replace
        by (auto simp: Some Inr ensureSame_def get_obj_def wp_simps is_not_found_def
            simp del: wp_setStatus wp_updateStatus
            split: prod.splits sum.splits option.splits
            intro!: wp_createObj_events wp_setStatus_events wp_updateStatus_events
            intro: traces ob(2))
    qed
  qed
qed

text \<open>The same for deletion, reading a service and the other users of the client.\<close>

lemma keeps_ensureDeleted:
  assumes gov: "governed r cr True object"
  shows "state_io_rel (emits (operator_trace r cr)) (ensureDeleted r cr object)"
proof (cases object)
  case None
  then show ?thesis by (simp add: ensureDeleted_def protocol.keeps_panic)
next
  case (Some ob)
  note traces = governed_emits [OF gov [unfolded Some]]
  show ?thesis
    unfolding state_io_rel_wp
  proof
    fix s
    show "wp (ensureDeleted r cr object) (\<lambda>_. emits (operator_trace r cr) s) s"
      by (auto simp: Some ensureDeleted_def get_obj_def wp_simps is_not_found_def
          simp del: wp_setStatus wp_updateStatus
          split: prod.splits sum.splits option.splits
          intro!: wp_updateStatus_events intro: traces)
  qed
qed

lemma keeps_typed_get:
  assumes "(k, n) \<in> set (readable r cr)"
  shows "state_io_rel (emits (operator_trace r cr)) (typed_get k get (Namespace cr) n)"
  by (auto simp: state_io_rel_wp wp_simps intro!: emitsI tr_read assms split: prod.splits)

lemma keeps_statusUpdate: "state_io_rel (emits (operator_trace r cr)) (statusUpdate r cr)"
  by (auto simp: state_io_rel_wp wp_simps intro!: emitsI tr_status)

lemma keeps_updateStatus:
  "state_io_rel (emits (operator_trace r cr)) (updateStatus r cr status reason)"
  unfolding updateStatus_def
  by (intro protocol.keeps_bind protocol.keeps_setStatus keeps_statusUpdate)

lemma keeps_waiting: "state_io_rel (emits (operator_trace r cr)) (waiting r cr reason)"
  unfolding waiting_def by (intro protocol.keeps_bind keeps_updateStatus protocol.keeps_ok)

section \<open>The certificate stage\<close>

lemma bind_and_then:
  "State_Monad.bind m (\<lambda>x. and_then (f x) k) = and_then (State_Monad.bind m f) k"
  by (simp add: and_then_def)

text \<open>The secrets and the config map of the stage, as objects of the table.\<close>

lemma governed_tlsSecret:
  assumes "\<not> RoutesAvailable r"
    and "n \<in> {Name cr @ ''-ca-certs'', Name cr @ ''-app-certs'', Name cr @ ''-keycloak-certs''}"
  shows "governed r cr False (Some (SecretObj (tlsSecret r cr n bytes key)))"
  using assms by (auto simp: governed_def tlsSecret_def obj_namespace_def obj_name_def managed_def)

lemma governed_serviceCa: "governed r cr False (Some (ConfigMapObj (serviceCaConfigMap cr pem)))"
  by (auto simp: governed_def serviceCaConfigMap_def obj_namespace_def obj_name_def managed_def)

lemma set_controller_reference_cases:
  assumes "set_controller_reference r cr ob0 = Inr ob" and "governed r cr b (Some ob0)"
    and "obj_key ob0 = (k, Namespace cr, n)"
  shows "operator_trace r cr [GetEv (k, Namespace cr, n) (Some NotFound), CreateEv ob res]"
    and "operator_trace r cr [GetEv (k, Namespace cr, n) (Some NotFound), CreateEv ob res,
          StatusEv (Namespace cr) (Name cr) status]"
proof -
  note ob = set_controller_reference_governed [OF assms(1,2)]
  have "obj_key ob = (k, Namespace cr, n)"
    using set_controller_reference_Inr(1) [OF assms(1)] assms(3) by simp
  then have key: "obj_kind ob = k" "obj_namespace ob = Namespace cr" "obj_name ob = n"
    by (simp_all add: obj_key_def)
  show "operator_trace r cr [GetEv (k, Namespace cr, n) (Some NotFound), CreateEv ob res]"
    using governed_events(2) [OF ob(1) ob(2)] key by simp
  then show "operator_trace r cr [GetEv (k, Namespace cr, n) (Some NotFound), CreateEv ob res,
      StatusEv (Namespace cr) (Name cr) status]"
    by (rule tr_status_last)
qed

lemma tlsSecret_key: "obj_key (SecretObj (tlsSecret r cr n bytes key)) = (KSecret, Namespace cr, n)"
  by (simp add: obj_key_def tlsSecret_def obj_namespace_def obj_name_def)

lemma serviceCa_key:
  "obj_key (ConfigMapObj (serviceCaConfigMap cr pem)) = (KConfigMap, Namespace cr, ''service-ca.crt'')"
  by (simp add: obj_key_def serviceCaConfigMap_def obj_namespace_def obj_name_def)

lemma wp_newCA_events:
  assumes "\<And>t e. st_events t = st_events s \<Longrightarrow> Q (Err e) t"
    and "\<And>t e ob bytes key status res.
           set_controller_reference r cr (SecretObj (tlsSecret r cr (Name cr @ ''-ca-certs'') bytes key))
             = Inr ob \<Longrightarrow>
           st_events t = st_events s @ [CreateEv ob res, StatusEv (Namespace cr) (Name cr) status] \<Longrightarrow>
           Q (Err e) t"
    and "\<And>t x ob bytes key res.
           set_controller_reference r cr (SecretObj (tlsSecret r cr (Name cr @ ''-ca-certs'') bytes key))
             = Inr ob \<Longrightarrow> st_events t = st_events s @ [CreateEv ob res] \<Longrightarrow> Q (Ok x) t"
  shows "wp (newCA cr r) Q s"
  unfolding newCA_def Let_def
  by (auto simp: wp_simps simp del: wp_setStatus wp_updateStatus
      split: prod.splits sum.splits option.splits
      intro!: wp_updateStatus_events intro: assms)

lemma keeps_createCA:
  assumes routes: "\<not> RoutesAvailable r"
  shows "state_io_rel (emits (operator_trace r cr)) (createCA cr r)"
proof -
  let ?n = "Name cr @ ''-ca-certs''"
  have n: "(KSecret, ?n) \<in> set (readable r cr)" and m: "(KConfigMap, ''service-ca.crt'') \<in> set (readable r cr)"
    using routes by (simp_all add: readable_def managed_def)
  have gov: "governed r cr False (Some (SecretObj (tlsSecret r cr ?n bytes key)))" for bytes key
    using routes by (intro governed_tlsSecret) auto
  note ca = set_controller_reference_cases [OF _ gov tlsSecret_key]
  have get: "state_io_rel (emits (operator_trace r cr))
      (do { found \<leftarrow> get_secret r (Namespace cr) ?n;
            (case found of Inl e \<Rightarrow> (if is_not_found e then newCA cr r else fail e)
             | Inr caSecret \<Rightarrow> liftE (loadCA r caSecret)) })"
    by (auto simp: state_io_rel_wp get_secret_def wp_simps is_not_found_def
        split: prod.splits sum.splits
        intro!: wp_newCA_events intro: emitsI [OF _ tr_read [OF n]] emitsI [OF _ ca(1)] emitsI [OF _ ca(2)])
  have publish: "state_io_rel (emits (operator_trace r cr)) (publishCA cr r pem)" for pem
    by (auto simp: state_io_rel_wp publishCA_def get_config_map_def wp_simps is_not_found_def
        split: prod.splits sum.splits option.splits
        intro: emitsI [OF _ tr_read [OF m]] emitsI [OF _ set_controller_reference_cases(1) [OF _ governed_serviceCa serviceCa_key]])
  show ?thesis
    unfolding createCA_def bind_and_then
    by (intro protocol.keeps_and_then get) (auto intro: protocol.keeps_and_then publish protocol.keeps_ok)
qed

lemma keeps_createServiceCert:
  assumes routes: "\<not> RoutesAvailable r"
    and n: "n \<in> {Name cr @ ''-app-certs'', Name cr @ ''-keycloak-certs''}"
  shows "state_io_rel (emits (operator_trace r cr)) (createServiceCert cr r ca key n serviceName serial)"
proof -
  have read: "(KSecret, n) \<in> set (readable r cr)"
    using routes n by (auto simp: readable_def managed_def)
  have gov: "governed r cr False (Some (SecretObj (tlsSecret r cr n bytes key)))" for bytes key
    using routes n by (intro governed_tlsSecret) auto
  note cert = set_controller_reference_cases(1) [OF _ gov tlsSecret_key]
  show ?thesis
    by (auto simp: state_io_rel_wp createServiceCert_def get_secret_def Let_def wp_simps is_not_found_def
        protocol.emits_refl split: prod.splits sum.splits option.splits
        intro: emitsI [OF _ tr_read [OF read]] emitsI [OF _ cert])
qed

section \<open>The other stages\<close>

lemmas builder_defs = postgresConfigMap_def postgresPod_def postgresService_def keycloakService_def
  appService_def appPod_def uploadConfig_def injectedCaConfigMap_def

lemma governed_builders:
  shows "governed r cr True (Some (ConfigMapObj (postgresConfigMap cr)))"
    and "governed r cr True (Some (PodObj (postgresPod cr r)))"
    and "governed r cr True (Some (ServiceObj (postgresService cr)))"
    and "governed r cr True (Some (ServiceObj (keycloakService cr r)))"
    and "governed r cr True (Some (ServiceObj (appService cr r)))"
    and "governed r cr True (Some (PodObj (appPod cr kurl aurl)))"
    and "governed r cr False (Some (ConfigMapObj (uploadConfig cr)))"
    and "governed r cr False (Some (ConfigMapObj (injectedCaConfigMap cr)))"
  by (simp_all add: governed_def builder_defs managed_def obj_namespace_def obj_name_def Let_def)

lemma governed_keycloakPod: "governed r cr True (map_option PodObj (keycloakPod cr url))"
  by (auto simp: governed_def keycloakPod_def managed_def obj_namespace_def obj_name_def Let_def
      split: option.splits)

definition route_named :: "'w HorreumReconciler \<Rightarrow> Horreum \<Rightarrow> string \<Rightarrow> route option \<Rightarrow> bool" where
  "route_named r cr sfx rt \<longleftrightarrow>
     (\<forall>x. rt = Some x \<longrightarrow> RoutesAvailable r \<and> om_namespace (rt_meta x) = Namespace cr
        \<and> om_name (rt_meta x) = Name cr @ sfx)"

lemma governed_route:
  assumes "route_named r cr sfx rt" and "sfx = [] \<or> sfx = ''-keycloak''"
  shows "governed r cr True (map_option RouteObj rt)"
proof -
  have "(KRoute, Name cr @ sfx, True) \<in> set (managed r cr)" if "RoutesAvailable r"
    using assms(2) that by (auto simp: managed_def)
  then show ?thesis
    using assms(1) by (cases rt) (simp_all add: governed_def route_named_def obj_namespace_def obj_name_def)
qed

lemma wp_route_named:
  "wp (route rs sfx cr r) (\<lambda>res t. \<forall>rt. res = Ok rt \<longrightarrow> route_named r cr sfx rt) s"
  by (auto simp: route_def wp_simps route_named_def split: res.splits intro!: wp_trivial)

lemma wp_keycloakRoute_named:
  "wp (keycloakRoute cr r) (\<lambda>res t. \<forall>rt. res = Ok rt \<longrightarrow> route_named r cr ''-keycloak'' rt) s"
  by (simp add: keycloakRoute_def Let_def wp_simps wp_route_named)

lemma wp_appRoute_named:
  "wp (appRoute cr r) (\<lambda>res t. \<forall>rt. res = Ok rt \<longrightarrow> route_named r cr [] rt) s"
  by (simp add: appRoute_def wp_route_named)

lemma keeps_tls: "state_io_rel (emits (operator_trace r cr)) (tls r cr rs)"
  unfolding tls_def Let_def get_secret_def
  by (intro protocol.keeps_if protocol.keeps_ok protocol.keeps_bind keeps_typed_get
      protocol.keeps_return)
    (auto simp: readable_def split: sum.splits
      intro: protocol.keeps_ok protocol.keeps_fail protocol.keeps_bind keeps_updateStatus)

lemma keeps_route: "state_io_rel (emits (operator_trace r cr)) (route rs sfx cr r)"
  unfolding route_def Let_def
  by (intro protocol.keeps_if protocol.keeps_and_then keeps_tls protocol.keeps_ok)

lemma keeps_keycloakRoute: "state_io_rel (emits (operator_trace r cr)) (keycloakRoute cr r)"
  unfolding keycloakRoute_def Let_def
  by (intro protocol.keeps_if keeps_route protocol.keeps_fail)

lemma governed_secret:
  "obj_key (SecretObj sec) = (KSecret, Namespace cr, n) \<Longrightarrow>
   n \<in> {dbAdminSecret cr, appUserSecret cr, keycloakAdminSecret cr, keycloakDbSecret cr,
        horreumAdminSecret cr} \<Longrightarrow>
   governed r cr False (Some (SecretObj sec))"
  by (auto simp: governed_def managed_def obj_key_def)

lemma keeps_ensureSecret:
  assumes "governed r cr False (Some (SecretObj sec))"
  shows "state_io_rel (emits (operator_trace r cr)) (ensureSecret r cr sec keys)"
  unfolding ensureSecret_def
  by (intro protocol.keeps_and_then protocol.keeps_ok keeps_ensureSame [OF assms])
    (simp add: nocompare_def)

lemma wp_newSecret_key: "wp (newSecret r cr n) (\<lambda>sec _. obj_key (SecretObj sec) = (KSecret, Namespace cr, n)) s"
  by (rule wp_mono [OF wp_newSecret]) blast

lemma keeps_newSecret_then:
  assumes "n \<in> {dbAdminSecret cr, appUserSecret cr, keycloakAdminSecret cr, keycloakDbSecret cr,
        horreumAdminSecret cr}"
    and "\<And>sec. governed r cr False (Some (SecretObj sec)) \<Longrightarrow>
        state_io_rel (emits (operator_trace r cr)) (f sec)"
  shows "state_io_rel (emits (operator_trace r cr)) (State_Monad.bind (newSecret r cr n) f)"
  by (rule protocol.keeps_bind_post [OF protocol.keeps_newSecret wp_newSecret_key])
    (auto intro: assms(2) governed_secret [OF _ assms(1)])

lemma governed_string_data:
  "governed r cr b (Some (SecretObj (sec\<lparr>sec_string_data := m\<rparr>))) \<longleftrightarrow> governed r cr b (Some (SecretObj sec))"
  by (simp add: governed_def obj_namespace_def obj_name_def)

lemma keeps_reconcileSecrets: "state_io_rel (emits (operator_trace r cr)) (reconcileSecrets r cr)"
  unfolding reconcileSecrets_def Let_def
  by (intro keeps_newSecret_then protocol.keeps_and_then keeps_ensureSecret protocol.keeps_bind
      protocol.keeps_generatePassword)
    (simp_all add: governed_string_data)

lemma keeps_reconcileCerts: "state_io_rel (emits (operator_trace r cr)) (reconcileCerts r cr)"
proof (cases "RoutesAvailable r")
  case True
  then show ?thesis
    unfolding reconcileCerts_def
    by (auto intro!: protocol.keeps_and_then protocol.keeps_ok
        keeps_ensureSame [OF governed_builders(8)] simp: nocompare_def)
next
  case False
  then show ?thesis
    unfolding reconcileCerts_def
    by (auto intro!: protocol.keeps_and_then keeps_createCA keeps_createServiceCert)
qed

lemma keeps_reconcilePostgres: "state_io_rel (emits (operator_trace r cr)) (reconcilePostgres r cr)"
  unfolding reconcilePostgres_def Let_def
  by (intro protocol.keeps_if protocol.keeps_and_then protocol.keeps_ok keeps_ensureDeleted
      keeps_ensureSame [OF governed_builders(1)] keeps_ensureSame [OF governed_builders(2)]
      keeps_ensureSame [OF governed_builders(3)] governed_builders) simp_all

lemma keeps_getService:
  assumes "(KService, om_name (svc_meta svc)) \<in> set (readable r cr)"
    and "om_namespace (svc_meta svc) = Namespace cr"
  shows "state_io_rel (emits (operator_trace r cr)) (getService r svc)"
  unfolding getService_def get_service_def assms(2)
  by (intro protocol.keeps_bind keeps_typed_get assms(1))
    (auto split: sum.splits intro: protocol.keeps_return)

lemma keeps_first_port: "state_io_rel (emits (operator_trace r cr)) (first_port svc)"
  by (auto simp: first_port_def split: list.splits intro: protocol.keeps_panic protocol.keeps_ok)

lemma keeps_getNodePort:
  assumes "state_io_rel (emits (operator_trace r cr)) (getService r svc)"
  shows "state_io_rel (emits (operator_trace r cr)) (getNodePort r svc)"
  unfolding getNodePort_def
  by (intro protocol.keeps_bind assms)
    (auto split: option.splits intro!: protocol.keeps_and_then keeps_first_port protocol.keeps_ok
      protocol.keeps_panic protocol.keeps_fail)

lemma keeps_getLoadBalancer:
  assumes "state_io_rel (emits (operator_trace r cr)) (getService r svc)"
  shows "state_io_rel (emits (operator_trace r cr)) (getLoadBalancer r svc)"
  unfolding getLoadBalancer_def
  by (intro protocol.keeps_bind assms)
    (auto split: option.splits list.splits intro!: protocol.keeps_and_then keeps_first_port
      protocol.keeps_ok protocol.keeps_panic)

lemma keeps_serviceUrl:
  assumes "state_io_rel (emits (operator_trace r cr)) (getService r svc)"
    and "governed r cr True (map_option RouteObj rt)"
  shows "state_io_rel (emits (operator_trace r cr)) (serviceUrl r cr ty svc rt p u)"
  unfolding serviceUrl_def
  by (intro protocol.keeps_if protocol.keeps_and_then keeps_getNodePort keeps_getLoadBalancer assms
      keeps_waiting protocol.keeps_ok keeps_ensureSame [OF assms(2)]) simp

lemma readable_services:
  "(KService, Name cr @ ''-keycloak'') \<in> set (readable r cr)" "(KService, Name cr) \<in> set (readable r cr)"
  by (simp_all add: readable_def managed_def)

lemma keeps_keycloakUrl:
  assumes "route_named r cr ''-keycloak'' rt"
  shows "state_io_rel (emits (operator_trace r cr)) (keycloakUrl r cr rt)"
  unfolding keycloakUrl_def
  by (intro protocol.keeps_if protocol.keeps_and_then protocol.keeps_ok keeps_serviceUrl
      keeps_getService keeps_ensureSame [OF governed_builders(4)] governed_route [OF assms])
    (simp_all add: keycloakService_def readable_services)

lemma keeps_unless_waiting:
  assumes "state_io_rel (emits (operator_trace r cr)) m"
    and "\<And>a. state_io_rel (emits (operator_trace r cr)) (k a)"
  shows "state_io_rel (emits (operator_trace r cr)) (unless_waiting m k)"
  unfolding unless_waiting_def
  by (intro protocol.keeps_and_then assms) (auto split: sum.splits intro: assms protocol.keeps_ok)

lemma keeps_appUrl: "state_io_rel (emits (operator_trace r cr)) (appUrl r cr)"
  unfolding appUrl_def
proof (rule protocol.keeps_and_then_post [where P = "route_named r cr []"])
  show "state_io_rel (emits (operator_trace r cr)) (appRoute cr r)"
    unfolding appRoute_def by (rule keeps_route)
  show "wp (appRoute cr r) (\<lambda>res _. \<forall>a. res = Ok a \<longrightarrow> route_named r cr [] a) s" for s
    by (rule wp_appRoute_named)
  fix rt
  assume rt: "route_named r cr [] rt"
  show "state_io_rel (emits (operator_trace r cr))
      (and_then (ensureSame r cr (Some (ServiceObj (appService cr r))) compareService nocheck)
        (\<lambda>_. serviceUrl r cr (Spec_ServiceType (Spec cr)) (appService cr r) rt
           ''Waiting for service node port'' ''Waiting for Horreum service URL''))"
    by (intro protocol.keeps_and_then keeps_serviceUrl keeps_getService
        keeps_ensureSame [OF governed_builders(5)] governed_route [OF rt])
      (simp_all add: appService_def readable_services)
qed

lemma keeps_silent_update:
  assumes "\<And>s. st_events (f s) = st_events s"
  shows "state_io_rel (emits (operator_trace r cr)) (State_Monad.update f)"
  by (auto simp: state_io_rel_wp wp_update intro: protocol.emits_silent assms)

lemma keeps_reconcileApplication:
  "state_io_rel (emits (operator_trace r cr)) (reconcileApplication r cr kurl)"
proof -
  have app: "state_io_rel (emits (operator_trace r cr)) (reconcileApp r cr kurl aurl)" for aurl
    unfolding reconcileApp_def
    by (intro protocol.keeps_and_then protocol.keeps_bind keeps_statusUpdate protocol.keeps_ok
        keeps_ensureSame [OF governed_builders(6)] keeps_ensureSame [OF governed_builders(7)])
      (simp_all add: nocompare_def)
  show ?thesis
    unfolding reconcileApplication_def setPublicUrl_def
    by (intro keeps_unless_waiting keeps_appUrl protocol.keeps_bind keeps_silent_update app) simp
qed

lemma keeps_reconcileKeycloakPod:
  assumes "route_named r cr ''-keycloak'' rt"
  shows "state_io_rel (emits (operator_trace r cr)) (reconcileKeycloakPod r cr rt kurl)"
  unfolding reconcileKeycloakPod_def Let_def
  by (intro protocol.keeps_if protocol.keeps_and_then protocol.keeps_ok keeps_ensureDeleted
      keeps_ensureSame [OF governed_keycloakPod] governed_keycloakPod governed_builders
      governed_route [OF assms]) simp_all

lemma keeps_reconcileKeycloak: "state_io_rel (emits (operator_trace r cr)) (reconcileKeycloak r cr)"
  unfolding reconcileKeycloak_def setKeycloakUrl_def
  by (rule protocol.keeps_and_then_post [OF keeps_keycloakRoute wp_keycloakRoute_named],
      intro keeps_unless_waiting keeps_keycloakUrl protocol.keeps_bind keeps_silent_update
        protocol.keeps_and_then keeps_reconcileKeycloakPod keeps_reconcileApplication) simp_all

lemma keeps_markReady: "state_io_rel (emits (operator_trace r cr)) (markReady r cr)"
  by (auto simp: state_io_rel_wp markReady_def wp_simps intro!: protocol.emits_silent split: prod.splits)

text \<open>The whole pass keeps to the grammar.\<close>

lemma keeps_reconcileCr: "state_io_rel (emits (operator_trace r cr)) (reconcileCr r cr)"
  unfolding reconcileCr_def
  by (intro protocol.keeps_if protocol.keeps_bind protocol.keeps_and_then keeps_updateStatus
      protocol.keeps_fail keeps_markReady keeps_reconcileCerts keeps_reconcileSecrets
      keeps_reconcilePostgres keeps_reconcileKeycloak)

end
