(* ===== verification/Outcome.thy ===== *)
theory Outcome
  imports Protocol
begin

text \<open>
  What \<^verbatim>\<open>ensureSame\<close> and \<^verbatim>\<open>ensureDeleted\<close> leave behind: every error is reported in the status, and the
  status stays \<^verbatim>\<open>Ready\<close> only if the object was found, matches and is healthy.
\<close>

lemma severity_le_simps [simp]:
  "SReady \<le> a" "a \<le> SError" "SError \<le> a \<longleftrightarrow> a = SError" "a \<le> SReady \<longleftrightarrow> a = SReady"
  by (cases a; simp add: less_eq_severity_def)+

lemma severity_of_cases:
  "severity_of st = SReady \<longleftrightarrow> st \<noteq> ''Error'' \<and> st \<noteq> ''Pending''"
  "severity_of st = SError \<longleftrightarrow> st = ''Error''"
  "severity_of st = SPending \<longleftrightarrow> st = ''Pending''"
  by (simp_all add: severity_of_def)

lemma wp_setStatus_report:
  assumes "\<And>t. st_events t = st_events s \<Longrightarrow> status_severity t = max (status_severity s) (severity_of status)
      \<Longrightarrow> Q () t"
    and "status = ''Error'' \<or> status = ''Pending''"
  shows "wp (setStatus r status reason) Q s"
  by (rule wp_mono [OF setStatus_severity [OF assms(2)]]) (auto intro: assms(1))

lemma wp_updateStatus_report:
  assumes "\<And>t status'. st_events t = st_events s @ [StatusEv (Namespace cr) (Name cr) status']
      \<Longrightarrow> severity_of (Status_Status status') = max (status_severity s) (severity_of status)
      \<Longrightarrow> status_severity t = max (status_severity s) (severity_of status) \<Longrightarrow> Q () t"
    and "status = ''Error'' \<or> status = ''Pending''"
  shows "wp (updateStatus r cr status reason) Q s"
  unfolding wp_updateStatus
  by (rule wp_setStatus_report [OF _ assms(2)]) (simp add: wp_statusUpdate assms(1))

text \<open>The last call of a failing operation writes the error into the status.\<close>

definition error_reported :: "Horreum \<Rightarrow> 'w st \<Rightarrow> bool" where
  "error_reported cr t \<longleftrightarrow>
     (\<exists>es status. st_events t = es @ [StatusEv (Namespace cr) (Name cr) status]
        \<and> Status_Status status = ''Error'') \<and> status_severity t = SError"

lemma error_reportedI:
  "st_events t = es @ [StatusEv (Namespace cr) (Name cr) status] \<Longrightarrow>
   severity_of (Status_Status status) = SError \<Longrightarrow> status_severity t = SError \<Longrightarrow> error_reported cr t"
  by (auto simp: error_reported_def severity_of_cases)

lemma error_reported_severity: "error_reported cr t \<Longrightarrow> status_severity t = SError"
  by (simp add: error_reported_def)

lemma wp_report_error:
  assumes "\<And>t. error_reported cr t \<Longrightarrow> Q () t"
  shows "wp (updateStatus r cr ''Error'' reason) Q s"
  by (rule wp_updateStatus_report) (auto intro!: assms error_reportedI)

lemma wp_createObj_outcome:
  assumes "\<And>t. status_severity t = max (status_severity s) SPending \<Longrightarrow> Q (Ok out) t"
    and "\<And>e t. error_reported cr t \<Longrightarrow> Q (Err e) t"
  shows "wp (createObj r cr ob out) Q s"
  unfolding createObj_def
  by (auto simp: wp_simps simp del: wp_setStatus wp_updateStatus split: prod.splits option.splits
      intro!: wp_report_error wp_setStatus_report assms)

lemma max_ready [simp]:
  "max a b = SReady \<longleftrightarrow> a = SReady \<and> b = SReady"
  "SReady = max a b \<longleftrightarrow> a = SReady \<and> b = SReady"
  by (auto simp add: max_def less_eq_severity_def split: severity.splits)

context resource_contract begin

text \<open>
  The three outcomes of \<^verbatim>\<open>ensureSame\<close>: a read that finds a matching, healthy object and nothing
  else; a report of \<^verbatim>\<open>Pending\<close> or \<^verbatim>\<open>Error\<close> in memory; or an error, which is written to the resource's
  status unless it comes from setting the owner reference, before any call.
\<close>

lemma wp_ensureSame_outcome:
  "wp (ensureSame r cr (Some ob) compare check)
     (\<lambda>x t. (\<exists>out. x = Ok (Some out) \<and> fetched r (obj_key ob) out \<and> compare ob out \<and> fst (check out)
               \<and> st_events t = st_events s @ [GetEv (obj_key ob) None] \<and> st_status t = st_status s)
          \<or> (\<exists>out. x = Ok out \<and> status_severity t = max (status_severity s) (status_severity t)
               \<and> status_severity t \<noteq> SReady)
          \<or> (\<exists>e. x = Err e \<and> error_reported cr t)
          \<or> (\<exists>e. x = Err e \<and> lib_owners (Lib r) cr ob = Inl e \<and> t = s)) s"
proof (cases "set_controller_reference r cr ob")
  case (Inl e)
  then show ?thesis
    by (auto simp: ensureSame_def wp_simps set_controller_reference_def split: sum.splits)
next
  case (Inr ob')
  note keys = set_controller_reference_Inr [OF Inr]
  from keys(3) obtain os where ob': "ob' = set_owners os ob" by blast
  have key: "(obj_kind ob', obj_namespace ob', obj_name ob') = obj_key ob"
    using keys(1) by (simp add: obj_key_def)
  have fetched: "fetched r (obj_key ob) out"
    if "client_get (Client r) (obj_kind (set_owners os ob)) (obj_namespace (set_owners os ob))
      (obj_name (set_owners os ob)) w = (Inr out, w')" for out w w'
    using fetchedI [OF that] key by (simp add: ob')
  show ?thesis
    using key
    by (auto simp: ensureSame_def Inr wp_simps get_obj_def ob' compare_owners
        simp del: wp_setStatus wp_updateStatus
        split: prod.splits sum.splits option.splits
        intro!: wp_report_error wp_setStatus_report wp_createObj_outcome
        dest: check_status check_severity fetched [simplified])
qed

end

text \<open>
  The outcomes of \<^verbatim>\<open>ensureDeleted\<close>, by what the read of the object's key returns in the world before the call:
  nothing to do if it is not found; otherwise the object that was read is deleted, in the world after the read.
  The error of a failed call is returned and reported.
\<close>

definition read_of :: "'w HorreumReconciler \<Rightarrow> obj \<Rightarrow> 'w \<Rightarrow> (go_error + obj) \<times> 'w" where
  "read_of r ob = client_get (Client r) (obj_kind ob) (obj_namespace ob) (obj_name ob)"

definition deleted_outcome :: "'w HorreumReconciler \<Rightarrow> Horreum \<Rightarrow> obj \<Rightarrow> 'w st \<Rightarrow> unit res \<Rightarrow> 'w st \<Rightarrow> bool" where
  "deleted_outcome r cr ob s x t \<longleftrightarrow>
     (case read_of r ob (st_world s) of
        (Inl e, w) \<Rightarrow>
          if e = NotFound then x = Ok () \<and> t = s\<lparr>st_world := w, st_events := st_events s @ [GetEv (obj_key ob) (Some NotFound)]\<rparr>
          else x = Err e \<and> error_reported cr t \<and> (\<exists>status. st_events t = st_events s @
            [GetEv (obj_key ob) (Some e), StatusEv (Namespace cr) (Name cr) status])
      | (Inr out, w) \<Rightarrow>
          (case cl_delete (Client r) out w of
             (None, w') \<Rightarrow> x = Ok () \<and> t = s\<lparr>st_world := w', st_events := st_events s @ [GetEv (obj_key ob) None, DeleteEv out None]\<rparr>
           | (Some e, w') \<Rightarrow> x = Err e \<and> error_reported cr t \<and> (\<exists>status. st_events t = st_events s @
               [GetEv (obj_key ob) None, DeleteEv out (Some e), StatusEv (Namespace cr) (Name cr) status])))"

lemma wp_report_error_event:
  assumes "\<And>t status. error_reported cr t \<Longrightarrow> st_events t = st_events s @ [StatusEv (Namespace cr) (Name cr) status] \<Longrightarrow> Q () t"
  shows "wp (updateStatus r cr ''Error'' reason) Q s"
  by (rule wp_updateStatus_report) (auto intro: assms error_reportedI)

lemma wp_ensureDeleted_exact: "wp (ensureDeleted r cr (Some ob)) (deleted_outcome r cr ob s) s"
  by (auto simp: ensureDeleted_def deleted_outcome_def read_of_def wp_simps get_obj_def obj_key_def is_not_found_def
      error_of_def simp del: wp_setStatus wp_updateStatus
      split: prod.splits sum.splits option.splits intro!: wp_report_error_event)

lemma wp_ensureDeleted_outcome:
  "wp (ensureDeleted r cr (Some ob))
     (\<lambda>x t. (x = Ok () \<and> st_status t = st_status s
               \<and> (st_events t = st_events s @ [GetEv (obj_key ob) (Some NotFound)]
                  \<or> (\<exists>out. fetched r (obj_key ob) out
                       \<and> st_events t = st_events s @ [GetEv (obj_key ob) None, DeleteEv out None])))
          \<or> (\<exists>e. x = Err e \<and> error_reported cr t)) s"
  by (auto simp: ensureDeleted_def wp_simps get_obj_def obj_key_def is_not_found_def
      simp del: wp_setStatus wp_updateStatus dest: fetchedI
      split: prod.splits sum.splits option.splits intro!: wp_report_error)

end
