(* ===== verification/Cluster.thy ===== *)
theory Cluster
  imports Reconcile
begin

text \<open>
  A concrete platform for examples: an API server that keeps its objects in memory and fills in
  what a real one fills in (secret data, node ports), a controller-runtime that
  sets one owner reference, and stand-ins for the random source and the cryptographic library.
  The theorems hold for any platform; this one shows that their hypotheses can be met.
\<close>

section \<open>The server's state\<close>

record memory =
  mem_objs :: "obj list"
  mem_crs :: "Horreum list"
  mem_time :: int
  mem_seed :: nat

definition mem_find :: "key \<Rightarrow> memory \<Rightarrow> obj option" where
  "mem_find key m = find (\<lambda>ob. obj_key ob = key) (mem_objs m)"

text \<open>Admission and defaulting of a created object.\<close>

fun admit :: "obj \<Rightarrow> obj" where
  "admit (PodObj p) = PodObj (p\<lparr>p_spec := (p_spec p)\<lparr>ps_rest := ''node-1''\<rparr>\<rparr>)"
| "admit (ServiceObj s) = ServiceObj (s\<lparr>svc_ports :=
     map (\<lambda>p. if svc_type s = ''NodePort'' \<and> sp_node p = 0 then p\<lparr>sp_node := 30080\<rparr> else p)
       (svc_ports s)\<rparr>)"
| "admit (SecretObj s) = SecretObj (s\<lparr>sec_data := sec_data s ++\<^sub>f sec_string_data s,
     sec_string_data := fmempty\<rparr>)"
| "admit (ConfigMapObj c) = ConfigMapObj c"
| "admit (RouteObj rt) = RouteObj rt"

lemma admit_key [simp]: "obj_key (admit ob) = obj_key ob"
  by (cases ob) (simp_all add: obj_key_def obj_name_def obj_namespace_def Let_def)

definition mem_get :: "kind \<Rightarrow> (obj \<Rightarrow> 'a option) \<Rightarrow> string \<Rightarrow> string \<Rightarrow> memory \<Rightarrow> (go_error + 'a) \<times> memory"
where
  "mem_get k proj ns n m =
     (case mem_find (k, ns, n) m of
        None \<Rightarrow> (Inl NotFound, m)
      | Some ob \<Rightarrow> (case proj ob of None \<Rightarrow> (Inl NotFound, m) | Some x \<Rightarrow> (Inr x, m)))"

definition mem_create :: "obj \<Rightarrow> memory \<Rightarrow> go_error option \<times> memory" where
  "mem_create ob m =
     (if mem_find (obj_key ob) m = None then (None, m\<lparr>mem_objs := mem_objs m @ [admit ob]\<rparr>)
      else (Some (LibError ''already exists''), m))"

definition mem_delete :: "obj \<Rightarrow> memory \<Rightarrow> go_error option \<times> memory" where
  "mem_delete ob m =
     (if mem_find (obj_key ob) m = None then (Some NotFound, m)
      else (None, m\<lparr>mem_objs := filter (\<lambda>x. obj_key x \<noteq> obj_key ob) (mem_objs m)\<rparr>))"

definition mem_get_horreum :: "string \<Rightarrow> string \<Rightarrow> memory \<Rightarrow> (go_error + Horreum) \<times> memory" where
  "mem_get_horreum ns n m =
     (case find (\<lambda>cr. Namespace cr = ns \<and> Name cr = n) (mem_crs m) of
        None \<Rightarrow> (Inl NotFound, m) | Some cr \<Rightarrow> (Inr cr, m))"

definition mem_update_status :: "Horreum \<Rightarrow> memory \<Rightarrow> memory" where
  "mem_update_status cr m =
     m\<lparr>mem_crs := map (\<lambda>x. if Namespace x = Namespace cr \<and> Name x = Name cr
                          then x\<lparr>Status := Status cr\<rparr> else x) (mem_crs m)\<rparr>"

definition mem_client :: "memory client" where
  "mem_client =
     \<lparr>cl_get_horreum = mem_get_horreum,
      cl_get_pod = mem_get KPod (\<lambda>ob. case ob of PodObj x \<Rightarrow> Some x | _ \<Rightarrow> None),
      cl_get_service = mem_get KService (\<lambda>ob. case ob of ServiceObj x \<Rightarrow> Some x | _ \<Rightarrow> None),
      cl_get_secret = mem_get KSecret (\<lambda>ob. case ob of SecretObj x \<Rightarrow> Some x | _ \<Rightarrow> None),
      cl_get_config_map = mem_get KConfigMap (\<lambda>ob. case ob of ConfigMapObj x \<Rightarrow> Some x | _ \<Rightarrow> None),
      cl_get_route = mem_get KRoute (\<lambda>ob. case ob of RouteObj x \<Rightarrow> Some x | _ \<Rightarrow> None),
      cl_create = mem_create,
      cl_delete = mem_delete,
      cl_update_status = mem_update_status\<rparr>"

section \<open>The libraries\<close>

definition mem_library :: "memory library" where
  "mem_library =
     \<lparr>lib_now = (\<lambda>m. (mem_time m, m\<lparr>mem_time := mem_time m + 1\<rparr>)),
      lib_seed = (\<lambda>_ m. m),
      lib_rand = (\<lambda>m. (mem_seed m, m\<lparr>mem_seed := mem_seed m + 1\<rparr>)),
      lib_owners = (\<lambda>cr ob. Inr [\<lparr>or_kind = ''Horreum'', or_name = Name cr, or_controller = True\<rparr>]),
      lib_deep_derivative = (\<lambda>p1 p2. (if ps_rest p1 = [] then p1\<lparr>ps_rest := ps_rest p2\<rparr> else p1) = p2)\<rparr>"

text \<open>
  Stand-ins for the encodings that can be undone: a certificate is its kind and common name, a key
  pair is the length of the public part followed by both parts, a PEM block is its type and bytes.
\<close>

definition mem_x509 :: "certificate \<Rightarrow> string" where
  "mem_x509 c = (if crt_is_ca c then CHR ''C'' else CHR ''S'') # crt_common_name c"

definition mem_x509_parse :: "string \<Rightarrow> certificate" where
  "mem_x509_parse b =
     (case b of [] \<Rightarrow> caTemplate 0 0
      | k # n \<Rightarrow> (caTemplate 0 0)\<lparr>crt_is_ca := (k = CHR ''C''), crt_common_name := n\<rparr>)"

definition mem_pkcs1 :: "rsa_key \<Rightarrow> string" where
  "mem_pkcs1 k = replicate (length (rsa_public k)) CHR ''x'' @ CHR ''|'' # rsa_public k @ rsa_private k"

definition mem_pkcs1_parse :: "string \<Rightarrow> rsa_key" where
  "mem_pkcs1_parse b =
     (let n = length (takeWhile (\<lambda>c. c = CHR ''x'') b); rest = drop (n + 1) b
      in \<lparr>rsa_public = take n rest, rsa_private = drop n rest\<rparr>)"

definition mem_pem_decode :: "string \<Rightarrow> string option" where
  "mem_pem_decode b =
     (if CHR '':'' \<in> set b then Some (tl (dropWhile (\<lambda>c. c \<noteq> CHR '':'') b)) else None)"

definition mem_crypto :: "memory crypto" where
  "mem_crypto =
     \<lparr>rsa_generate = (\<lambda>m. (Inr \<lparr>rsa_public = ''public'', rsa_private = ''private''\<rparr>, m)),
      x509_create = (\<lambda>template parent public key m. (Inr (mem_x509 template), m)),
      x509_parse = (\<lambda>b. Inr (mem_x509_parse b)),
      pkcs1_marshal = mem_pkcs1,
      pkcs1_parse = (\<lambda>b. Inr (mem_pkcs1_parse b)),
      pem_encode = (\<lambda>ty b. ty @ CHR '':'' # b),
      pem_decode = mem_pem_decode\<rparr>"

definition mem_reconciler :: "bool \<Rightarrow> memory HorreumReconciler" where
  "mem_reconciler routes =
     \<lparr>Client = mem_client, Lib = mem_library, Crypto = mem_crypto,
      RoutesAvailable = routes, UseRedHatImages = routes\<rparr>"

text \<open>A resource as in \<^verbatim>\<open>config/samples\<close>, and a cluster that holds nothing else.\<close>

definition sample_cr :: Horreum where
  "sample_cr = zero_Horreum
     \<lparr>Meta := zero_meta\<lparr>om_name := ''horreum'', om_namespace := ''default''\<rparr>,
      Spec := zero_HorreumSpec\<lparr>Spec_NodeHost := ''127.0.0.1''\<rparr>\<rparr>"

definition sample_memory :: "Horreum \<Rightarrow> memory" where
  "sample_memory cr = \<lparr>mem_objs = [], mem_crs = [cr], mem_time = 0, mem_seed = 7\<rparr>"

definition sample_state :: "memory st" where
  "sample_state =
     \<lparr>st_world = sample_memory sample_cr, st_status = zero_HorreumStatus, st_events = []\<rparr>"

text \<open>
  The kubelet starts every pod and reports it ready; the router admits every route, under the host it
  has or a new one of its own domain.
\<close>

fun router_host :: "route \<Rightarrow> string" where
  "router_host rt =
     (case rt_ingress rt of
        i # _ \<Rightarrow> if ri_host i = [] then om_name (rt_meta rt) @ ''.apps.example.com'' else ri_host i
      | [] \<Rightarrow> om_name (rt_meta rt) @ ''.apps.example.com'')"

fun bring_up :: "obj \<Rightarrow> obj" where
  "bring_up (PodObj p) = PodObj (p\<lparr>p_statuses := [],
     p_conditions := [\<lparr>cond_type = ''Ready'', cond_status = ''True''\<rparr>]\<rparr>)"
| "bring_up (RouteObj rt) = RouteObj (rt\<lparr>rt_ingress :=
     [\<lparr>ri_host = router_host rt,
       ri_conditions = [\<lparr>cond_type = ''Admitted'', cond_status = ''True''\<rparr>]\<rparr>]\<rparr>)"
| "bring_up ob = ob"

lemma bring_up_key [simp]: "obj_key (bring_up ob) = obj_key ob"
  by (cases ob) (simp_all add: obj_key_def obj_name_def obj_namespace_def)

definition mem_bring_up :: "memory \<Rightarrow> memory" where
  "mem_bring_up m = m\<lparr>mem_objs := map bring_up (mem_objs m)\<rparr>"

end
