(* ===== verification/Safety.thy ===== *)
theory Safety
  imports Protocol Cluster
begin

text \<open>
  Safety properties of the API calls of a pass, whatever the API server answers: they are rule
  inductions over the protocol grammar, lifted to \<^verbatim>\<open>Reconcile\<close>.
\<close>

section \<open>From the grammar to the pass\<close>

abbreviation foundCr :: "'w HorreumReconciler \<Rightarrow> string \<Rightarrow> string \<Rightarrow> 'w \<Rightarrow> go_error + Horreum" where
  "foundCr r namespace name w \<equiv> fst (cl_get_horreum (Client r) namespace name w)"

abbreviation pass_events :: "'w HorreumReconciler \<Rightarrow> string \<Rightarrow> string \<Rightarrow> 'w \<Rightarrow> event list" where
  "pass_events r namespace name w \<equiv> st_events (snd (runPass r namespace name w))"

lemma pass_protocol:
  "\<exists>es. pass_events r ns n w = GetHorreumEv ns n (error_of (foundCr r ns n w)) # es
      \<and> (case foundCr r ns n w of Inl e \<Rightarrow> es = [] | Inr cr \<Rightarrow> operator_trace r cr es)"
proof -
  let ?s = "\<lparr>st_world = w, st_status = zero_HorreumStatus, st_events = []\<rparr>"
  let ?ev = "GetHorreumEv ns n (error_of (foundCr r ns n w))"
  let ?P = "\<lambda>t. \<exists>es. st_events t = ?ev # es
      \<and> (case foundCr r ns n w of Inl e \<Rightarrow> es = [] | Inr cr \<Rightarrow> operator_trace r cr es)"
  have body: "wp (reconcileCr r cr) (\<lambda>_ t. \<exists>es. st_events t = st_events u @ es \<and> operator_trace r cr es) u"
    for cr u
    using keeps_reconcileCr [of r cr] by (simp add: state_io_rel_wp emits_def)
  have "wp (Reconcile r ns n) (\<lambda>_. ?P) ?s"
    by (auto simp: Reconcile_def wp_simps split: prod.splits sum.splits
        intro!: wp_mono [OF body])
  then show ?thesis
    by (simp add: runPass_def wp_def case_prod_beta)
qed

text \<open>Facts about single calls that hold for the first call and for every call of the grammar.\<close>

lemma pass_events_all:
  assumes "P (GetHorreumEv ns n (error_of (foundCr r ns n w)))"
    and "\<And>cr es. foundCr r ns n w = Inr cr \<Longrightarrow> operator_trace r cr es \<Longrightarrow> list_all P es"
  shows "list_all P (pass_events r ns n w)"
  using pass_protocol [of r ns n w] assms by (cases "foundCr r ns n w") fastforce+

section \<open>What is deleted and created\<close>

definition deleted_objs :: "event list \<Rightarrow> obj list" where
  "deleted_objs es = concat (map (\<lambda>e. case e of DeleteEv ob _ \<Rightarrow> [ob] | _ \<Rightarrow> []) es)"

definition created_objs :: "event list \<Rightarrow> obj list" where
  "created_objs es = concat (map (\<lambda>e. case e of CreateEv ob _ \<Rightarrow> [ob] | _ \<Rightarrow> []) es)"

lemma list_all_created:
  "list_all P (created_objs es) \<longleftrightarrow> list_all (\<lambda>e. case e of CreateEv ob _ \<Rightarrow> P ob | _ \<Rightarrow> True) es"
  by (induction es) (auto simp: created_objs_def split: event.splits)

lemma list_all_deleted:
  "list_all P (deleted_objs es) \<longleftrightarrow> list_all (\<lambda>e. case e of DeleteEv ob _ \<Rightarrow> P ob | _ \<Rightarrow> True) es"
  by (induction es) (auto simp: deleted_objs_def split: event.splits)

lemma fetched_kind: "fetched r (k, ns, n) ob \<Longrightarrow> obj_kind ob = k"
  by (auto simp: fetched_def dest: client_get_kind)

lemma managed_deletable_kind: "(k, n, True) \<in> set (managed r cr) \<Longrightarrow> k \<noteq> KSecret"
  by (auto simp: managed_def split: if_splits)

lemma trace_deletes: "operator_trace r cr es \<Longrightarrow> list_all (\<lambda>ob. obj_kind ob \<noteq> KSecret) (deleted_objs es)"
  unfolding list_all_deleted
  by (induction rule: operator_trace.induct)
    (auto dest: managed_deletable_kind fetched_kind)

lemma managed_kind: "(k, n, b) \<in> set (managed r cr) \<Longrightarrow> k \<in> set (ownedKinds r)"
  by (auto simp: managed_def ownedKinds_def split: if_splits)

lemma trace_creates:
  "operator_trace r cr es \<Longrightarrow>
   list_all (\<lambda>ob. obj_kind ob \<in> set (ownedKinds r) \<and> owned r cr ob) (created_objs es)"
  unfolding list_all_created
  by (induction rule: operator_trace.induct) (auto simp: obj_key_def dest: managed_kind)

section \<open>Creation is guarded\<close>

text \<open>
  \<open>guarded p2 p1 es\<close>: in the calls \<open>es\<close>, made after the two calls \<open>p2\<close> and \<open>p1\<close>, every creation comes
  right after a read that found no object with its key, or after a read that found one and its
  successful deletion.
\<close>

fun deletion_done :: "event option \<Rightarrow> bool" where
  "deletion_done (Some (DeleteEv _ None)) = True"
| "deletion_done _ = False"

fun guarded :: "event option \<Rightarrow> event option \<Rightarrow> event list \<Rightarrow> bool" where
  "guarded p2 p1 [] = True"
| "guarded p2 p1 (CreateEv ob res # es) =
     ((p1 = Some (GetEv (obj_key ob) (Some NotFound))
        \<or> p2 = Some (GetEv (obj_key ob) None) \<and> deletion_done p1)
      \<and> guarded p1 (Some (CreateEv ob res)) es)"
| "guarded p2 p1 (e # es) = guarded p1 (Some e) es"

lemma guarded_weaken:
  "guarded p2 p1 es \<Longrightarrow> p2 = None \<or> p2 = q2 \<Longrightarrow> p1 = None \<or> p1 = q1 \<Longrightarrow> guarded q2 q1 es"
  by (induction p2 p1 es arbitrary: q2 q1 rule: guarded.induct) auto

lemma guarded_append:
  "guarded p2 p1 xs \<Longrightarrow> guarded None None ys \<Longrightarrow> guarded p2 p1 (xs @ ys)"
proof (induction p2 p1 xs rule: guarded.induct)
  case (1 p2 p1)
  then show ?case using guarded_weaken [of None None ys p2 p1] by simp
qed auto

interpretation guarded: trace_language "guarded None None"
  by unfold_locales (auto intro: guarded_append)

lemma trace_guarded: "operator_trace r cr es \<Longrightarrow> guarded None None es"
  by (induction rule: operator_trace.induct) (auto intro: guarded_append)

section \<open>Namespaces\<close>

definition event_namespace :: "event \<Rightarrow> string" where
  "event_namespace e =
     (case e of GetHorreumEv ns _ _ \<Rightarrow> ns
      | GetEv (_, ns, _) _ \<Rightarrow> ns
      | CreateEv ob _ \<Rightarrow> obj_namespace ob
      | DeleteEv ob _ \<Rightarrow> obj_namespace ob
      | StatusEv ns _ _ \<Rightarrow> ns)"

text \<open>Documented behaviour of the API server: a read returns the object that was asked for.\<close>

definition reads_by_key :: "'w HorreumReconciler \<Rightarrow> bool" where
  "reads_by_key r \<longleftrightarrow>
     (\<forall>k ns n w ob w'. client_get (Client r) k ns n w = (Inr ob, w') \<longrightarrow> obj_key ob = (k, ns, n)) \<and>
     (\<forall>ns n w cr w'. cl_get_horreum (Client r) ns n w = (Inr cr, w') \<longrightarrow>
        Namespace cr = ns \<and> Name cr = n)"

lemma reads_by_key_fetched: "reads_by_key r \<Longrightarrow> fetched r key ob \<Longrightarrow> obj_key ob = key"
  unfolding reads_by_key_def fetched_def by (cases key) fastforce

lemma reads_by_key_cr:
  "reads_by_key r \<Longrightarrow> foundCr r ns n w = Inr cr \<Longrightarrow> Namespace cr = ns \<and> Name cr = n"
  unfolding reads_by_key_def by (metis prod.collapse)

lemma trace_namespace:
  "operator_trace r cr es \<Longrightarrow> reads_by_key r \<Longrightarrow> list_all (\<lambda>e. event_namespace e = Namespace cr) es"
  by (induction rule: operator_trace.induct)
    (auto simp: event_namespace_def obj_key_def dest: reads_by_key_fetched)

section \<open>Permissions\<close>

text \<open>The kind of object that a call names.\<close>

fun event_kind :: "event \<Rightarrow> kind option" where
  "event_kind (GetEv (k, _, _) _) = Some k"
| "event_kind (CreateEv ob _) = Some (obj_kind ob)"
| "event_kind (DeleteEv ob _) = Some (obj_kind ob)"
| "event_kind _ = None"

text \<open>
  The kubebuilder markers above \<^verbatim>\<open>Reconcile\<close>, in order, from which the operator's role is generated: API
  group, resources, resource names (none: any name) and verbs.
\<close>

record rbac_rule =
  rule_group :: string
  rule_resources :: "string list"
  rule_names :: "string list"
  rule_verbs :: "string list"

definition rbac :: "string \<Rightarrow> string list \<Rightarrow> string list \<Rightarrow> rbac_rule" where
  "rbac grp resources verbs =
     \<lparr>rule_group = grp, rule_resources = resources, rule_names = [], rule_verbs = verbs\<rparr>"

abbreviation all_verbs :: "string list" where
  "all_verbs \<equiv> [''get'', ''list'', ''watch'', ''create'', ''update'', ''patch'', ''delete'']"

definition rbacMarkers :: "rbac_rule list" where
  "rbacMarkers =
     [rbac ''hyperfoil.io'' [''horreums''] all_verbs,
      rbac ''hyperfoil.io'' [''horreums/status''] [''get'', ''update'', ''patch''],
      rbac ''hyperfoil.io'' [''horreums/finalizers''] [''update''],
      rbac ''core'' [''pods'', ''services'', ''services/finalizers'', ''endpoints'',
        ''persistentvolumeclaims'', ''events'', ''configmaps'', ''secrets''] all_verbs,
      rbac ''monitoring.coreos.com'' [''servicemonitors''] [''get'', ''create''],
      (rbac ''apps'' [''deployments/finalizers''] [''update''])\<lparr>rule_names := [''horreum-operator'']\<rparr>,
      rbac ''route.openshift.io'' [''routes'', ''routes/custom-host''] all_verbs,
      (rbac ''security.openshift.io'' [''securitycontextconstraints''] [''use''])\<lparr>rule_names := [''nonroot'']\<rparr>]"

text \<open>A call as the API server authorises it: group, resource, verb and the name of the object.\<close>

type_synonym permission = "string \<times> string \<times> string"

definition allows :: "rbac_rule \<Rightarrow> permission \<Rightarrow> string \<Rightarrow> bool" where
  "allows rule p n \<longleftrightarrow>
     (case p of (grp, resource, verb) \<Rightarrow> rule_group rule = grp \<and> resource \<in> set (rule_resources rule)
        \<and> verb \<in> set (rule_verbs rule) \<and> (rule_names rule = [] \<or> n \<in> set (rule_names rule)))"

fun kind_resource :: "kind \<Rightarrow> string \<times> string" where
  "kind_resource KPod = (''core'', ''pods'')"
| "kind_resource KService = (''core'', ''services'')"
| "kind_resource KSecret = (''core'', ''secrets'')"
| "kind_resource KConfigMap = (''core'', ''configmaps'')"
| "kind_resource KRoute = (''route.openshift.io'', ''routes'')"

definition on_kind :: "kind \<Rightarrow> string \<Rightarrow> permission" where
  "on_kind k verb = (case kind_resource k of (grp, resource) \<Rightarrow> (grp, resource, verb))"

fun request_of :: "event \<Rightarrow> permission \<times> string" where
  "request_of (GetHorreumEv _ n _) = ((''hyperfoil.io'', ''horreums'', ''get''), n)"
| "request_of (GetEv (k, _, n) _) = (on_kind k ''get'', n)"
| "request_of (CreateEv ob _) = (on_kind (obj_kind ob) ''create'', obj_name ob)"
| "request_of (DeleteEv ob _) = (on_kind (obj_kind ob) ''delete'', obj_name ob)"
| "request_of (StatusEv _ n _) = ((''hyperfoil.io'', ''horreums/status'', ''update''), n)"

text \<open>The permissions that passes use, a small part of those the markers ask for.\<close>

definition usedPermissions :: "'w HorreumReconciler \<Rightarrow> permission list" where
  "usedPermissions r =
     [(''hyperfoil.io'', ''horreums'', ''get''), (''hyperfoil.io'', ''horreums/status'', ''update'')] @
     concat (map (\<lambda>k. map (on_kind k) [''get'', ''create'', ''delete'']) [KPod, KService, KConfigMap]) @
     map (on_kind KSecret) [''get'', ''create''] @
     (if RoutesAvailable r then map (on_kind KRoute) [''get'', ''create'', ''delete''] else [])"

lemma used_granted: "p \<in> set (usedPermissions r) \<Longrightarrow> list_ex (\<lambda>rule. allows rule p n) rbacMarkers"
proof -
  have "list_all (\<lambda>p. list_ex (\<lambda>rule. allows rule p n) rbacMarkers) (usedPermissions r)"
    by (simp add: usedPermissions_def on_kind_def rbacMarkers_def rbac_def allows_def)
  then show "p \<in> set (usedPermissions r) \<Longrightarrow> list_ex (\<lambda>rule. allows rule p n) rbacMarkers"
    by (simp add: list_all_iff)
qed

lemma kind_used:
  assumes "k = KRoute \<Longrightarrow> RoutesAvailable r"
  shows "on_kind k ''get'' \<in> set (usedPermissions r)" and "on_kind k ''create'' \<in> set (usedPermissions r)"
    and "k \<noteq> KSecret \<Longrightarrow> on_kind k ''delete'' \<in> set (usedPermissions r)"
  using assms by (cases k; simp add: usedPermissions_def)+

lemma event_used:
  assumes "event_kind e = Some KRoute \<Longrightarrow> RoutesAvailable r"
    and "\<And>ob err. e = DeleteEv ob err \<Longrightarrow> obj_kind ob \<noteq> KSecret"
  shows "fst (request_of e) \<in> set (usedPermissions r)"
proof (cases e)
  case (GetEv key err)
  then show ?thesis using assms(1) by (cases key) (simp add: kind_used(1))
next
  case (CreateEv ob err)
  then show ?thesis using assms(1) by (simp add: kind_used(2))
next
  case (DeleteEv ob err)
  then show ?thesis using assms by (simp add: kind_used(3))
qed (simp_all add: usedPermissions_def)

section \<open>The in-memory server reads by key\<close>

lemma mem_find_key: "mem_find key m = Some ob \<Longrightarrow> obj_key ob = key"
  by (auto simp: mem_find_def find_Some_iff)

lemma mem_client_get:
  "client_get mem_client k ns n m =
     (case mem_find (k, ns, n) m of None \<Rightarrow> (Inl NotFound, m) | Some ob \<Rightarrow> (Inr ob, m))"
  by (cases k)
    (auto simp: client_get_def mem_client_def mem_get_def obj_key_def apfst_def
      dest: mem_find_key split: option.splits obj.splits)

lemma mem_reconciler_client [simp]: "Client (mem_reconciler b) = mem_client"
  by (simp add: mem_reconciler_def)

lemma mem_client_get_horreum [simp]: "cl_get_horreum mem_client = mem_get_horreum"
  by (simp add: mem_client_def)

lemma mem_reads_by_key: "reads_by_key (mem_reconciler b)"
  by (auto simp: reads_by_key_def mem_client_get mem_get_horreum_def find_Some_iff
      dest: mem_find_key split: option.splits)

section \<open>Properties of every pass\<close>

text \<open>
  C1: the API calls of a pass are the read of the resource followed, if that was found, by a word
  of the protocol grammar: reads of the resource's objects, creations of objects the resource owns
  right after a read that found none, deletions and replacements of replaceable objects right after
  a read, and status updates of the resource; nothing else, whatever the server answers.
\<close>

theorem pass_follows_protocol:
  "\<exists>es. pass_events r ns n w = GetHorreumEv ns n (error_of (foundCr r ns n w)) # es
      \<and> (case foundCr r ns n w of Inl e \<Rightarrow> es = [] | Inr cr \<Rightarrow> operator_trace r cr es)"
  by (rule pass_protocol)

text \<open>
  C8: no pass deletes a secret, so generated passwords, the certificate authority and the user's
  certificates are never lost, whatever the server answers.
\<close>

theorem pass_deletes_no_secret:
  "list_all (\<lambda>ob. obj_kind ob \<noteq> KSecret) (deleted_objs (pass_events r ns n w))"
  unfolding list_all_deleted
  by (rule pass_events_all) (auto simp flip: list_all_deleted intro: trace_deletes)

text \<open>
  C10: every object a pass creates is of a kind the manager watches for the operator, and carries
  the owner references that controller-runtime computed for the resource.
\<close>

theorem pass_creates_owned:
  "list_all (\<lambda>ob. obj_kind ob \<in> set (ownedKinds r)
       \<and> (\<exists>cr. foundCr r ns n w = Inr cr \<and> owned r cr ob))
     (created_objs (pass_events r ns n w))"
  unfolding list_all_created
proof (rule pass_events_all)
  fix cr es
  assume "foundCr r ns n w = Inr cr" and "operator_trace r cr es"
  then show "list_all (\<lambda>e. case e of CreateEv ob _ \<Rightarrow> obj_kind ob \<in> set (ownedKinds r)
       \<and> (\<exists>cr. foundCr r ns n w = Inr cr \<and> owned r cr ob) | _ \<Rightarrow> True) es"
    using trace_creates unfolding list_all_created by (fastforce simp: list_all_iff split: event.splits)
qed simp

text \<open>
  C9: every creation of a pass comes right after a read that found no object with its key, or
  right after a read that found one and the successful deletion of what was read.
\<close>

theorem pass_creates_guarded: "guarded None None (pass_events r ns n w)"
proof (cases "foundCr r ns n w")
  case (Inr cr)
  then obtain es where "pass_events r ns n w = GetHorreumEv ns n None # es" and "operator_trace r cr es"
    using pass_protocol [of r ns n w] by auto
  then show ?thesis using guarded_weaken [OF trace_guarded] by simp
qed (use pass_protocol [of r ns n w] in auto)

text \<open>
  C11: if reads return the object that was asked for, then every call of a pass stays in the
  namespace of the request.
\<close>

theorem pass_stays_in_namespace:
  assumes "reads_by_key r"
  shows "list_all (\<lambda>e. event_namespace e = ns) (pass_events r ns n w)"
proof (rule pass_events_all)
  fix cr es
  assume "foundCr r ns n w = Inr cr" and "operator_trace r cr es"
  then show "list_all (\<lambda>e. event_namespace e = ns) es"
    using trace_namespace [OF _ assms] reads_by_key_cr [OF assms] by blast
qed (simp add: event_namespace_def)

theorem pass_stays_in_namespace_witness:
  "list_all (\<lambda>e. event_namespace e = ''default'')
     (pass_events (mem_reconciler False) ''default'' ''horreum'' (sample_memory sample_cr))"
  by (rule pass_stays_in_namespace [OF mem_reads_by_key])

text \<open>On a cluster without routes the table of managed objects has none.\<close>

lemma readable_no_route: "\<not> RoutesAvailable r \<Longrightarrow> (k, n) \<in> set (readable r cr) \<Longrightarrow> k \<noteq> KRoute"
  by (auto simp: readable_def managed_def)

lemma trace_no_route:
  "operator_trace r cr es \<Longrightarrow> \<not> RoutesAvailable r \<Longrightarrow>
   list_all (\<lambda>e. event_kind e \<noteq> Some KRoute) es"
  by (induction rule: operator_trace.induct)
    (auto simp: obj_key_def dest!: managed_readable fetched_kind dest: readable_no_route)

text \<open>
  C13: on a cluster without the route API the operator never reads, creates or deletes a route.
\<close>

theorem pass_without_routes:
  assumes "\<not> RoutesAvailable r"
  shows "list_all (\<lambda>e. event_kind e \<noteq> Some KRoute) (pass_events r ns n w)"
  by (rule pass_events_all) (simp_all add: trace_no_route assms)

theorem pass_without_routes_witness:
  "list_all (\<lambda>e. event_kind e \<noteq> Some KRoute)
     (pass_events (mem_reconciler False) ''default'' ''horreum'' (sample_memory sample_cr))"
  by (rule pass_without_routes) (simp add: mem_reconciler_def)

text \<open>
  C40: the role generated from the kubebuilder markers is sufficient: every call of a pass is granted by one of the
  markers, and is one of a short list of requests. Of the objects that it manages, a pass reads, creates and deletes pods,
  services and config maps, reads and creates (but does not delete) secrets, and touches routes only where
  there are routes; of the resource it reads the object and updates the status.
\<close>

theorem pass_permitted:
  "list_all (\<lambda>e. case request_of e of (p, n) \<Rightarrow>
       p \<in> set (usedPermissions r) \<and> list_ex (\<lambda>rule. allows rule p n) rbacMarkers)
     (pass_events r ns n w)"
proof -
  let ?P = "\<lambda>e. fst (request_of e) \<in> set (usedPermissions r)"
  have "list_all ?P (pass_events r ns n w)"
  proof (rule pass_events_all)
    fix cr es
    assume es: "operator_trace r cr es"
    have "list_all (\<lambda>e. event_kind e = Some KRoute \<longrightarrow> RoutesAvailable r) es"
      using trace_no_route [OF es] by (cases "RoutesAvailable r") (simp_all add: list_all_iff)
    moreover have "list_all (\<lambda>ob. obj_kind ob \<noteq> KSecret) (deleted_objs es)"
      by (rule trace_deletes [OF es])
    ultimately show "list_all ?P es"
      unfolding list_all_deleted by (fastforce simp: list_all_iff intro!: event_used)
  qed (simp add: usedPermissions_def)
  then show ?thesis
    by (auto simp: list_all_iff used_granted split: prod.splits)
qed

end
