(* ===== verification/Quiet.thy ===== *)
theory Quiet
  imports Outcome Safety
begin

text \<open>
  The status tells the truth about writes: a pass that creates or replaces anything but its own
  certificates ends with the status \<^verbatim>\<open>Pending\<close> or \<^verbatim>\<open>Error\<close>. The relation below holds between the
  states around every stage after the status was set to \<^verbatim>\<open>Ready\<close>: the severity does not drop, and
  if it is still \<^verbatim>\<open>Ready\<close> at the end, the calls in between wrote nothing that must be reported.
\<close>

section \<open>The relation\<close>

text \<open>
  The writes that need no report: the certificates of a cluster without routes, and the deletion
  of the own objects of a component that the resource disables.
\<close>

definition certKeys :: "'w HorreumReconciler \<Rightarrow> Horreum \<Rightarrow> key list" where
  "certKeys r cr =
     (if RoutesAvailable r then []
      else [(KSecret, Namespace cr, Name cr @ ''-ca-certs''), (KConfigMap, Namespace cr, ''service-ca.crt''),
            (KSecret, Namespace cr, Name cr @ ''-app-certs''),
            (KSecret, Namespace cr, Name cr @ ''-keycloak-certs'')])"

text \<open>
  The objects of the disabled components: the pod and the service of a database that is switched off, and
  those of Keycloak, with its route if there are routes, when the resource names an external one.
\<close>

definition disabledKeys :: "'w HorreumReconciler \<Rightarrow> Horreum \<Rightarrow> key list" where
  "disabledKeys r cr =
     (if Pg_Enabled (Postgres cr) = Some False
      then [(KPod, Namespace cr, Name cr @ ''-db''), (KService, Namespace cr, Name cr @ ''-db'')] else []) @
     (if publicUri cr \<noteq> []
      then [(KPod, Namespace cr, Name cr @ ''-keycloak''), (KService, Namespace cr, Name cr @ ''-keycloak'')] @
        (if RoutesAvailable r then [(KRoute, Namespace cr, Name cr @ ''-keycloak'')] else [])
      else [])"

definition reportable :: "'w HorreumReconciler \<Rightarrow> Horreum \<Rightarrow> event \<Rightarrow> bool" where
  "reportable r cr e \<longleftrightarrow>
     (case e of CreateEv ob _ \<Rightarrow> obj_key ob \<notin> set (certKeys r cr)
      | DeleteEv ob _ \<Rightarrow> obj_key ob \<notin> set (disabledKeys r cr)
      | _ \<Rightarrow> False)"

lemma reportable_simps [simp]:
  "\<not> reportable r cr (GetEv key e)" "\<not> reportable r cr (StatusEv ns n st)"
  "reportable r cr (CreateEv ob e) \<longleftrightarrow> obj_key ob \<notin> set (certKeys r cr)"
  "reportable r cr (DeleteEv ob e) \<longleftrightarrow> obj_key ob \<notin> set (disabledKeys r cr)"
  by (simp_all add: reportable_def)

lemma disabled_objects:
  "Pg_Enabled (Postgres cr) = Some False \<Longrightarrow> obj_key (PodObj (postgresPod cr r')) \<in> set (disabledKeys r cr)"
  "Pg_Enabled (Postgres cr) = Some False \<Longrightarrow> obj_key (ServiceObj (postgresService cr)) \<in> set (disabledKeys r cr)"
  "publicUri cr \<noteq> [] \<Longrightarrow> keycloakPod cr url = Some p \<Longrightarrow> obj_key (PodObj p) \<in> set (disabledKeys r cr)"
  "publicUri cr \<noteq> [] \<Longrightarrow> obj_key (ServiceObj (keycloakService cr r')) \<in> set (disabledKeys r cr)"
  "publicUri cr \<noteq> [] \<Longrightarrow> route_named r cr ''-keycloak'' (Some rt) \<Longrightarrow> obj_key (RouteObj rt) \<in> set (disabledKeys r cr)"
  by (auto simp: disabledKeys_def obj_key_def obj_namespace_def obj_name_def postgresPod_def postgresService_def
      keycloakService_def keycloakPod_def Let_def route_named_def split: option.splits)

definition quiet :: "'w HorreumReconciler \<Rightarrow> Horreum \<Rightarrow> 'w st \<Rightarrow> 'w st \<Rightarrow> bool" where
  "quiet r cr s t \<longleftrightarrow>
     status_severity s \<le> status_severity t \<and>
     (status_severity t = SReady \<longrightarrow> emits (list_all (\<lambda>e. \<not> reportable r cr e)) s t)"

interpretation unreported: trace_language "list_all (\<lambda>e. \<not> reportable r cr e)" for r cr
  by unfold_locales auto

interpretation calm: step_order "quiet r cr" for r cr
proof
  show "quiet r cr s s" for s
    by (simp add: quiet_def unreported.emits_refl)
  fix s t u
  assume "quiet r cr s t" and "quiet r cr t u"
  then show "quiet r cr s u"
    unfolding quiet_def by (auto intro: unreported.emits_trans order.trans)
qed

section \<open>The operations\<close>

lemma quietI:
  "st_events t = st_events s @ es \<Longrightarrow> list_all (\<lambda>e. \<not> reportable r cr e) es \<Longrightarrow>
   status_severity t = status_severity s \<Longrightarrow> quiet r cr s t"
  by (auto simp: quiet_def emits_def)

lemma quiet_silent:
  "st_events t = st_events s \<Longrightarrow> status_severity t = status_severity s \<Longrightarrow> quiet r cr s t"
  by (rule quietI [where es = "[]"]) auto

lemma quiet_severe:
  "status_severity s \<le> status_severity t \<Longrightarrow> status_severity t \<noteq> SReady \<Longrightarrow> quiet r cr s t"
  by (simp add: quiet_def)

lemma quiet_error: "error_reported cr t \<Longrightarrow> quiet r cr s t"
  by (rule quiet_severe) (simp_all add: error_reported_def)

context resource_contract begin

lemma quiet_ensureSame: "state_io_rel (quiet r cr) (ensureSame r cr object compare check)"
proof (cases object)
  case None
  then show ?thesis by (simp add: ensureSame_def calm.keeps_panic)
next
  case (Some ob)
  show ?thesis
    unfolding Some state_io_rel_wp
    by (intro allI wp_mono [OF wp_ensureSame_outcome])
      (auto intro: quietI quiet_error quiet_silent quiet_severe simp: max_def split: if_splits)
qed

end

lemma quiet_ensureDeleted:
  assumes "reads_by_key r" and "\<And>ob. object = Some ob \<Longrightarrow> obj_key ob \<in> set (disabledKeys r cr)"
  shows "state_io_rel (quiet r cr) (ensureDeleted r cr object)"
proof (cases object)
  case None
  then show ?thesis by (simp add: ensureDeleted_def calm.keeps_panic)
next
  case (Some ob)
  show ?thesis
    unfolding Some state_io_rel_wp
    by (intro allI wp_mono [OF wp_ensureDeleted_outcome])
      (auto intro: quietI quiet_error simp: assms(2) [OF Some] reads_by_key_fetched [OF assms(1)])
qed

lemma quiet_typed_get: "state_io_rel (quiet r cr) (typed_get k get ns n)"
  by (auto simp: state_io_rel_wp wp_simps intro: quietI split: prod.splits)

lemma quiet_effect: "state_io_rel (quiet r cr) (effect f)"
  by (auto simp: state_io_rel_wp wp_simps intro: quiet_silent split: prod.splits)

lemma quiet_create:
  assumes "obj_key ob \<in> set (certKeys r cr)"
  shows "state_io_rel (quiet r cr) (create r ob)"
  using assms by (auto simp: state_io_rel_wp wp_simps intro: quietI split: prod.splits)

lemma quiet_statusUpdate: "state_io_rel (quiet r cr) (statusUpdate r cr)"
  by (auto simp: state_io_rel_wp wp_simps intro: quietI)

lemma quiet_updateStatus:
  assumes "status = ''Error'' \<or> status = ''Pending''"
  shows "state_io_rel (quiet r cr) (updateStatus r cr status reason)"
  unfolding state_io_rel_wp
proof
  fix s
  show "wp (updateStatus r cr status reason) (\<lambda>_. quiet r cr s) s"
    using assms by (intro wp_updateStatus_report quiet_severe) auto
qed

lemma quiet_waiting: "state_io_rel (quiet r cr) (waiting r cr reason)"
  unfolding waiting_def by (intro calm.keeps_bind quiet_updateStatus calm.keeps_ok) simp

lemma quiet_newSecret: "state_io_rel (quiet r cr) (newSecret r cr' n)"
  unfolding state_io_rel_wp by (auto intro!: wp_mono [OF wp_newSecret] quiet_silent)

lemma quiet_generatePassword: "state_io_rel (quiet r cr) (generatePassword r)"
  unfolding state_io_rel_wp by (auto intro!: wp_mono [OF wp_generatePassword] quiet_silent)

lemma quiet_set_url:
  "state_io_rel (quiet r cr) (setKeycloakUrl url)" "state_io_rel (quiet r cr) (setPublicUrl url)"
  by (auto simp: state_io_rel_wp setKeycloakUrl_def setPublicUrl_def wp_simps intro: quiet_silent)

lemmas quiet_intros = calm.keeps_intros quiet_typed_get quiet_effect quiet_statusUpdate
  quiet_waiting quiet_newSecret quiet_generatePassword quiet_set_url

section \<open>The stages\<close>

lemma and_then_liftE [simp]:
  "and_then (liftE (Inl e)) k = fail e" "and_then (liftE (Inr a)) k = k a"
  by (simp_all add: liftE_def and_then_def ok_def fail_def)

lemma quiet_liftE: "state_io_rel (quiet r cr) (liftE x)"
  by (cases x) (simp_all add: liftE_def calm.keeps_fail calm.keeps_ok)

lemma quiet_fallible: "state_io_rel (quiet r cr) (fallible f)"
  unfolding fallible_def
  by (intro calm.keeps_bind quiet_effect) (auto split: sum.splits intro: calm.keeps_fail calm.keeps_ok)

text \<open>Setting the owner reference and creating an object whose creation needs no report.\<close>

lemma quiet_owned_create:
  assumes "obj_key ob0 \<in> set (certKeys r cr)" and "\<And>res. state_io_rel (quiet r cr) (k res)"
  shows "state_io_rel (quiet r cr)
    (and_then (liftE (set_controller_reference r cr ob0)) (\<lambda>ob. State_Monad.bind (create r ob) k))"
  using assms
  by (cases "set_controller_reference r cr ob0")
    (auto dest: set_controller_reference_Inr intro!: calm.keeps_fail calm.keeps_bind quiet_create)

lemma cert_keys:
  assumes "\<not> RoutesAvailable r"
  shows "obj_key (SecretObj (tlsSecret r cr (Name cr @ ''-ca-certs'') bytes key)) \<in> set (certKeys r cr)"
    and "obj_key (SecretObj (tlsSecret r cr (Name cr @ ''-app-certs'') bytes key)) \<in> set (certKeys r cr)"
    and "obj_key (SecretObj (tlsSecret r cr (Name cr @ ''-keycloak-certs'') bytes key)) \<in> set (certKeys r cr)"
    and "obj_key (ConfigMapObj (serviceCaConfigMap cr pem)) \<in> set (certKeys r cr)"
  using assms by (simp_all add: certKeys_def tlsSecret_key serviceCa_key)

lemma quiet_createCA:
  assumes "\<not> RoutesAvailable r"
  shows "state_io_rel (quiet r cr) (createCA cr r)"
proof -
  note keys = cert_keys [OF assms]
  have new: "state_io_rel (quiet r cr) (newCA cr r)"
    unfolding newCA_def now_def Let_def
    by (intro calm.keeps_and_then calm.keeps_bind quiet_fallible quiet_effect
        quiet_owned_create keys)
      (auto split: option.splits
        intro!: calm.keeps_bind calm.keeps_fail calm.keeps_ok quiet_updateStatus)
  have publish: "state_io_rel (quiet r cr) (publishCA cr r pem)" for pem
    unfolding publishCA_def get_config_map_def
    by (intro calm.keeps_bind quiet_typed_get)
      (auto split: sum.splits option.splits
        intro!: calm.keeps_fail calm.keeps_ok quiet_owned_create keys)
  show ?thesis
    unfolding createCA_def get_secret_def
    by (intro calm.keeps_bind calm.keeps_and_then quiet_typed_get)
      (auto split: sum.splits intro!: new publish calm.keeps_fail quiet_liftE calm.keeps_and_then calm.keeps_ok)
qed

lemma quiet_createServiceCert:
  assumes "\<And>bytes key. obj_key (SecretObj (tlsSecret r cr n bytes key)) \<in> set (certKeys r cr)"
  shows "state_io_rel (quiet r cr) (createServiceCert cr r ca key n serviceName serial)"
proof (cases "ca = None \<or> key = None")
  case True
  then show ?thesis
    by (auto simp: createServiceCert_def calm.keeps_fail split: option.splits)
next
  case False
  then obtain ca' key' where ca: "ca = Some ca'" "key = Some key'" by auto
  show ?thesis
    unfolding ca createServiceCert_def prod.case option.case get_secret_def now_def Let_def
    by (intro calm.keeps_bind quiet_typed_get)
      (auto split: sum.splits option.splits
        intro!: calm.keeps_fail calm.keeps_ok calm.keeps_bind calm.keeps_and_then quiet_effect
          quiet_fallible quiet_owned_create assms)
qed

lemma quiet_reconcileCerts: "state_io_rel (quiet r cr) (reconcileCerts r cr)"
  unfolding reconcileCerts_def
  by (auto intro!: calm.keeps_and_then calm.keeps_ok kept.quiet_ensureSame quiet_createCA
      quiet_createServiceCert cert_keys)

lemma quiet_ensureSecret: "state_io_rel (quiet r cr) (ensureSecret r cr secret keys)"
  unfolding ensureSecret_def
  by (intro calm.keeps_and_then calm.keeps_ok secrets.quiet_ensureSame)

lemma quiet_reconcileSecrets: "state_io_rel (quiet r cr) (reconcileSecrets r cr)"
  unfolding reconcileSecrets_def Let_def
  by (intro calm.keeps_bind calm.keeps_and_then quiet_newSecret quiet_generatePassword quiet_ensureSecret)

lemma quiet_reconcilePostgres:
  assumes "reads_by_key r"
  shows "state_io_rel (quiet r cr) (reconcilePostgres r cr)"
  unfolding reconcilePostgres_def Let_def
  by (auto intro!: calm.keeps_and_then calm.keeps_ok config_maps.quiet_ensureSame
      pods.quiet_ensureSame services.quiet_ensureSame quiet_ensureDeleted assms disabled_objects)

lemma quiet_tls: "state_io_rel (quiet r cr) (tls r cr rs)"
  unfolding tls_def Let_def get_secret_def
  by (auto split: sum.splits intro!: calm.keeps_if calm.keeps_ok calm.keeps_bind calm.keeps_fail
      calm.keeps_return quiet_typed_get quiet_updateStatus)

lemma quiet_route: "state_io_rel (quiet r cr) (route rs sfx cr r)"
  unfolding route_def Let_def
  by (auto intro!: calm.keeps_and_then calm.keeps_ok quiet_tls)

lemma quiet_getService: "state_io_rel (quiet r cr) (getService r service)"
  unfolding getService_def get_service_def
  by (intro calm.keeps_bind quiet_typed_get) (auto split: sum.splits intro: calm.keeps_return)

lemma quiet_first_port: "state_io_rel (quiet r cr) (first_port svc)"
  by (auto simp: first_port_def split: list.splits intro: calm.keeps_panic calm.keeps_ok)

lemma quiet_addresses:
  "state_io_rel (quiet r cr) (getNodePort r service)"
  "state_io_rel (quiet r cr) (getLoadBalancer r service)"
  unfolding getNodePort_def getLoadBalancer_def
  by (intro calm.keeps_bind quiet_getService;
      auto split: option.splits list.splits
        intro!: calm.keeps_and_then calm.keeps_ok calm.keeps_panic calm.keeps_fail quiet_first_port)+

lemma quiet_serviceUrl: "state_io_rel (quiet r cr) (serviceUrl r cr ty service rt p u)"
  unfolding serviceUrl_def
  by (intro calm.keeps_if calm.keeps_and_then quiet_addresses quiet_waiting calm.keeps_ok
      routes.quiet_ensureSame)

lemma quiet_unless_waiting:
  assumes "state_io_rel (quiet r cr) m" and "\<And>a. state_io_rel (quiet r cr) (k a)"
  shows "state_io_rel (quiet r cr) (unless_waiting m k)"
  unfolding unless_waiting_def
  by (intro calm.keeps_and_then assms) (auto split: sum.splits intro: assms calm.keeps_ok)

lemma quiet_reconcileApplication: "state_io_rel (quiet r cr) (reconcileApplication r cr url)"
  unfolding reconcileApplication_def appUrl_def appRoute_def reconcileApp_def
  by (intro quiet_unless_waiting calm.keeps_and_then calm.keeps_bind quiet_route quiet_serviceUrl
      quiet_set_url services.quiet_ensureSame pods.quiet_ensureSame kept.quiet_ensureSame
      quiet_statusUpdate calm.keeps_ok)

lemma quiet_keycloakRoute: "state_io_rel (quiet r cr) (keycloakRoute cr r)"
  unfolding keycloakRoute_def Let_def by (intro calm.keeps_if calm.keeps_fail quiet_route)

lemma quiet_reconcileKeycloakPod:
  assumes "reads_by_key r" and "route_named r cr ''-keycloak'' rt"
  shows "state_io_rel (quiet r cr) (reconcileKeycloakPod r cr rt url)"
  unfolding reconcileKeycloakPod_def Let_def
  using assms(2)
  by (auto intro!: calm.keeps_and_then calm.keeps_ok quiet_ensureDeleted assms(1) pods.quiet_ensureSame
      disabled_objects)

lemma quiet_reconcileKeycloak:
  assumes "reads_by_key r"
  shows "state_io_rel (quiet r cr) (reconcileKeycloak r cr)"
proof -
  have url: "state_io_rel (quiet r cr) (keycloakUrl r cr rt)" for rt
    unfolding keycloakUrl_def
    by (intro calm.keeps_if calm.keeps_and_then calm.keeps_ok services.quiet_ensureSame quiet_serviceUrl)
  show ?thesis
    unfolding reconcileKeycloak_def
    by (rule calm.keeps_and_then_post [OF quiet_keycloakRoute wp_keycloakRoute_named],
        intro calm.keeps_and_then calm.keeps_bind quiet_unless_waiting quiet_set_url url
          quiet_reconcileKeycloakPod assms quiet_reconcileApplication)
qed

section \<open>The pass\<close>

text \<open>A pass that returns without an error has just written its status.\<close>

definition status_written :: "Horreum \<Rightarrow> 'a res \<Rightarrow> 'w st \<Rightarrow> bool" where
  "status_written cr x t \<longleftrightarrow>
     (case x of Ok _ \<Rightarrow> \<exists>es. st_events t = es @ [StatusEv (Namespace cr) (Name cr) (st_status t)]
      | _ \<Rightarrow> True)"

lemma status_written_simps [simp]:
  "status_written cr (Err e) t" "status_written cr (Panic p) t"
  by (simp_all add: status_written_def)

lemma status_written_then:
  assumes "\<And>a s. wp (k a) (status_written cr) s"
  shows "wp (and_then m k) (status_written cr) s"
  unfolding wp_and_then by (rule wp_trivial) (auto split: res.splits intro: assms)

lemma wp_reconcileApp_status: "wp (reconcileApp r cr kurl aurl) (status_written cr) s"
  unfolding reconcileApp_def
  by (intro status_written_then) (simp add: wp_simps status_written_def)

lemma wp_waiting_status:
  "wp (waiting r cr reason) (\<lambda>x t. status_written cr x t \<and> (\<forall>a. x \<noteq> Ok (Inr a))) s"
  unfolding waiting_def
  by (auto simp: wp_simps status_written_def split: prod.splits)

definition stage_end :: "Horreum \<Rightarrow> (ctrl_result + 'a) res \<Rightarrow> 'w st \<Rightarrow> bool" where
  "stage_end cr x t \<longleftrightarrow> (case x of Ok (Inl _) \<Rightarrow> status_written cr x t | _ \<Rightarrow> True)"

lemma stage_end_simps [simp]:
  "stage_end cr (Err e) t" "stage_end cr (Panic p) t" "stage_end cr (Ok (Inr a)) t"
  by (simp_all add: stage_end_def)

lemma stage_end_then:
  assumes "\<And>a s. wp (k a) (stage_end cr) s"
  shows "wp (and_then m k) (stage_end cr) s"
  unfolding wp_and_then by (rule wp_trivial) (auto split: res.splits intro: assms)

lemma wp_waiting_end: "wp (waiting r cr reason) (stage_end cr) s"
  by (rule wp_mono [OF wp_waiting_status]) (auto simp: stage_end_def split: res.splits sum.splits)

lemma wp_serviceUrl_end: "wp (serviceUrl r cr ty service rt p u) (stage_end cr) s"
  unfolding serviceUrl_def
  by (intro wp_if stage_end_then wp_waiting_end wp_okI) simp_all

lemma wp_unless_waiting_status:
  assumes "\<And>s. wp m (stage_end cr) s" and "\<And>a s. wp (k a) (status_written cr) s"
  shows "wp (unless_waiting m k) (status_written cr) s"
  unfolding unless_waiting_def wp_and_then
  by (rule wp_mono [OF assms(1)])
    (auto split: res.splits sum.splits intro: assms(2)
      simp: stage_end_def status_written_def wp_simps)

lemma wp_reconcileApplication_status: "wp (reconcileApplication r cr kurl) (status_written cr) s"
  unfolding reconcileApplication_def appUrl_def
  by (intro wp_unless_waiting_status stage_end_then wp_serviceUrl_end)
    (simp add: setPublicUrl_def wp_simps wp_reconcileApp_status)

lemma wp_reconcileKeycloak_status: "wp (reconcileKeycloak r cr) (status_written cr) s"
proof -
  have url: "wp (keycloakUrl r cr rt) (stage_end cr) s" for rt s
    unfolding keycloakUrl_def
    by (intro wp_if stage_end_then wp_serviceUrl_end wp_okI) simp
  have rest: "wp (and_then (reconcileKeycloakPod r cr rt u) (\<lambda>_. reconcileApplication r cr u))
      (status_written cr) s" for rt u s
    by (intro status_written_then wp_reconcileApplication_status)
  show ?thesis
    unfolding reconcileKeycloak_def
    by (intro status_written_then wp_unless_waiting_status url)
      (simp add: setKeycloakUrl_def wp_bind wp_update rest)
qed

text \<open>The two facts of a pass over a resource, from any state.\<close>

lemma wp_reconcileCr_status: "wp (reconcileCr r cr) (status_written cr) s"
proof -
  have reject: "wp (do { updateStatus r cr ''Error'' noNodeHost; fail (NewError noNodeHost) })
      (status_written cr) t" for t
    by (simp only: wp_bind, rule wp_trivial, simp add: wp_fail)
  have rest: "wp (and_then (reconcileCerts r cr) (\<lambda>_. and_then (reconcileSecrets r cr) (\<lambda>_.
      and_then (reconcilePostgres r cr) (\<lambda>_. reconcileKeycloak r cr)))) (status_written cr) t" for t
    by (intro status_written_then wp_reconcileKeycloak_status)
  show ?thesis
    unfolding reconcileCr_def
    by (intro wp_if reject) (simp only: wp_bind, rule wp_trivial, rule rest)
qed

lemma wp_reconcileCr_quiet:
  assumes "reads_by_key r"
  shows "wp (reconcileCr r cr)
     (\<lambda>_ t. status_severity t = SReady \<longrightarrow> emits (list_all (\<lambda>e. \<not> reportable r cr e)) s t) s"
proof -
  let ?rest = "and_then (reconcileCerts r cr) (\<lambda>_. and_then (reconcileSecrets r cr) (\<lambda>_.
      and_then (reconcilePostgres r cr) (\<lambda>_. reconcileKeycloak r cr)))"
  have mark: "wp (markReady r cr) (\<lambda>_ t. st_events t = st_events s) s"
    by (auto simp: markReady_def wp_simps split: prod.splits)
  have "state_io_rel (quiet r cr) ?rest"
    by (intro calm.keeps_and_then quiet_reconcileCerts quiet_reconcileSecrets
        quiet_reconcilePostgres quiet_reconcileKeycloak assms)
  then have rest: "wp ?rest (\<lambda>_. quiet r cr t) t" for t
    by (simp add: state_io_rel_wp)
  have rest': "wp ?rest
      (\<lambda>_ u. status_severity u = SReady \<longrightarrow> emits (list_all (\<lambda>e. \<not> reportable r cr e)) s u) t"
    if "st_events t = st_events s" for t
    by (rule wp_mono [OF rest [of t]]) (simp add: quiet_def emits_def that)
  have reject: "wp (do { updateStatus r cr ''Error'' noNodeHost; fail (NewError noNodeHost) })
      (\<lambda>_ t. status_severity t = SReady \<longrightarrow> emits (list_all (\<lambda>e. \<not> reportable r cr e)) s t) s"
    by (simp only: wp_bind, rule wp_report_error, simp add: wp_fail error_reported_def)
  show ?thesis
    unfolding reconcileCr_def
    by (intro wp_if reject) (simp only: wp_bind, rule wp_mono [OF mark], rule rest')
qed

text \<open>
  C6: if reads return the object that was asked for, a pass that returns without an error has just written its
  status, and unless that says \<^verbatim>\<open>Error\<close> or \<^verbatim>\<open>Pending\<close>, the pass has created nothing but the certificates
  of a cluster without routes, and has deleted nothing but the own objects of a disabled component: the pod and
  the service of a database that is switched off, the pod, the service and the route of a Keycloak that is replaced by an external one.
\<close>

theorem pass_reports_writes:
  assumes "reads_by_key r"
  shows "case runPass r ns n w of (x, t) \<Rightarrow>
     (case (foundCr r ns n w, x) of
        (Inr cr, Ok _) \<Rightarrow>
          \<exists>es status. st_events t = es @ [StatusEv (Namespace cr) (Name cr) status]
            \<and> (list_all (\<lambda>e. \<not> reportable r cr e) es
               \<or> Status_Status status = ''Error'' \<or> Status_Status status = ''Pending'')
      | _ \<Rightarrow> True)"
proof -
  let ?s = "\<lparr>st_world = w, st_status = zero_HorreumStatus, st_events = []\<rparr>"
  let ?Q = "\<lambda>cr x t. case x of Ok _ \<Rightarrow>
      \<exists>es status. st_events t = es @ [StatusEv (Namespace cr) (Name cr) status]
        \<and> (list_all (\<lambda>e. \<not> reportable r cr e) es
           \<or> Status_Status status = ''Error'' \<or> Status_Status status = ''Pending'') | _ \<Rightarrow> True"
  have body: "wp (reconcileCr r cr) (?Q cr) u" if "st_events u = [GetHorreumEv ns n None]" for cr u
  proof (rule wp_mono [OF wp_conj [OF wp_reconcileCr_status wp_reconcileCr_quiet [OF assms]]])
    fix x t
    assume t: "status_written cr x t
      \<and> (status_severity t = SReady \<longrightarrow> emits (list_all (\<lambda>e. \<not> reportable r cr e)) u t)"
    show "?Q cr x t"
    proof (cases x)
      case (Ok y)
      then obtain es where es: "st_events t = es @ [StatusEv (Namespace cr) (Name cr) (st_status t)]"
        using t by (auto simp: status_written_def)
      have "list_all (\<lambda>e. \<not> reportable r cr e) (st_events t)" if "status_severity t = SReady"
        using t that \<open>st_events u = [GetHorreumEv ns n None]\<close> by (auto simp: emits_def reportable_def)
      then show ?thesis
        using es Ok by (auto simp: severity_of_cases)
    qed auto
  qed
  have "wp (Reconcile r ns n)
      (\<lambda>x t. case (foundCr r ns n w, x) of (Inr cr, Ok y) \<Rightarrow> ?Q cr (Ok y) t | _ \<Rightarrow> True) ?s"
    unfolding Reconcile_def wp_bind
    by (auto simp: wp_simps split: prod.splits sum.splits res.splits
        intro!: wp_mono [OF body])
  then show ?thesis
    by (simp add: runPass_def wp_def split: prod.splits sum.splits res.splits)
qed

theorem pass_reports_writes_witness:
  "case runPass (mem_reconciler False) ''default'' ''horreum'' (sample_memory sample_cr) of (x, t) \<Rightarrow>
     (case (foundCr (mem_reconciler False) ''default'' ''horreum'' (sample_memory sample_cr), x) of
        (Inr cr, Ok _) \<Rightarrow>
          \<exists>es status. st_events t = es @ [StatusEv (Namespace cr) (Name cr) status]
            \<and> (list_all (\<lambda>e. \<not> reportable (mem_reconciler False) cr e) es
               \<or> Status_Status status = ''Error'' \<or> Status_Status status = ''Pending'')
      | _ \<Rightarrow> True)"
  by (rule pass_reports_writes [OF mem_reads_by_key])

end
