(* ===== verification/Behaviour.thy ===== *)
theory Behaviour
  imports Quiet
begin

text \<open>
  How single operations and stages behave: the reports that make up the status, the outcome of
  \<^verbatim>\<open>ensureSame\<close>, and the configurations that a pass rejects or cannot complete.
\<close>

section \<open>Reports\<close>

text \<open>A sequence of reports, as the stages of a pass make them.\<close>

fun reportAll :: "'w HorreumReconciler \<Rightarrow> (string \<times> string) list \<Rightarrow> ('w st, unit) state" where
  "reportAll r [] = State_Monad.return ()"
| "reportAll r ((status, reason) # reports) = do { setStatus r status reason; reportAll r reports }"

lemma fold_max_base: "fold max xs (max a b) = max a (fold max xs (b :: severity))"
  by (induction xs arbitrary: a b) (simp_all add: max.left_commute max.commute)

text \<open>
  C20: whatever the order of the reports of \<^verbatim>\<open>Error\<close> and \<^verbatim>\<open>Pending\<close>, the severity at the end is the
  maximum of the reported ones and the one at the start: no error of a pass is hidden by a later
  report that something is pending.
\<close>

theorem reports_join:
  assumes "list_all (\<lambda>(status, _). status = ''Error'' \<or> status = ''Pending'') reports"
  shows "wp (reportAll r reports)
    (\<lambda>_ t. status_severity t = fold max (map (severity_of \<circ> fst) reports) (status_severity s)) s"
  using assms
proof (induction reports arbitrary: s)
  case Nil
  then show ?case by (simp add: wp_simps)
next
  case (Cons report reports)
  obtain status reason where report: "report = (status, reason)" by fastforce
  have status: "status = ''Error'' \<or> status = ''Pending''" using Cons.prems report by simp
  have IH: "wp (reportAll r reports) (\<lambda>_ t. status_severity t =
      fold max (map (severity_of \<circ> fst) reports) (status_severity s')) s'" for s'
    by (rule Cons.IH) (use Cons.prems in simp)
  show ?case
    unfolding report reportAll.simps wp_bind
    by (rule wp_mono [OF setStatus_severity [OF status]], rule wp_mono [OF IH])
      (simp add: max.commute)
qed

theorem reports_join_witness:
  "wp (reportAll (mem_reconciler False) [(''Error'', ''a''), (''Pending'', ''b'')])
     (\<lambda>_ t. status_severity t = fold max [SError, SPending] (status_severity sample_state)) sample_state"
  using reports_join [of "[(''Error'', ''a''), (''Pending'', ''b'')]" "mem_reconciler False" sample_state]
  by simp

section \<open>Outcomes of ensureSame and ensureDeleted\<close>

text \<open>
  C14: \<^verbatim>\<open>ensureSame\<close> on a pod has three outcomes. Either its only call is a read, which found a pod
  whose specification matches and that is ready, and the status is as before; or it returns and the
  status in memory is at least \<^verbatim>\<open>Pending\<close>; or it fails, and then its last call has written an
  \<^verbatim>\<open>Error\<close> to the resource, unless the owner reference could not be set, before any call.
\<close>

theorem ensureSame_pod_outcome:
  "wp (ensureSame r cr (Some (PodObj p)) (comparePods r) checkPod)
     (\<lambda>x t. (\<exists>out. x = Ok (Some out) \<and> fetched r (obj_key (PodObj p)) out
               \<and> comparePods r (PodObj p) out \<and> fst (checkPod out)
               \<and> st_events t = st_events s @ [GetEv (obj_key (PodObj p)) None] \<and> st_status t = st_status s)
          \<or> (\<exists>out. x = Ok out \<and> status_severity t = max (status_severity s) (status_severity t)
               \<and> status_severity t \<noteq> SReady)
          \<or> (\<exists>e. x = Err e \<and> error_reported cr t)
          \<or> (\<exists>e. x = Err e \<and> lib_owners (Lib r) cr (PodObj p) = Inl e \<and> t = s)) s"
  by (rule pods.wp_ensureSame_outcome)

text \<open>
  C15: \<^verbatim>\<open>ensureDeleted\<close> reads the key of the given object. If nothing is found, it makes no further call; if
  an object is found, exactly that object is deleted, in the world in which the read left it; in both cases it returns without an
  error and the status is unchanged. If the read fails otherwise or the deletion is refused, it returns that error, and its
  last call has written an \<^verbatim>\<open>Error\<close> to the resource. It makes no other call.
\<close>

theorem ensureDeleted_outcome:
  "wp (ensureDeleted r cr (Some ob))
     (\<lambda>x t. case client_get (Client r) (obj_kind ob) (obj_namespace ob) (obj_name ob) (st_world s) of
        (Inl e, w) \<Rightarrow>
          if e = NotFound then x = Ok ()
            \<and> t = s\<lparr>st_world := w, st_events := st_events s @ [GetEv (obj_key ob) (Some NotFound)]\<rparr>
          else x = Err e \<and> error_reported cr t \<and> (\<exists>status. st_events t = st_events s @
            [GetEv (obj_key ob) (Some e), StatusEv (Namespace cr) (Name cr) status])
      | (Inr out, w) \<Rightarrow>
          (case cl_delete (Client r) out w of
             (None, w') \<Rightarrow> x = Ok ()
               \<and> t = s\<lparr>st_world := w', st_events := st_events s @ [GetEv (obj_key ob) None, DeleteEv out None]\<rparr>
           | (Some e, w') \<Rightarrow> x = Err e \<and> error_reported cr t \<and> (\<exists>status. st_events t = st_events s @
               [GetEv (obj_key ob) None, DeleteEv out (Some e), StatusEv (Namespace cr) (Name cr) status]))) s"
  using wp_ensureDeleted_exact [of r cr ob s] unfolding deleted_outcome_def read_of_def .

section \<open>Configurations that are rejected or cannot be completed\<close>

text \<open>
  C23: a resource that exposes a service on a node port but names no host is rejected: the only
  call is one status update, with the error the pass returns.
\<close>

theorem missing_node_host_rejected:
  assumes "Spec_NodeHost (Spec cr) = []"
    and "serviceType (Spec_ServiceType (Spec cr)) r = ''NodePort''
      \<or> serviceType (Kc_ServiceType (Keycloak cr)) r = ''NodePort''"
  shows "wp (reconcileCr r cr)
     (\<lambda>x t. x = Err (NewError noNodeHost)
        \<and> (\<exists>status. st_events t = st_events s @ [StatusEv (Namespace cr) (Name cr) status]
             \<and> Status_Status status = ''Error'' \<and> Status_Reason status = noNodeHost)) s"
proof -
  have "isNodePort r (Spec_ServiceType (Spec cr)) \<or> isNodePort r (Kc_ServiceType (Keycloak cr))"
    using assms(2) by (auto simp: isNodePort_def serviceType_def split: if_splits)
  then show ?thesis
    using assms(1) by (auto simp: reconcileCr_def wp_simps split: prod.splits)
qed

theorem missing_node_host_rejected_witness:
  "wp (reconcileCr (mem_reconciler False) zero_Horreum)
     (\<lambda>x t. x = Err (NewError noNodeHost)
        \<and> (\<exists>status. st_events t = st_events sample_state @
               [StatusEv (Namespace zero_Horreum) (Name zero_Horreum) status]
             \<and> Status_Status status = ''Error'' \<and> Status_Reason status = noNodeHost)) sample_state"
  by (rule missing_node_host_rejected)
    (simp_all add: zero_Horreum_def zero_HorreumSpec_def serviceType_def mem_reconciler_def)

text \<open>The address of a load balancer is never found: it is read only when the service is not.\<close>

lemma wp_getLoadBalancer:
  "wp (getLoadBalancer r service) (\<lambda>x _. x = Ok [] \<or> x = Panic ''nil pointer dereference'') s"
  by (auto simp: getLoadBalancer_def getService_def get_service_def wp_simps split: prod.splits sum.splits)

text \<open>Panics and errors pass through the rest of a computation.\<close>

lemma wp_and_then_never:
  assumes "\<And>a s. wp (k a) (\<lambda>x _. N x) s" and "\<And>e. N (Err e)" and "\<And>p. N (Panic p)"
  shows "wp (and_then m k) (\<lambda>x _. N x) s"
  unfolding wp_and_then by (rule wp_trivial) (auto split: res.splits intro: assms)

lemma wp_bind_never:
  assumes "\<And>a s. wp (k a) Q s"
  shows "wp (State_Monad.bind m k) Q s"
  unfolding wp_bind by (rule wp_trivial) (rule assms)

lemma wp_waiting_result: "wp (waiting r cr reason) (\<lambda>x _. x = Ok (Inl (Result True))) s"
  by (auto simp: waiting_def wp_simps split: prod.splits)

text \<open>Services without an address: behind a load balancer, or inside a cluster without routes.\<close>

definition unaddressed :: "'w HorreumReconciler \<Rightarrow> string \<Rightarrow> bool" where
  "unaddressed r ty \<longleftrightarrow> ty = ''LoadBalancer'' \<or> ty \<notin> {[], ''NodePort''} \<and> \<not> RoutesAvailable r"

lemma serviceUrl_unaddressed:
  assumes "unaddressed r ty"
  shows "wp (serviceUrl r cr ty service rt p u) (\<lambda>x _. \<forall>a. x = Ok a \<longrightarrow> a = Inl (Result True)) s"
proof -
  have waits: "wp (waiting r cr u) (\<lambda>x _. \<forall>a. x = Ok a \<longrightarrow> a = Inl (Result True)) t" for t
    by (rule wp_mono [OF wp_waiting_result]) simp
  show ?thesis
    using assms unfolding serviceUrl_def unaddressed_def
    by (auto simp: isNodePort_def wp_and_then wp_ok waits intro!: wp_mono [OF wp_getLoadBalancer])
qed

lemma serviceUrl_early: "wp (serviceUrl r cr ty service rt p u) (\<lambda>x _. x \<noteq> Ok (Inl (Result False))) s"
proof -
  have waits: "wp (waiting r cr u) (\<lambda>x _. x \<noteq> Ok (Inl (Result False))) t" for u t
    by (rule wp_mono [OF wp_waiting_result]) simp
  show ?thesis
    unfolding serviceUrl_def
    by (intro wp_if wp_and_then_never) (auto simp: wp_ok waits)
qed

text \<open>
  C21: a resource is never completed if its Keycloak (unless it is external) or Horreum itself has a service
  that no node port and no route exposes: one of type \<^verbatim>\<open>LoadBalancer\<close>, whose address the operator never
  finds, or of type \<^verbatim>\<open>ClusterIP\<close> on a cluster without routes. No pass over it returns without asking for
  another one or failing, whatever the cluster holds.
\<close>

theorem no_address_never_completes:
  assumes "publicUri cr = [] \<and> unaddressed r (Kc_ServiceType (Keycloak cr)) \<or> unaddressed r (Spec_ServiceType (Spec cr))"
  shows "wp (reconcileCr r cr) (\<lambda>x _. x \<noteq> Ok (Result False)) s"
proof -
  let ?waits = "\<lambda>m :: ('a st, (ctrl_result + string) res) state. \<forall>t. wp m (\<lambda>x _. \<forall>a. x = Ok a \<longrightarrow> a = Inl (Result True)) t"
  have early: "wp (unless_waiting m k) (\<lambda>x _. x \<noteq> Ok (Result False)) t" if "?waits m" for m k t
    using that by (auto simp: unless_waiting_def wp_and_then wp_ok split: res.splits elim!: allE [of _ t] wp_mono)
  have later: "wp (unless_waiting m k) (\<lambda>x _. x \<noteq> Ok (Result False)) t"
    if "\<And>a t. wp (k a) (\<lambda>x _. x \<noteq> Ok (Result False)) t" and "wp m (\<lambda>x _. x \<noteq> Ok (Inl (Result False))) t" for m k t
    unfolding unless_waiting_def wp_and_then
    by (rule wp_mono [OF that(2)]) (auto simp: wp_ok that(1) split: res.splits sum.splits)
  have kc: "wp (reconcileKeycloak r cr) (\<lambda>x _. x \<noteq> Ok (Result False)) t" for t
  proof (cases "unaddressed r (Spec_ServiceType (Spec cr))")
    case True
    have app: "wp (reconcileApplication r cr url) (\<lambda>x _. x \<noteq> Ok (Result False)) t" for url t
      unfolding reconcileApplication_def
      by (rule early) (auto simp: appUrl_def serviceUrl_unaddressed [OF True] intro!: wp_and_then_never)
    have url: "wp (keycloakUrl r cr rt) (\<lambda>x _. x \<noteq> Ok (Inl (Result False))) t" for rt t
      unfolding keycloakUrl_def
      by (intro wp_if wp_and_then_never serviceUrl_early) (simp_all add: wp_ok)
    show ?thesis
      unfolding reconcileKeycloak_def
      by (intro wp_and_then_never later wp_bind_never app url) simp_all
  next
    case False
    then have "publicUri cr = []" "unaddressed r (Kc_ServiceType (Keycloak cr))"
      using assms by simp_all
    then have "wp (keycloakUrl r cr rt) (\<lambda>x _. \<forall>a. x = Ok a \<longrightarrow> a = Inl (Result True)) t" for rt t
      unfolding keycloakUrl_def by (auto intro!: wp_and_then_never serviceUrl_unaddressed)
    then show ?thesis
      unfolding reconcileKeycloak_def by (intro wp_and_then_never early) simp_all
  qed
  show ?thesis
    unfolding reconcileCr_def
    by (intro wp_if wp_bind_never wp_and_then_never kc) (simp_all add: wp_fail)
qed

text \<open>A resource as the sample, with its Keycloak behind a load balancer.\<close>

definition lb_cr :: Horreum where
  "lb_cr = sample_cr\<lparr>Spec := (Spec sample_cr)\<lparr>Spec_Keycloak := zero_KeycloakSpec
     \<lparr>Kc_ServiceType := ''LoadBalancer''\<rparr>\<rparr>\<rparr>"

theorem no_address_never_completes_witness:
  "wp (reconcileCr (mem_reconciler False) lb_cr) (\<lambda>x _. x \<noteq> Ok (Result False)) sample_state"
  by (rule no_address_never_completes)
    (simp_all add: lb_cr_def publicUri_def zero_KeycloakSpec_def unaddressed_def)

text \<open>
  C22: a resource with an external Keycloak whose public address is a bare host name, without a
  scheme, makes the operator dereference a nil pod: the stage panics before any call, so no pass
  over the resource returns normally.
\<close>

theorem bare_host_panics:
  assumes "dns_name (publicUri cr)"
  shows "wp (reconcileKeycloakPod r cr rt (publicUri cr))
       (\<lambda>x t. x = Panic ''nil pointer dereference'' \<and> t = s) s
     \<and> wp (reconcileCr r cr) (\<lambda>x _. \<forall>a. x \<noteq> Ok a) s"
proof
  have public: "publicUri cr \<noteq> []" and pod: "keycloakPod cr (publicUri cr) = None"
    using assms parse_no_scheme [OF assms] by (auto simp: dns_name_def keycloakPod_def Let_def)
  have panic: "reconcileKeycloakPod r cr rt (publicUri cr) = panic ''nil pointer dereference''" for rt
    using public by (simp add: reconcileKeycloakPod_def pod ensureDeleted_def and_then_def panic_def)
  show "wp (reconcileKeycloakPod r cr rt (publicUri cr))
       (\<lambda>x t. x = Panic ''nil pointer dereference'' \<and> t = s) s"
    by (simp add: panic wp_panic)
  have kc: "wp (reconcileKeycloak r cr) (\<lambda>x _. \<forall>a. x \<noteq> Ok a) t" for t
    unfolding reconcileKeycloak_def
    by (intro wp_and_then_never)
      (simp_all add: unless_waiting_def keycloakUrl_def public wp_simps panic setKeycloakUrl_def)
  show "wp (reconcileCr r cr) (\<lambda>x _. \<forall>a. x \<noteq> Ok a) s"
    unfolding reconcileCr_def
    by (intro wp_if wp_bind_never wp_and_then_never kc) (simp_all add: wp_fail)
qed

definition bare_host_cr :: Horreum where
  "bare_host_cr = sample_cr\<lparr>Spec := (Spec sample_cr)\<lparr>Spec_Keycloak := zero_KeycloakSpec
     \<lparr>Kc_External := \<lparr>Ext_PublicUri = ''keycloak.example.com'', Ext_InternalUri = []\<rparr>\<rparr>\<rparr>\<rparr>"

theorem bare_host_panics_witness:
  "wp (reconcileKeycloakPod (mem_reconciler False) bare_host_cr None (publicUri bare_host_cr))
       (\<lambda>x t. x = Panic ''nil pointer dereference'' \<and> t = sample_state) sample_state
     \<and> wp (reconcileCr (mem_reconciler False) bare_host_cr) (\<lambda>x _. \<forall>a. x \<noteq> Ok a) sample_state"
  by (rule bare_host_panics)
    (simp add: bare_host_cr_def publicUri_def zero_KeycloakSpec_def dns_name_def char_class_defs code_of_def)

end
