(* ===== verification/Go_Flag.thy ===== *)
theory Go_Flag
  imports Prelude
begin

text \<open>
  \<^verbatim>\<open>flag.Parse\<close> of Go 1.19 over the arguments of a process. The flags of a program are a map from names
  to what they do to its variables; a flag that needs no argument is a boolean one. An error
  ends the process (\<^verbatim>\<open>flag.ExitOnError\<close>): with code 0 after a request for help, with code 2 otherwise.
  It is not code of the repository.
\<close>

text \<open>What \<^verbatim>\<open>Value.Set\<close> does: \<^const>\<open>None\<close> if the text is not accepted.\<close>

record 's flag =
  isBool :: bool
  setFlag :: "string \<Rightarrow> 's \<Rightarrow> 's option"

definition parse_bool :: "string \<Rightarrow> bool option" where
  "parse_bool s =
     (if s \<in> set [''1'', ''t'', ''T'', ''TRUE'', ''true'', ''True''] then Some True
      else if s \<in> set [''0'', ''f'', ''F'', ''FALSE'', ''false'', ''False''] then Some False
      else None)"

definition stringVar :: "(string \<Rightarrow> 's \<Rightarrow> 's) \<Rightarrow> 's flag" where
  "stringVar f = \<lparr>isBool = False, setFlag = (\<lambda>x s. Some (f x s))\<rparr>"

definition boolVar :: "(bool \<Rightarrow> 's \<Rightarrow> 's) \<Rightarrow> 's flag" where
  "boolVar f = \<lparr>isBool = True, setFlag = (\<lambda>x s. map_option (\<lambda>b. f b s) (parse_bool x))\<rparr>"

section \<open>The syntax of one argument\<close>

datatype argument = Positional | Terminator | BadSyntax | Flag string "string option"

text \<open>The name ends at the first \<^verbatim>\<open>=\<close>, which cannot be its first character.\<close>

definition split_flag :: "string \<Rightarrow> argument" where
  "split_flag name =
     (case name of
        [] \<Rightarrow> BadSyntax
      | c # cs \<Rightarrow>
          (if c = CHR ''-'' \<or> c = CHR ''='' then BadSyntax
           else case dropWhile (\<lambda>c. c \<noteq> CHR ''='') cs of
                  [] \<Rightarrow> Flag name None
                | _ # value \<Rightarrow> Flag (c # takeWhile (\<lambda>c. c \<noteq> CHR ''='') cs) (Some value)))"

definition argument :: "string \<Rightarrow> argument" where
  "argument s =
     (case s of
        c # d # rest \<Rightarrow>
          (if c \<noteq> CHR ''-'' then Positional
           else if d = CHR ''-'' then (if rest = [] then Terminator else split_flag rest)
           else split_flag (d # rest))
      | _ \<Rightarrow> Positional)"

section \<open>The loop over the arguments\<close>

definition set_flag :: "'s flag \<Rightarrow> string \<Rightarrow> 's \<Rightarrow> nat + 's" where
  "set_flag f value s = (case setFlag f value s of None \<Rightarrow> Inl 2 | Some s' \<Rightarrow> Inr s')"

fun parse_flags :: "(string \<Rightarrow> 's flag option) \<Rightarrow> string list \<Rightarrow> 's \<Rightarrow> nat + 's" where
  "parse_flags formal [] s = Inr s"
| "parse_flags formal (arg # args) s =
     (case argument arg of
        Positional \<Rightarrow> Inr s
      | Terminator \<Rightarrow> Inr s
      | BadSyntax \<Rightarrow> Inl 2
      | Flag name value \<Rightarrow>
          (case formal name of
             None \<Rightarrow> Inl (if name = ''help'' \<or> name = ''h'' then 0 else 2)
           | Some f \<Rightarrow>
               (case (value, isBool f, args) of
                  (Some v, _, _) \<Rightarrow>
                    (case set_flag f v s of Inl code \<Rightarrow> Inl code | Inr s' \<Rightarrow> parse_flags formal args s')
                | (None, True, _) \<Rightarrow>
                    (case set_flag f ''true'' s of Inl code \<Rightarrow> Inl code | Inr s' \<Rightarrow> parse_flags formal args s')
                | (None, False, []) \<Rightarrow> Inl 2
                | (None, False, v # rest) \<Rightarrow>
                    (case set_flag f v s of Inl code \<Rightarrow> Inl code | Inr s' \<Rightarrow> parse_flags formal rest s'))))"

section \<open>Arguments that set a flag\<close>

definition flag_name :: "string \<Rightarrow> bool" where
  "flag_name n \<longleftrightarrow> n \<noteq> [] \<and> hd n \<noteq> CHR ''-'' \<and> CHR ''='' \<notin> set n"

lemma argument_value: "flag_name n \<Longrightarrow> argument (''--'' @ n @ CHR ''='' # v) = Flag n (Some v)"
proof (cases n)
  case (Cons c cs)
  assume "flag_name n"
  then have cs: "\<forall>x \<in> set cs. x \<noteq> CHR ''=''" and c: "c \<noteq> CHR ''-''" "c \<noteq> CHR ''=''"
    using Cons by (auto simp: flag_name_def)
  have "dropWhile (\<lambda>c. c \<noteq> CHR ''='') (cs @ CHR ''='' # v) = CHR ''='' # v"
    and "takeWhile (\<lambda>c. c \<noteq> CHR ''='') (cs @ CHR ''='' # v) = cs"
    using cs by (induction cs) auto
  then show ?thesis using c by (simp add: Cons argument_def split_flag_def)
qed (simp add: flag_name_def)

lemma argument_name: "flag_name n \<Longrightarrow> argument (''--'' @ n) = Flag n None"
proof (cases n)
  case (Cons c cs)
  assume "flag_name n"
  then have "\<forall>x \<in> set cs. x \<noteq> CHR ''=''" "c \<noteq> CHR ''-''" "c \<noteq> CHR ''=''"
    using Cons by (auto simp: flag_name_def)
  moreover from this have "dropWhile (\<lambda>c. c \<noteq> CHR ''='') cs = []" by (simp add: dropWhile_eq_Nil_conv)
  ultimately show ?thesis
    by (simp add: Cons argument_def split_flag_def del: dropWhile_eq_Nil_conv)
qed (simp add: flag_name_def)

text \<open>\<^verbatim>\<open>--name=value\<close> and \<^verbatim>\<open>--name value\<close> set a flag to any value; \<^verbatim>\<open>--name\<close> sets a boolean one.\<close>

lemma parse_flags_value:
  assumes "flag_name n" and "formal n = Some f" and "setFlag f v s = Some s'"
  shows "parse_flags formal ((''--'' @ n @ CHR ''='' # v) # args) s = parse_flags formal args s'"
  using argument_value [OF assms(1), of v] assms(2,3) by (simp add: set_flag_def del: append.simps)

lemma parse_flags_next:
  assumes "flag_name n" and "formal n = Some f" and "\<not> isBool f" and "setFlag f v s = Some s'"
  shows "parse_flags formal ((''--'' @ n) # v # args) s = parse_flags formal args s'"
  using argument_name [OF assms(1)] assms(2-4) by (simp add: set_flag_def del: append.simps)

lemma parse_flags_switch:
  assumes "flag_name n" and "formal n = Some f" and "isBool f" and "setFlag f ''true'' s = Some s'"
  shows "parse_flags formal ((''--'' @ n) # args) s = parse_flags formal args s'"
  using argument_name [OF assms(1)] assms(2-4) by (simp add: set_flag_def del: append.simps)

end
