(* ===== verification/Setup.thy ===== *)
theory Setup
  imports Reconcile Go_Flag
begin

text \<open>
  \<^verbatim>\<open>main.go\<close>: the flags and the options of the manager, the question to the API server for its API
  groups, which decides whether the reconciler is built for OpenShift (if there are routes) or for
  vanilla Kubernetes (also when the question fails), and the order of the start-up calls, each of
  which ends the process if it fails.
\<close>

definition routeGroup :: string where
  "routeGroup = ''route.openshift.io''"

text \<open>The loop over \<^verbatim>\<open>apiGroupList.Groups\<close>, with its \<^verbatim>\<open>break\<close>.\<close>

fun scanGroups :: "string list \<Rightarrow> bool" where
  "scanGroups [] = False"
| "scanGroups (g # groups) = (if g = routeGroup then True else scanGroups groups)"

text \<open>
  \<^verbatim>\<open>ctrl.GetConfig\<close> and \<^verbatim>\<open>NewDiscoveryClientForConfig\<close> return a pointer that may be nil and an error;
  \<^verbatim>\<open>ServerGroups\<close> returns the names of the groups.
\<close>

definition discoverRoutes ::
  "(go_error + 'c option) \<Rightarrow> ('c \<Rightarrow> go_error + 'd option) \<Rightarrow> ('d \<Rightarrow> go_error + string list) \<Rightarrow> bool"
where
  "discoverRoutes getConfig newClient serverGroups =
     (case getConfig of
        Inr (Some config) \<Rightarrow>
          (case newClient config of
             Inr (Some dclient) \<Rightarrow>
               (case serverGroups dclient of Inl e \<Rightarrow> False | Inr groups \<Rightarrow> scanGroups groups)
           | _ \<Rightarrow> False)
      | _ \<Rightarrow> False)"

definition newReconciler ::
  "'w client \<Rightarrow> 'w library \<Rightarrow> 'w crypto \<Rightarrow> bool \<Rightarrow> 'w HorreumReconciler" where
  "newReconciler client lib crypto routesAvailable =
     \<lparr>Client = client, Lib = lib, Crypto = crypto,
      RoutesAvailable = routesAvailable, UseRedHatImages = routesAvailable\<rparr>"

lemma scanGroups_iff: "scanGroups groups \<longleftrightarrow> routeGroup \<in> set groups"
  by (induction groups) auto

lemma discoverRoutes_Inr:
  "discoverRoutes (Inl e) newClient serverGroups = False"
  "discoverRoutes (Inr None) newClient serverGroups = False"
  "newClient c = Inl e \<Longrightarrow> discoverRoutes (Inr (Some c)) newClient serverGroups = False"
  "newClient c = Inr None \<Longrightarrow> discoverRoutes (Inr (Some c)) newClient serverGroups = False"
  "newClient c = Inr (Some d) \<Longrightarrow> discoverRoutes (Inr (Some c)) newClient serverGroups \<longleftrightarrow>
     (\<exists>groups. serverGroups d = Inr groups \<and> routeGroup \<in> set groups)"
  by (auto simp: discoverRoutes_def scanGroups_iff split: sum.split)

lemma sum_option_cases:
  obtains (Error) e where "x = Inl e" | (Nil) "x = Inr None" | (Pointer) y where "x = Inr (Some y)"
proof (cases x)
  case (Inr y)
  then show ?thesis using that by (cases y) auto
qed (use that in auto)

lemma discoverRoutes_iff:
  "discoverRoutes getConfig newClient serverGroups \<longleftrightarrow>
     (\<exists>config dclient groups. getConfig = Inr (Some config) \<and> newClient config = Inr (Some dclient)
        \<and> serverGroups dclient = Inr groups \<and> routeGroup \<in> set groups)"
proof (cases getConfig rule: sum_option_cases)
  case (Pointer c)
  then show ?thesis
    by (cases "newClient c" rule: sum_option_cases) (auto simp: discoverRoutes_Inr)
qed (auto simp: discoverRoutes_Inr)

text \<open>
  C35: the operator runs in OpenShift mode exactly if the discovery client could be built and
  asked, and one of the API groups it found is the one of routes; then, and only then, it uses the
  Red Hat images and watches routes.
\<close>

theorem openshift_detection:
  "let r = newReconciler client lib crypto (discoverRoutes getConfig newClient serverGroups) in
     (KRoute \<in> set (ownedKinds r) \<longleftrightarrow>
        (\<exists>config dclient groups. getConfig = Inr (Some config) \<and> newClient config = Inr (Some dclient)
           \<and> serverGroups dclient = Inr groups \<and> ''route.openshift.io'' \<in> set groups))
   \<and> (UseRedHatImages r \<longleftrightarrow> RoutesAvailable r) \<and> (KRoute \<in> set (ownedKinds r) \<longleftrightarrow> RoutesAvailable r)"
  by (simp add: newReconciler_def discoverRoutes_iff ownedKinds_def routeGroup_def)

section \<open>The start-up sequence\<close>

text \<open>The command line flags with their defaults, and the options of the manager.\<close>

record flags =
  metricsAddr :: string
  probeAddr :: string
  enableLeaderElection :: bool

definition defaultFlags :: flags where
  "defaultFlags = \<lparr>metricsAddr = '':8080'', probeAddr = '':8081'', enableLeaderElection = False\<rparr>"

text \<open>
  The flags that \<^verbatim>\<open>main\<close> defines. Those of zap and controller-runtime are a parameter: whether they
  are boolean and which values they accept; they set none of the three variables.
\<close>

definition formalFlags :: "(string \<Rightarrow> (bool \<times> (string \<Rightarrow> bool)) option) \<Rightarrow> string \<Rightarrow> flags flag option" where
  "formalFlags libFlags name =
     (if name = ''metrics-bind-address'' then Some (stringVar (\<lambda>x f. f\<lparr>metricsAddr := x\<rparr>))
      else if name = ''health-probe-bind-address'' then Some (stringVar (\<lambda>x f. f\<lparr>probeAddr := x\<rparr>))
      else if name = ''leader-elect'' then Some (boolVar (\<lambda>x f. f\<lparr>enableLeaderElection := x\<rparr>))
      else map_option (\<lambda>(b, accepts). \<lparr>isBool = b, setFlag = (\<lambda>x f. if accepts x then Some f else None)\<rparr>)
             (libFlags name))"

record managerOptions =
  MetricsBindAddress :: string
  Port :: int
  HealthProbeBindAddress :: string
  LeaderElection :: bool
  LeaderElectionID :: string

definition managerOptionsOf :: "flags \<Rightarrow> managerOptions" where
  "managerOptionsOf f =
     \<lparr>MetricsBindAddress = metricsAddr f, Port = 9443, HealthProbeBindAddress = probeAddr f,
      LeaderElection = enableLeaderElection f, LeaderElectionID = ''ac631cda.hyperfoil.io''\<rparr>"

text \<open>
  The calls of \<^verbatim>\<open>main\<close> that can fail. The reconciler is registered with the two flags that discovery
  sets. Whether a call fails is up to the libraries: a parameter of the model.
\<close>

datatype startup_call =
  GetConfigOrDie
| NewManager managerOptions
| SetupReconciler bool bool
| AddHealthzCheck string
| AddReadyzCheck string
| StartManager

text \<open>The calls made, in order, and the exit code.\<close>

definition startup ::
  "flags \<Rightarrow> (go_error + 'c option) \<Rightarrow> ('c \<Rightarrow> go_error + 'd option) \<Rightarrow> ('d \<Rightarrow> go_error + string list)
     \<Rightarrow> (startup_call \<Rightarrow> go_error option) \<Rightarrow> startup_call list \<times> nat"
where
  "startup f getConfig newClient serverGroups lib =
     (let routesAvailable = discoverRoutes getConfig newClient serverGroups;
          c0 = GetConfigOrDie; c1 = NewManager (managerOptionsOf f);
          c2 = SetupReconciler routesAvailable routesAvailable;
          c3 = AddHealthzCheck ''healthz''; c4 = AddReadyzCheck ''readyz''; c5 = StartManager in
      if lib c0 \<noteq> None then ([c0], 1)
      else if lib c1 \<noteq> None then ([c0, c1], 1)
      else if lib c2 \<noteq> None then ([c0, c1, c2], 1)
      else if lib c3 \<noteq> None then ([c0, c1, c2, c3], 1)
      else if lib c4 \<noteq> None then ([c0, c1, c2, c3, c4], 1)
      else if lib c5 \<noteq> None then ([c0, c1, c2, c3, c4, c5], 1)
      else ([c0, c1, c2, c3, c4, c5], 0))"

definition main ::
  "(string \<Rightarrow> (bool \<times> (string \<Rightarrow> bool)) option) \<Rightarrow> string list
     \<Rightarrow> (go_error + 'c option) \<Rightarrow> ('c \<Rightarrow> go_error + 'd option) \<Rightarrow> ('d \<Rightarrow> go_error + string list)
     \<Rightarrow> (startup_call \<Rightarrow> go_error option) \<Rightarrow> startup_call list \<times> nat"
where
  "main libFlags args getConfig newClient serverGroups lib =
     (case parse_flags (formalFlags libFlags) args defaultFlags of
        Inl code \<Rightarrow> ([], code)
      | Inr f \<Rightarrow> startup f getConfig newClient serverGroups lib)"

lemma parse_flags_code: "parse_flags formal args s = Inl code \<Longrightarrow> code = 0 \<or> code = 2"
  by (induction formal args s rule: parse_flags.induct)
    (auto simp: set_flag_def split: argument.splits option.splits bool.splits list.splits if_splits)

text \<open>
  C36: whatever the arguments, malformed ones make the process exit with code 2, or (after a request for help) with 0, before any
  call. Otherwise it goes through one sequence of calls, in this order: load the configuration, create the manager with the options that the
  arguments gave, register the reconciler with the result of discovery, add the health check, add the
  readiness check, start the manager. It stops right after the first call that fails, with exit code 1, and
  exits with 0 if none does.
\<close>

theorem startup_order:
  "main libFlags args getConfig newClient serverGroups lib =
     (case parse_flags (formalFlags libFlags) args defaultFlags of
        Inl code \<Rightarrow> ([], if code = 0 then 0 else 2)
      | Inr f \<Rightarrow>
          let routes = discoverRoutes getConfig newClient serverGroups;
              plan = [GetConfigOrDie,
                NewManager \<lparr>MetricsBindAddress = metricsAddr f, Port = 9443, HealthProbeBindAddress = probeAddr f,
                  LeaderElection = enableLeaderElection f, LeaderElectionID = ''ac631cda.hyperfoil.io''\<rparr>,
                SetupReconciler routes routes, AddHealthzCheck ''healthz'', AddReadyzCheck ''readyz'', StartManager];
              succeeded = takeWhile (\<lambda>c. lib c = None) plan
          in if succeeded = plan then (plan, 0) else (take (Suc (length succeeded)) plan, 1))"
proof (cases "parse_flags (formalFlags libFlags) args defaultFlags")
  case (Inl e)
  then show ?thesis using parse_flags_code [OF Inl] by (auto simp: main_def)
next
  case (Inr f)
  then show ?thesis by (simp add: main_def startup_def Let_def managerOptionsOf_def)
qed

section \<open>The command line\<close>

text \<open>Arguments that set all three flags, and those of \<^verbatim>\<open>config/default/manager_auth_proxy_patch.yaml\<close>.\<close>

definition renderFlags :: "flags \<Rightarrow> string list" where
  "renderFlags f =
     [''--'' @ ''metrics-bind-address'' @ CHR ''='' # metricsAddr f,
      ''--'' @ ''health-probe-bind-address'', probeAddr f,
      ''--'' @ ''leader-elect'' @ CHR ''='' # (if enableLeaderElection f then ''true'' else ''false'')]"

definition deployedArgs :: "string list" where
  "deployedArgs = [''--health-probe-bind-address=:8081'', ''--metrics-bind-address=127.0.0.1:8080'', ''--leader-elect'']"

lemma formalFlags_simps:
  "formalFlags libFlags ''metrics-bind-address'' = Some (stringVar (\<lambda>x f. f\<lparr>metricsAddr := x\<rparr>))"
  "formalFlags libFlags ''health-probe-bind-address'' = Some (stringVar (\<lambda>x f. f\<lparr>probeAddr := x\<rparr>))"
  "formalFlags libFlags ''leader-elect'' = Some (boolVar (\<lambda>x f. f\<lparr>enableLeaderElection := x\<rparr>))"
  by (simp_all add: formalFlags_def)

lemma flag_names:
  "flag_name ''metrics-bind-address''" "flag_name ''health-probe-bind-address''" "flag_name ''leader-elect''"
  by (simp_all add: flag_name_def)

lemma parse_renderFlags: "parse_flags (formalFlags libFlags) (renderFlags f) g = Inr f"
proof -
  let ?F = "formalFlags libFlags"
  have metrics: "parse_flags ?F ((''--'' @ ''metrics-bind-address'' @ CHR ''='' # v) # args) g
      = parse_flags ?F args (g\<lparr>metricsAddr := v\<rparr>)" for v args g
    by (rule parse_flags_value [where formal = ?F, OF flag_names(1) formalFlags_simps(1)])
      (simp add: stringVar_def)
  have probe: "parse_flags ?F ((''--'' @ ''health-probe-bind-address'') # v # args) g
      = parse_flags ?F args (g\<lparr>probeAddr := v\<rparr>)" for v args g
    by (rule parse_flags_next [where formal = ?F, OF flag_names(2) formalFlags_simps(2)])
      (simp_all add: stringVar_def)
  have elect: "parse_flags ?F ((''--'' @ ''leader-elect'' @ CHR ''='' # (if b then ''true'' else ''false'')) # args) g
      = parse_flags ?F args (g\<lparr>enableLeaderElection := b\<rparr>)" for b args g
    by (rule parse_flags_value [where formal = ?F, OF flag_names(3) formalFlags_simps(3)])
      (cases b; simp add: boolVar_def parse_bool_def; blast)
  show ?thesis
    unfolding renderFlags_def metrics probe elect by simp
qed

text \<open>The options of the managers that a run of \<^verbatim>\<open>main\<close> creates.\<close>

definition managers :: "startup_call list \<times> nat \<Rightarrow> managerOptions list" where
  "managers outcome = concat (map (\<lambda>c. case c of NewManager opts \<Rightarrow> [opts] | _ \<Rightarrow> []) (fst outcome))"

lemma managers_startup:
  "managers (startup f getConfig newClient serverGroups lib) =
     (if lib GetConfigOrDie = None then [managerOptionsOf f] else [])"
  by (simp add: managers_def startup_def Let_def)

lemma parse_deployedArgs:
  "parse_flags (formalFlags libFlags) deployedArgs defaultFlags =
     Inr \<lparr>metricsAddr = ''127.0.0.1:8080'', probeAddr = '':8081'', enableLeaderElection = True\<rparr>"
  by (simp add: deployedArgs_def argument_def split_flag_def formalFlags_simps set_flag_def stringVar_def
      boolVar_def parse_bool_def defaultFlags_def)

text \<open>
  C37: the three flags can be set to any values, whatever other flags the libraries define and whatever characters
  the values have, and reach the manager: once the configuration is loaded, the one manager that is created has exactly
  these addresses and this choice of leader election. With the arguments of the deployment it
  serves metrics on the loopback interface only, and elects a leader; without arguments it serves them on every
  interface, and elects none.
\<close>

theorem command_line:
  "managers (main libFlags (renderFlags f) getConfig newClient serverGroups lib) =
     (if lib GetConfigOrDie = None then
        [\<lparr>MetricsBindAddress = metricsAddr f, Port = 9443, HealthProbeBindAddress = probeAddr f,
          LeaderElection = enableLeaderElection f, LeaderElectionID = ''ac631cda.hyperfoil.io''\<rparr>] else [])
   \<and> managers (main libFlags deployedArgs getConfig newClient serverGroups lib) =
     (if lib GetConfigOrDie = None then
        [\<lparr>MetricsBindAddress = ''127.0.0.1:8080'', Port = 9443, HealthProbeBindAddress = '':8081'',
          LeaderElection = True, LeaderElectionID = ''ac631cda.hyperfoil.io''\<rparr>] else [])
   \<and> managers (main libFlags [] getConfig newClient serverGroups lib) =
     (if lib GetConfigOrDie = None then
        [\<lparr>MetricsBindAddress = '':8080'', Port = 9443, HealthProbeBindAddress = '':8081'',
          LeaderElection = False, LeaderElectionID = ''ac631cda.hyperfoil.io''\<rparr>] else [])"
  unfolding main_def parse_renderFlags parse_deployedArgs
  by (simp add: managers_startup managerOptionsOf_def) (simp add: defaultFlags_def)

end
