(* ===== verification/Wiring.thy ===== *)
theory Wiring
  imports Outcome Cluster
begin

text \<open>
  The objects fit together: what a pod refers to (secrets and keys, volumes, certificates, host
  names) is what the other operations provide.
\<close>

section \<open>References of a pod\<close>

definition pod_containers :: "pod \<Rightarrow> container list" where
  "pod_containers p = ps_init (p_spec p) @ ps_containers (p_spec p)"

text \<open>Secret and key of every environment variable that is read from a secret.\<close>

definition env_refs :: "pod \<Rightarrow> (string \<times> string) list" where
  "env_refs p = concat (map (\<lambda>c. concat (map (\<lambda>v. case ev_from v of
     None \<Rightarrow> [] | Some sel \<Rightarrow> [(sks_name sel, sks_key sel)]) (c_env c))) (pod_containers p))"

definition declared :: "pod \<Rightarrow> string list" where
  "declared p = map vol_name (ps_volumes (p_spec p))"

definition workloadPods ::
  "Horreum \<Rightarrow> 'w HorreumReconciler \<Rightarrow> string \<Rightarrow> string \<Rightarrow> pod list" where
  "workloadPods cr r keycloakPublicUrl appPublicUrl =
     postgresPod cr r # appPod cr keycloakPublicUrl appPublicUrl #
     (case keycloakPod cr keycloakPublicUrl of None \<Rightarrow> [] | Some p \<Rightarrow> [p])"

lemma workloadPods_all:
  "P (postgresPod cr r) \<Longrightarrow> P (appPod cr ku au) \<Longrightarrow>
   (\<And>p. keycloakPod cr ku = Some p \<Longrightarrow> P p) \<Longrightarrow> list_all P (workloadPods cr r ku au)"
  by (auto simp: workloadPods_def split: option.splits)

text \<open>
  What the API server asks of a pod: a container, container and volume names that are not used
  twice, in each container variable names that are not used twice, variables with a value or a
  source but not both, and mounts of declared volumes only.
\<close>

definition valid_container :: "pod \<Rightarrow> container \<Rightarrow> bool" where
  "valid_container p c \<longleftrightarrow>
     c_name c \<noteq> [] \<and> c_image c \<noteq> [] \<and> distinct (map ev_name (c_env c))
     \<and> list_all (\<lambda>v. ev_value v = [] \<or> ev_from v = None) (c_env c)
     \<and> list_all (\<lambda>m. vm_name m \<in> set (declared p)) (c_mounts c)"

definition valid_pod :: "pod \<Rightarrow> bool" where
  "valid_pod p \<longleftrightarrow>
     ps_containers (p_spec p) \<noteq> [] \<and> distinct (map c_name (pod_containers p))
     \<and> distinct (declared p) \<and> list_all (valid_container p) (pod_containers p)"

lemma env_simps [simp]:
  "ev_name (secretEnv n s k) = n" "ev_value (secretEnv n s k) = []"
  "ev_name (env_value n v) = n" "ev_from (env_value n v) = None"
  by (simp_all add: secretEnv_def env_value_def)

lemma image_nonempty: "dbImage cr b \<noteq> []" "appImage cr \<noteq> []"
  by (simp_all add: dbImage_def appImage_def ifThenElse_def withDefault_nonempty)

lemmas pod_unfold = pod_containers_def Let_def zero_pod_def zero_pod_spec_def zero_container_def

text \<open>
  C30: the pods the operator builds are well-formed, for every resource and on both kinds of
  cluster.
\<close>

theorem pods_wellformed:
  "list_all valid_pod (workloadPods cr r keycloakPublicUrl appPublicUrl)"
proof (rule workloadPods_all)
  show "valid_pod (postgresPod cr r)"
    by (simp add: valid_pod_def valid_container_def declared_def postgresPod_def postgresEnv_def pod_unfold
        image_nonempty)
  show "valid_pod (appPod cr keycloakPublicUrl appPublicUrl)"
    by (cases "usesCerts (Route_Type (Spec_Route (Spec cr)))";
        cases "fmlookup (om_annotations (Meta cr)) ''java-options''")
      (simp_all add: valid_pod_def valid_container_def declared_def appPod_def appEnv_def appVolumes_def
        appMounts_def pod_unfold image_nonempty)
  show "valid_pod p" if "keycloakPod cr keycloakPublicUrl = Some p" for p
    using that
    by (auto simp: valid_pod_def valid_container_def declared_def keycloakPod_def keycloakEnv_def pod_unfold
        withDefault_nonempty split: option.splits)
qed

section \<open>Secrets\<close>

text \<open>The secrets of \<^verbatim>\<open>reconcileSecrets\<close> with the keys that it checks.\<close>

definition operatorSecrets :: "Horreum \<Rightarrow> (string \<times> string list) list" where
  "operatorSecrets cr =
     [(dbAdminSecret cr, basicKeys), (appUserSecret cr, basicKeys @ [''dbsecret'']),
      (keycloakAdminSecret cr, basicKeys), (keycloakDbSecret cr, basicKeys),
      (horreumAdminSecret cr, basicKeys)]"

lemma env_refs_simps [simp]:
  "ev_from (secretEnv n s k) = Some \<lparr>sks_name = s, sks_key = k, sks_optional = Some False\<rparr>"
  by (simp add: secretEnv_def)

definition covered :: "Horreum \<Rightarrow> string \<times> string \<Rightarrow> bool" where
  "covered cr ref \<longleftrightarrow> list_ex (\<lambda>(n, ks). n = fst ref \<and> snd ref \<in> set ks) (operatorSecrets cr)"

lemma covered_simps [simp]:
  "covered cr (dbAdminSecret cr, ''username'')" "covered cr (dbAdminSecret cr, ''password'')"
  "covered cr (appUserSecret cr, ''username'')" "covered cr (appUserSecret cr, ''password'')"
  "covered cr (appUserSecret cr, ''dbsecret'')"
  "covered cr (keycloakAdminSecret cr, ''username'')" "covered cr (keycloakAdminSecret cr, ''password'')"
  "covered cr (keycloakDbSecret cr, ''username'')" "covered cr (keycloakDbSecret cr, ''password'')"
  "covered cr (horreumAdminSecret cr, ''username'')" "covered cr (horreumAdminSecret cr, ''password'')"
  by (simp_all add: covered_def operatorSecrets_def basicKeys_def)

lemma env_refs_covered: "list_all (\<lambda>p. list_all (covered cr) (env_refs p)) (workloadPods cr r ku au)"
proof (rule workloadPods_all)
  show "list_all (covered cr) (env_refs (postgresPod cr r))"
    by (simp add: env_refs_def postgresPod_def postgresEnv_def pod_unfold)
  show "list_all (covered cr) (env_refs (appPod cr ku au))"
    by (simp add: env_refs_def appPod_def appEnv_def pod_unfold split: option.split)
  show "list_all (covered cr) (env_refs p)" if "keycloakPod cr ku = Some p" for p
    using that by (auto simp add: env_refs_def keycloakPod_def keycloakEnv_def pod_unfold split: option.splits)
qed

lemma string_data_key: "obj_key (SecretObj (sec\<lparr>sec_string_data := m\<rparr>)) = obj_key (SecretObj sec)"
  by (simp add: obj_key_def obj_name_def obj_namespace_def)

section \<open>Services and pods\<close>

text \<open>A service routes to the pods of its namespace whose labels contain its selector.\<close>

definition selects :: "service \<Rightarrow> pod \<Rightarrow> bool" where
  "selects s p \<longleftrightarrow>
     om_namespace (svc_meta s) = om_namespace (p_meta p) \<and>
     fmpred (\<lambda>k v. fmlookup (om_labels (p_meta p)) k = Some v) (svc_selector s)"

text \<open>The labels of the pods and the selectors of the services, as in the source.\<close>

definition service_labels :: "Horreum \<Rightarrow> string \<Rightarrow> (string, string) fmap" where
  "service_labels cr component = fmap_of_list [(''app'', Name cr), (''service'', component)]"

lemma selects_labels:
  assumes "svc_selector s = service_labels cr a" and "om_labels (p_meta p) = service_labels cr' b"
    and "om_namespace (svc_meta s) = Namespace cr" and "om_namespace (p_meta p) = Namespace cr'"
  shows "selects s p \<longleftrightarrow> a = b \<and> Name cr = Name cr' \<and> Namespace cr = Namespace cr'"
  by (auto simp: selects_def assms service_labels_def fmpred_iff split: if_splits)

lemma pod_labels:
  "om_labels (p_meta (postgresPod cr r)) = service_labels cr ''db''"
  "om_labels (p_meta (appPod cr ku au)) = service_labels cr ''app''"
  "keycloakPod cr ku = Some p \<Longrightarrow> om_labels (p_meta p) = service_labels cr ''keycloak''"
  "om_namespace (p_meta (postgresPod cr r)) = Namespace cr"
  "om_namespace (p_meta (appPod cr ku au)) = Namespace cr"
  "keycloakPod cr ku = Some p \<Longrightarrow> om_namespace (p_meta p) = Namespace cr"
  by (auto simp: postgresPod_def appPod_def keycloakPod_def Let_def zero_pod_def service_labels_def
      split: option.splits)

lemma service_selectors:
  "svc_selector (postgresService cr) = service_labels cr ''db''"
  "svc_selector (appService cr r) = service_labels cr ''app''"
  "svc_selector (keycloakService cr r) = service_labels cr ''keycloak''"
  "om_namespace (svc_meta (postgresService cr)) = Namespace cr"
  "om_namespace (svc_meta (appService cr r)) = Namespace cr"
  "om_namespace (svc_meta (keycloakService cr r)) = Namespace cr"
  by (simp_all add: postgresService_def appService_def keycloakService_def service_labels_def)

definition same_resource :: "Horreum \<Rightarrow> Horreum \<Rightarrow> bool" where
  "same_resource cr cr' \<longleftrightarrow> Name cr = Name cr' \<and> Namespace cr = Namespace cr'"

lemma selects_iff:
  "selects (postgresService cr) (postgresPod cr' r) \<longleftrightarrow> same_resource cr cr'"
  "\<not> selects (postgresService cr) (appPod cr' ku au)"
  "keycloakPod cr' ku = Some p \<Longrightarrow> \<not> selects (postgresService cr) p"
  "\<not> selects (appService cr r) (postgresPod cr' r)"
  "selects (appService cr r) (appPod cr' ku au) \<longleftrightarrow> same_resource cr cr'"
  "keycloakPod cr' ku = Some p \<Longrightarrow> \<not> selects (appService cr r) p"
  "\<not> selects (keycloakService cr r) (postgresPod cr' r)"
  "\<not> selects (keycloakService cr r) (appPod cr' ku au)"
  "keycloakPod cr' ku = Some p \<Longrightarrow> selects (keycloakService cr r) p \<longleftrightarrow> same_resource cr cr'"
  by (simp_all add: selects_labels [OF service_selectors(1) pod_labels(1) service_selectors(4) pod_labels(4)]
    selects_labels [OF service_selectors(1) pod_labels(2) service_selectors(4) pod_labels(5)]
    selects_labels [OF service_selectors(1) pod_labels(3) service_selectors(4) pod_labels(6)]
    selects_labels [OF service_selectors(2) pod_labels(1) service_selectors(5) pod_labels(4)]
    selects_labels [OF service_selectors(2) pod_labels(2) service_selectors(5) pod_labels(5)]
    selects_labels [OF service_selectors(2) pod_labels(3) service_selectors(5) pod_labels(6)]
    selects_labels [OF service_selectors(3) pod_labels(1) service_selectors(6) pod_labels(4)]
    selects_labels [OF service_selectors(3) pod_labels(2) service_selectors(6) pod_labels(5)]
    selects_labels [OF service_selectors(3) pod_labels(3) service_selectors(6) pod_labels(6)]
    same_resource_def)

text \<open>
  C27: among the pods of any two resources (possibly the same one) each service selects
  exactly the pod of its own component of its own resource.
\<close>

theorem services_select_pods:
  "filter (selects (postgresService cr)) (workloadPods cr' r ku au) =
     (if same_resource cr cr' then [postgresPod cr' r] else [])
   \<and> filter (selects (appService cr r)) (workloadPods cr' r ku au) =
     (if same_resource cr cr' then [appPod cr' ku au] else [])
   \<and> filter (selects (keycloakService cr r)) (workloadPods cr' r ku au) =
     (if same_resource cr cr' then (case keycloakPod cr' ku of None \<Rightarrow> [] | Some p \<Rightarrow> [p]) else [])"
  by (cases "keycloakPod cr' ku") (simp_all add: workloadPods_def selects_iff)

section \<open>Certificates and addresses\<close>

text \<open>
  The secrets that are mounted, as container, path and name of the secret: the mount of a container refers to
  the volume of the pod with its name.
\<close>

definition secret_mount :: "pod \<Rightarrow> string \<Rightarrow> volume_mount \<Rightarrow> (string \<times> string \<times> string) list" where
  "secret_mount p c m =
     (case find (\<lambda>v. vol_name v = vm_name m) (ps_volumes (p_spec p)) of
        Some v \<Rightarrow> (case vol_source v of SecretVolume n \<Rightarrow> [(c, vm_path m, n)] | _ \<Rightarrow> [])
      | None \<Rightarrow> [])"

definition secret_mounts :: "pod \<Rightarrow> (string \<times> string \<times> string) list" where
  "secret_mounts p = concat (map (\<lambda>c. concat (map (secret_mount p (c_name c)) (c_mounts c))) (pod_containers p))"

text \<open>The values of an environment variable, over all containers.\<close>

definition env_of :: "pod \<Rightarrow> string \<Rightarrow> string list" where
  "env_of p n = concat (map (\<lambda>c. map ev_value (filter (\<lambda>v. ev_name v = n) (c_env c))) (pod_containers p))"

definition serving_cert :: "service \<Rightarrow> string option" where
  "serving_cert s =
     fmlookup (om_annotations (svc_meta s)) ''service.beta.openshift.io/serving-cert-secret-name''"

text \<open>
  C28: certificates where the servers look for them. The only secret mounted into the pod of Horreum is, in the container
  of Horreum at \<^verbatim>\<open>/opt/certs\<close>, the one that its service asks OpenShift to fill, or the user's own one for a passthrough
  route, and none if Horreum serves plain HTTP; the files that the environment of the container names
  are those of this mount, and are named only if it is there. In the same way the only secret mounted into the pod of
  Keycloak is, in its container at \<^verbatim>\<open>/etc/x509/https\<close>, the one of its service or the user's.
\<close>

theorem mounted_certificates:
  "secret_mounts (appPod cr ku au) =
     map (\<lambda>n. (''horreum'', ''/opt/certs'', n))
       (if Route_Type (Spec_Route (Spec cr)) = ''passthrough'' then [Route_TLS (Spec_Route (Spec cr))]
        else if Route_Type (Spec_Route (Spec cr)) \<in> set [''reencrypt'', []]
        then (case serving_cert (appService cr r) of None \<Rightarrow> [] | Some n \<Rightarrow> [n]) else [])
   \<and> env_of (appPod cr ku au) ''QUARKUS_HTTP_SSL_CERTIFICATE_FILE'' =
       map (\<lambda>(_, path, _). path @ ''/'' @ TLSCertKey) (secret_mounts (appPod cr ku au))
   \<and> env_of (appPod cr ku au) ''QUARKUS_HTTP_SSL_CERTIFICATE_KEY_FILE'' =
       map (\<lambda>(_, path, _). path @ ''/'' @ TLSPrivateKeyKey) (secret_mounts (appPod cr ku au))
   \<and> (case keycloakPod cr ku of None \<Rightarrow> True | Some p \<Rightarrow>
       secret_mounts p = map (\<lambda>n. (''keycloak'', ''/etc/x509/https'', n))
         (if Route_Type (Kc_Route (Keycloak cr)) = ''passthrough'' then [Route_TLS (Kc_Route (Keycloak cr))]
          else (case serving_cert (keycloakService cr r) of None \<Rightarrow> [] | Some n \<Rightarrow> [n]))
       \<and> env_of p ''KC_HTTPS_CERTIFICATE_FILE'' = map (\<lambda>(_, path, _). path @ ''/'' @ TLSCertKey) (secret_mounts p)
       \<and> env_of p ''KC_HTTPS_CERTIFICATE_KEY_FILE'' =
           map (\<lambda>(_, path, _). path @ ''/'' @ TLSPrivateKeyKey) (secret_mounts p))"
proof (intro conjI)
  show "case keycloakPod cr ku of None \<Rightarrow> True | Some p \<Rightarrow>
       secret_mounts p = map (\<lambda>n. (''keycloak'', ''/etc/x509/https'', n))
         (if Route_Type (Kc_Route (Keycloak cr)) = ''passthrough'' then [Route_TLS (Kc_Route (Keycloak cr))]
          else (case serving_cert (keycloakService cr r) of None \<Rightarrow> [] | Some n \<Rightarrow> [n]))
       \<and> env_of p ''KC_HTTPS_CERTIFICATE_FILE'' = map (\<lambda>(_, path, _). path @ ''/'' @ TLSCertKey) (secret_mounts p)
       \<and> env_of p ''KC_HTTPS_CERTIFICATE_KEY_FILE'' =
           map (\<lambda>(_, path, _). path @ ''/'' @ TLSPrivateKeyKey) (secret_mounts p)"
    by (simp add: secret_mounts_def secret_mount_def env_of_def env_value_def keycloakPod_def keycloakEnv_def keycloakService_def
        serving_cert_def pod_unfold split: option.split)
qed (simp_all add: secret_mounts_def secret_mount_def env_of_def env_value_def appPod_def appEnv_def appVolumes_def appMounts_def
    appService_def serving_cert_def usesCerts_def pod_unfold split: option.split)

text \<open>
  C31: the three places of the database pod that name a user agree: the container runs as it,
  the volume belongs to its group, and the init container, where there is one, changes the owner of
  the data directory to it; a user given in the resource wins over the image's default.
\<close>

theorem postgres_user:
  "let u = (case Pg_User (Postgres cr) of Some user \<Rightarrow> user
            | None \<Rightarrow> if isPostgresImage (dbImage cr (UseRedHatImages r)) then 999 else 26);
       p = p_spec (postgresPod cr r)
   in map c_security (ps_containers p) = [Some \<lparr>sc_run_as_user = Some u\<rparr>]
    \<and> ps_security p = Some \<lparr>psc_fs_group = Some u\<rparr>
    \<and> map c_command (ps_init p) =
        (if UseRedHatImages r then [] else [[''chown'', itoa (sint u), ''/var/lib/pgsql/data'']])"
  by (simp add: postgresPod_def postgresUserId_def Let_def zero_pod_def zero_pod_spec_def
      zero_container_def split: option.split)

end
