(* ===== verification/Exposure.thy ===== *)
theory Exposure
  imports Wiring
begin

text \<open>
  How the services are reached from outside: node ports, routes and their TLS settings, and the
  host name under which Keycloak is told that it is known.
\<close>

section \<open>Service types\<close>

text \<open>
  \<^verbatim>\<open>isNodePort\<close>, which decides how the public URL is found, agrees with \<^verbatim>\<open>serviceType\<close>, which decides
  the type of the service: a service is of type \<^verbatim>\<open>NodePort\<close> exactly if its URL is built from a node
  port; and a service that the resource leaves unset is reached by a route or by a node port.
\<close>

lemma node_port_services:
  "(svc_type (appService cr r) = ServiceTypeNodePort \<longleftrightarrow> isNodePort r (Spec_ServiceType (Spec cr)))
   \<and> (svc_type (keycloakService cr r) = ServiceTypeNodePort \<longleftrightarrow> isNodePort r (Kc_ServiceType (Keycloak cr)))
   \<and> (isNodePort r [] \<longleftrightarrow> \<not> RoutesAvailable r)"
  by (auto simp: appService_def keycloakService_def serviceType_def isNodePort_def)

section \<open>The host name of Keycloak\<close>

lemma https_url_host_port:
  assumes "0 \<le> sint port"
  shows "https_url h port = ''https://'' @ host_port h (nat (sint port))"
  using assms by (simp add: https_url_def host_port_def itoa_def)

text \<open>
  C26: for a node host that is a DNS name and an assigned port, Keycloak's pod is built (the URL
  that the operator made parses), and the host name it announces is that host with that port.
\<close>

theorem node_port_hostname:
  assumes "dns_name (Spec_NodeHost (Spec cr))" and "0 < sint port"
  shows "\<exists>p. keycloakPod cr (https_url (Spec_NodeHost (Spec cr)) port) = Some p
    \<and> env_of p ''KC_HOSTNAME'' = [Spec_NodeHost (Spec cr) @ '':'' @ itoa (sint port)]"
proof -
  let ?h = "Spec_NodeHost (Spec cr)"
  have "parse_request_uri (https_url ?h port) = Some (host_port ?h (nat (sint port)))"
    using assms(2) parse_https_host_port [OF assms(1)] by (simp only: https_url_host_port order.strict_implies_order)
  moreover have "host_port ?h (nat (sint port)) = ?h @ '':'' @ itoa (sint port)"
    using assms by (simp add: host_port_def itoa_def)
  ultimately show ?thesis
    by (simp add: keycloakPod_def Let_def env_of_def keycloakEnv_def pod_unfold secretEnv_def env_value_def)
qed

theorem node_port_hostname_witness:
  "\<exists>p. keycloakPod sample_cr (https_url (Spec_NodeHost (Spec sample_cr)) 30080) = Some p
    \<and> env_of p ''KC_HOSTNAME'' = [Spec_NodeHost (Spec sample_cr) @ '':'' @ itoa (sint (30080 :: int32))]"
  by (rule node_port_hostname) (simp_all add: sample_cr_def dns_name_def char_class_defs code_of_def)

section \<open>Routes\<close>

text \<open>The route that the operator builds for a service, with given TLS settings.\<close>

definition route_object :: "RouteSpec \<Rightarrow> string \<Rightarrow> Horreum \<Rightarrow> tls_config option \<Rightarrow> route" where
  "route_object rs sfx cr cfg =
     \<lparr>rt_meta = zero_meta\<lparr>om_name := Name cr @ sfx, om_namespace := Namespace cr\<rparr>,
      rt_host = Route_Host rs, rt_subdomain = (if Route_Host rs = [] then Name cr @ sfx else []),
      rt_to_kind = ''Service'', rt_to_name = Name cr @ sfx, rt_tls = cfg, rt_ingress = []\<rparr>"

text \<open>The TLS settings that \<^verbatim>\<open>tls\<close> gives a route of a type that reads a certificate.\<close>

definition tls_of_secret :: "string \<Rightarrow> secret \<Rightarrow> tls_config" where
  "tls_of_secret termination sec =
     \<lparr>tls_termination = termination, tls_insecure = ''Redirect'',
      tls_certificate = data_at (sec_data sec) TLSCertKey, tls_key = data_at (sec_data sec) TLSPrivateKeyKey,
      tls_ca = data_at (sec_data sec) ''ca.crt'', tls_destination_ca = []\<rparr>"

text \<open>
  The settings by type: none for \<^verbatim>\<open>http\<close>; no certificate, no key and no authority for \<^verbatim>\<open>passthrough\<close>; those of a
  secret for \<^verbatim>\<open>edge\<close>, for \<^verbatim>\<open>reencrypt\<close> and for the default, which is \<^verbatim>\<open>reencrypt\<close>; another type has none.
\<close>

definition tls_expected :: "string \<Rightarrow> secret \<Rightarrow> tls_config option option" where
  "tls_expected ty sec =
     (if ty = ''http'' then Some None
      else if ty = ''passthrough'' then
        Some (Some \<lparr>tls_termination = ''passthrough'', tls_insecure = ''Redirect'',
          tls_certificate = [], tls_key = [], tls_ca = [], tls_destination_ca = []\<rparr>)
      else if ty = ''edge'' then Some (Some (tls_of_secret ''edge'' sec))
      else if ty = ''reencrypt'' \<or> ty = [] then Some (Some (tls_of_secret ''reencrypt'' sec))
      else None)"

text \<open>
  The secret that the settings are taken from, and the state after it was read: no call is made for \<^verbatim>\<open>http\<close> and
  \<^verbatim>\<open>passthrough\<close> or if the resource names no secret.
\<close>

definition certificate_read :: "'w HorreumReconciler \<Rightarrow> Horreum \<Rightarrow> 'w st \<Rightarrow> (go_error + secret) \<times> 'w st" where
  "certificate_read r cr s =
     (let rs = Spec_Route (Spec cr); key = (KSecret, Namespace cr, Route_TLS rs) in
      if Route_Type rs \<in> set [''http'', ''passthrough''] \<or> Route_TLS rs = [] then (Inr zero_secret, s)
      else case cl_get_secret (Client r) (Namespace cr) (Route_TLS rs) (st_world s) of
        (found, w) \<Rightarrow> (found, s\<lparr>st_world := w, st_events := st_events s @ [GetEv key (error_of found)]\<rparr>))"

text \<open>
  The outcome for a route with given host and name: the error of the failed read, after a report as the only
  other call; or exactly that read, and the route with the settings of Horreum's route type or the error for an unknown
  type.
\<close>

definition route_outcome ::
  "RouteSpec \<Rightarrow> string \<Rightarrow> 'w HorreumReconciler \<Rightarrow> Horreum \<Rightarrow> 'w st \<Rightarrow> route option res \<Rightarrow> 'w st \<Rightarrow> bool" where
  "route_outcome rs sfx r cr s x t \<longleftrightarrow>
     (let ty = Route_Type (Spec_Route (Spec cr)) in
      case certificate_read r cr s of
        (Inl e, u) \<Rightarrow> x = Err e \<and> error_reported cr t
          \<and> (\<exists>status. st_events t = st_events u @ [StatusEv (Namespace cr) (Name cr) status])
      | (Inr sec, u) \<Rightarrow> t = u \<and>
          x = (case tls_expected ty sec of
                 Some cfg \<Rightarrow> Ok (Some (route_object rs sfx cr cfg))
               | None \<Rightarrow> Err (NewError (''Invalid route type: '' @ ty))))"

lemma wp_route:
  assumes "RoutesAvailable r"
  shows "wp (route rs sfx cr r) (route_outcome rs sfx r cr s) s"
proof -
  let ?ty = "Route_Type (Spec_Route (Spec cr))"
  consider "?ty = ''http''" | "?ty = ''passthrough''" | "?ty = ''edge''"
    | "?ty = ''reencrypt'' \<or> ?ty = []" | "?ty \<notin> {''http'', ''passthrough'', ''edge'', ''reencrypt'', []}"
    by blast
  then show ?thesis
    using assms
    by cases
      (auto simp: route_def tls_def Let_def wp_bind wp_and_then wp_return wp_ok wp_fail route_outcome_def
        certificate_read_def tls_expected_def route_object_def tls_of_secret_def data_at_def get_secret_def wp_typed_get
        simp del: wp_updateStatus
        split: prod.splits sum.splits intro!: wp_report_error_event)
qed

text \<open>
  The traffic that a route hands on to the pods is encrypted if the route passes TLS through or encrypts it again.
\<close>

definition encrypted_inside :: "route \<Rightarrow> bool" where
  "encrypted_inside rt \<longleftrightarrow>
     (case rt_tls rt of None \<Rightarrow> False | Some cfg \<Rightarrow> tls_termination cfg \<in> set [''passthrough'', ''reencrypt''])"

text \<open>
  C24: the route of Horreum. On a cluster without routes there is none, and no call is made. On OpenShift the
  outcome is that of the route type, the error for an unknown type or a failed read included, with exactly the
  settings and the calls of \<^verbatim>\<open>route_outcome\<close>: the user's certificate is read for \<^verbatim>\<open>edge\<close> and \<^verbatim>\<open>reencrypt\<close> (the
  default), \<^verbatim>\<open>passthrough\<close> gets no certificate, key or authority, \<^verbatim>\<open>http\<close> gets no TLS at all. A route leads to the
  service of Horreum, and traffic behind the route is encrypted exactly if that service listens on port 443.
\<close>

theorem app_route_cases:
  "wp (appRoute cr r)
    (\<lambda>x t. if RoutesAvailable r
       then route_outcome (Spec_Route (Spec cr)) [] r cr s x t \<and>
         (case x of
            Ok (Some rt) \<Rightarrow> rt_to_kind rt = ''Service'' \<and> rt_to_name rt = om_name (svc_meta (appService cr r))
              \<and> om_namespace (rt_meta rt) = om_namespace (svc_meta (appService cr r))
              \<and> encrypted_inside rt = (map sp_port (svc_ports (appService cr r)) = [443])
          | _ \<Rightarrow> True)
       else x = Ok None \<and> t = s) s"
proof (cases "RoutesAvailable r")
  case True
  have "wp (appRoute cr r) (route_outcome (Spec_Route (Spec cr)) [] r cr s) s"
    unfolding appRoute_def by (rule wp_route [OF True])
  then show ?thesis
    by (rule wp_mono)
      (auto simp: True route_outcome_def Let_def tls_expected_def route_object_def encrypted_inside_def
        tls_of_secret_def appService_def servicePort_def split: prod.splits sum.splits if_splits)
qed (simp add: appRoute_def route_def wp_ok)

text \<open>The resource with another certificate for the Keycloak route.\<close>

definition keycloak_certificate :: "string \<Rightarrow> Horreum \<Rightarrow> Horreum" where
  "keycloak_certificate n cr =
     (let kc = Keycloak cr in
      cr\<lparr>Spec := (Spec cr)\<lparr>Spec_Keycloak := kc\<lparr>Kc_Route := (Kc_Route kc)\<lparr>Route_TLS := n\<rparr>\<rparr>\<rparr>\<rparr>)"

definition accepted_type :: "string \<Rightarrow> bool" where
  "accepted_type ty \<longleftrightarrow> ty \<in> set [''passthrough'', ''reencrypt'', []]"

text \<open>Of the resource, only its metadata and the settings of Horreum's route make a difference.\<close>

lemma route_results:
  assumes "Meta cr' = Meta cr" and "Spec_Route (Spec cr') = Spec_Route (Spec cr)"
  shows "fst (run_state (route rs' sfx' cr' r) s) =
     map_res (map_option (\<lambda>rt. route_object rs' sfx' cr (rt_tls rt))) (fst (run_state (route rs sfx cr r) s))"
proof (cases "RoutesAvailable r")
  case True
  show ?thesis
    using wp_route [OF True, of rs sfx cr s] wp_route [OF True, of rs' sfx' cr' s] assms
    by (auto simp: wp_def certificate_read_def route_outcome_def Let_def route_object_def split: prod.splits sum.splits option.splits)
qed (simp add: route_def ok_def)

text \<open>
  C25: the Keycloak route has the TLS settings of Horreum's route. If its own type is accepted, then from any
  state the attempt to build it ends as the attempt to build Horreum's route does: with no route,
  with the same error, or with a route of its own name and host whose TLS settings are those of
  Horreum's route, whether they come from a secret or not. Its own type decides only whether it is rejected, and
  its own certificate makes no difference.
\<close>

theorem keycloak_route_ignores_own_tls:
  "fst (run_state (keycloakRoute cr r) s) =
     (if accepted_type (Route_Type (Kc_Route (Keycloak cr)))
      then map_res (map_option (\<lambda>rt. route_object (Kc_Route (Keycloak cr)) ''-keycloak'' cr (rt_tls rt)))
        (fst (run_state (appRoute cr r) s))
      else Err (NewError ''keycloak supports only TLS-encrypted routes''))
   \<and> fst (run_state (keycloakRoute (keycloak_certificate n cr) r) s) = fst (run_state (keycloakRoute cr r) s)"
proof -
  have "fst (run_state (keycloakRoute cr' r) s) =
     (if accepted_type (Route_Type (Kc_Route (Keycloak cr')))
      then map_res (map_option (\<lambda>rt. route_object (Kc_Route (Keycloak cr')) ''-keycloak'' cr (rt_tls rt)))
        (fst (run_state (appRoute cr r) s))
      else Err (NewError ''keycloak supports only TLS-encrypted routes''))"
    if "Meta cr' = Meta cr" and "Spec_Route (Spec cr') = Spec_Route (Spec cr)" for cr'
    using route_results [OF that, of "Kc_Route (Keycloak cr')" "''-keycloak''" r s "Spec_Route (Spec cr)" "[]"]
    by (auto simp: keycloakRoute_def appRoute_def accepted_type_def fail_def)
  from this [of cr] this [of "keycloak_certificate n cr"] show ?thesis
    by (simp add: keycloak_certificate_def Let_def route_object_def)
qed

end
