(* ===== verification/Bounds.thy ===== *)
theory Bounds
  imports Safety Wiring
begin

text \<open>
  Bounds: a pass ends after a bounded number of API calls whatever the server answers, and the
  secrets that a pass generates are complete.
\<close>

section \<open>The number of calls\<close>

text \<open>
  From every state, the computation makes at most \<open>a\<close> calls if it returns a value, and at most \<open>b\<close> if
  it ends the pass: with an error, a panic or, for a stage, a request to wait.
\<close>

abbreviation calls_within :: "nat \<Rightarrow> 'w st \<Rightarrow> 'w st \<Rightarrow> bool" where
  "calls_within n s t \<equiv> length (st_events t) \<le> length (st_events s) + n"

definition calls :: "nat \<Rightarrow> ('w st, 'a) state \<Rightarrow> bool" where
  "calls n m \<longleftrightarrow> (\<forall>s. wp m (\<lambda>_. calls_within n s) s)"

definition costs :: "nat \<Rightarrow> nat \<Rightarrow> ('w st, 'a res) state \<Rightarrow> bool" where
  "costs a b m \<longleftrightarrow> (\<forall>s. wp m (\<lambda>x. calls_within (case x of Ok _ \<Rightarrow> a | _ \<Rightarrow> b) s) s)"

definition stage_costs :: "nat \<Rightarrow> nat \<Rightarrow> ('w st, (ctrl_result + 'a) res) state \<Rightarrow> bool" where
  "stage_costs a b m \<longleftrightarrow> (\<forall>s. wp m (\<lambda>x. calls_within (case x of Ok (Inr _) \<Rightarrow> a | _ \<Rightarrow> b) s) s)"

lemma wp_calls: "calls n m \<Longrightarrow> wp m (\<lambda>_. calls_within n s) s"
  unfolding calls_def by (erule spec)

lemma wp_costs: "costs a b m \<Longrightarrow> wp m (\<lambda>x. calls_within (case x of Ok _ \<Rightarrow> a | _ \<Rightarrow> b) s) s"
  unfolding costs_def by (erule spec)

lemma wp_stage_costs: "stage_costs a b m \<Longrightarrow> wp m (\<lambda>x. calls_within (case x of Ok (Inr _) \<Rightarrow> a | _ \<Rightarrow> b) s) s"
  unfolding stage_costs_def by (erule spec)

lemma costs_mono: "costs a b m \<Longrightarrow> a \<le> a' \<Longrightarrow> b \<le> b' \<Longrightarrow> costs a' b' m"
  unfolding costs_def by (rule allI, rule wp_mono, erule spec) (auto split: res.splits)

lemma stage_costs_mono: "stage_costs a b m \<Longrightarrow> a \<le> a' \<Longrightarrow> b \<le> b' \<Longrightarrow> stage_costs a' b' m"
  unfolding stage_costs_def by (rule allI, rule wp_mono, erule spec) (auto split: res.splits sum.splits)

lemma costs_bind:
  fixes m :: "('w st, 'a) state"
  assumes "calls n m" and "\<And>x. costs a b (k x)"
  shows "costs (n + a) (n + b) (State_Monad.bind m k)"
  unfolding costs_def wp_bind
proof (rule allI, rule wp_mono [OF wp_calls [OF assms(1)]])
  fix s t :: "'w st" and x
  assume t: "calls_within n s t"
  show "wp (k x) (\<lambda>x. calls_within (case x of Ok _ \<Rightarrow> n + a | _ \<Rightarrow> n + b) s) t"
    by (rule wp_mono [OF wp_costs [OF assms(2)]]) (use t in \<open>auto split: res.splits\<close>)
qed

lemma costs_and_then:
  fixes m :: "('w st, 'a res) state"
  assumes "costs a b m" and "\<And>x. costs c d (k x)"
  shows "costs (a + c) (max b (a + d)) (and_then m k)"
  unfolding costs_def wp_and_then
proof (rule allI, rule wp_mono [OF wp_costs [OF assms(1)]])
  fix s t :: "'w st" and x :: "'a res"
  assume t: "calls_within (case x of Ok _ \<Rightarrow> a | _ \<Rightarrow> b) s t"
  have "wp (k y) (\<lambda>x. calls_within (case x of Ok _ \<Rightarrow> a + c | _ \<Rightarrow> max b (a + d)) s) t" if "x = Ok y" for y
    by (rule wp_mono [OF wp_costs [OF assms(2)]]) (use t that in \<open>auto split: res.splits\<close>)
  then show "case x of Ok y \<Rightarrow> wp (k y) (\<lambda>x. calls_within (case x of Ok _ \<Rightarrow> a + c | _ \<Rightarrow> max b (a + d)) s) t
      | Err e \<Rightarrow> calls_within (case Err e of Ok _ \<Rightarrow> a + c | _ \<Rightarrow> max b (a + d)) s t
      | Panic p \<Rightarrow> calls_within (case Panic p of Ok _ \<Rightarrow> a + c | _ \<Rightarrow> max b (a + d)) s t"
    using t by (cases x) auto
qed

lemma stage_and_then:
  fixes m :: "('w st, 'a res) state"
  assumes "costs a b m" and "\<And>x. stage_costs c d (k x)"
  shows "stage_costs (a + c) (max b (a + d)) (and_then m k)"
  unfolding stage_costs_def wp_and_then
proof (rule allI, rule wp_mono [OF wp_costs [OF assms(1)]])
  fix s t :: "'w st" and x :: "'a res"
  assume t: "calls_within (case x of Ok _ \<Rightarrow> a | _ \<Rightarrow> b) s t"
  have "wp (k y) (\<lambda>x. calls_within (case x of Ok (Inr _) \<Rightarrow> a + c | _ \<Rightarrow> max b (a + d)) s) t" if "x = Ok y" for y
    by (rule wp_mono [OF wp_stage_costs [OF assms(2)]]) (use t that in \<open>auto split: res.splits sum.splits\<close>)
  then show "case x of Ok y \<Rightarrow> wp (k y) (\<lambda>x. calls_within (case x of Ok (Inr _) \<Rightarrow> a + c | _ \<Rightarrow> max b (a + d)) s) t
      | Err e \<Rightarrow> calls_within (case Err e of Ok (Inr _) \<Rightarrow> a + c | _ \<Rightarrow> max b (a + d)) s t
      | Panic p \<Rightarrow> calls_within (case Panic p of Ok (Inr _) \<Rightarrow> a + c | _ \<Rightarrow> max b (a + d)) s t"
    using t by (cases x) auto
qed

lemma costs_unless:
  fixes m :: "('w st, (ctrl_result + 'a) res) state"
  assumes "stage_costs a b m" and "\<And>x. costs c d (k x)"
  shows "costs (max b (a + c)) (max b (a + d)) (unless_waiting m k)"
  unfolding costs_def unless_waiting_def wp_and_then
proof (rule allI, rule wp_mono [OF wp_stage_costs [OF assms(1)]])
  fix s t :: "'w st" and x :: "(ctrl_result + 'a) res"
  let ?Q = "\<lambda>x. calls_within (case x of Ok _ \<Rightarrow> max b (a + c) | _ \<Rightarrow> max b (a + d)) s"
  assume t: "calls_within (case x of Ok (Inr _) \<Rightarrow> a | _ \<Rightarrow> b) s t"
  have "wp (k y) ?Q t" if "x = Ok (Inr y)" for y
    by (rule wp_mono [OF wp_costs [OF assms(2)]]) (use t that in \<open>auto split: res.splits\<close>)
  then show "case x of Ok y \<Rightarrow> wp (case y of Inl result \<Rightarrow> ok result | Inr a \<Rightarrow> k a) ?Q t
      | Err e \<Rightarrow> ?Q (Err e) t | Panic p \<Rightarrow> ?Q (Panic p) t"
    using t by (cases x) (auto simp: wp_ok split: sum.splits)
qed

lemma costs_if:
  "costs a b m \<Longrightarrow> costs c d n \<Longrightarrow> costs (max a c) (max b d) (if p then m else n)"
  "stage_costs a b m' \<Longrightarrow> stage_costs c d n' \<Longrightarrow> stage_costs (max a c) (max b d) (if p then m' else n')"
  by (auto elim: costs_mono stage_costs_mono)

lemma costs_prod: "(\<And>x y. costs a b (f x y)) \<Longrightarrow> costs a b (case p of (x, y) \<Rightarrow> f x y)"
  by (cases p) simp

text \<open>The single calls, and what the operations add up to.\<close>

lemma costs_return:
  "costs 0 0 (ok a)" "costs 0 0 (fail e)" "costs 0 0 (panic p)" "stage_costs 0 0 (ok (Inr c))"
  by (simp_all add: costs_def stage_costs_def wp_simps)

lemma calls_silent:
  "calls 0 (newSecret r cr n)" "calls 0 (generatePassword r)" "calls 0 (markReady r cr)"
  "calls 0 (setKeycloakUrl url)" "calls 0 (setPublicUrl url)" "calls 1 (statusUpdate r cr)"
  "calls 0 (State_Monad.update (\<lambda>s. s\<lparr>st_status := status\<rparr>))" "calls 1 (emit e)" "calls 0 (effect f)"
proof -
  show "calls 0 (newSecret r cr n)"
    unfolding calls_def by (rule allI, rule wp_mono [OF wp_newSecret]) simp
  show "calls 0 (generatePassword r)"
    unfolding calls_def by (rule allI, rule wp_mono [OF wp_generatePassword]) simp
qed (simp_all add: calls_def markReady_def setKeycloakUrl_def setPublicUrl_def wp_simps split: prod.splits)

lemma costs_ensureSame:
  "costs 3 4 (ensureSame r cr object compare check)"
  "costs 2 3 (ensureSame r cr object nocompare check)"
  by (auto simp: costs_def ensureSame_def createObj_def get_obj_def nocompare_def wp_simps
      split: prod.splits option.splits sum.splits)

lemma costs_ensureDeleted: "costs 2 3 (ensureDeleted r cr object)"
  by (auto simp: costs_def ensureDeleted_def get_obj_def wp_simps
      split: prod.splits option.splits sum.splits)

lemma costs_createCA: "costs 4 4 (createCA cr r)"
  by (auto simp: costs_def createCA_def newCA_def publishCA_def get_secret_def get_config_map_def Let_def wp_simps
      split: prod.splits option.splits sum.splits)

lemma costs_createServiceCert: "costs 2 2 (createServiceCert cr r ca key n svc serial)"
  by (auto simp: costs_def createServiceCert_def get_secret_def Let_def wp_simps
      split: prod.splits option.splits sum.splits)

lemma costs_tls: "costs 1 2 (tls r cr rs)"
  by (auto simp: costs_def tls_def get_secret_def Let_def wp_simps
      split: prod.splits option.splits sum.splits)

lemma costs_waiting: "stage_costs 0 1 (waiting r cr reason)"
  by (auto simp: stage_costs_def waiting_def wp_simps split: prod.splits)

lemma costs_addresses: "costs 1 1 (getNodePort r service)" "costs 1 1 (getLoadBalancer r service)"
  by (auto simp: costs_def getNodePort_def getLoadBalancer_def getService_def get_service_def first_port_def wp_simps
      split: prod.splits option.splits sum.splits list.splits)

lemmas costs_intros = calls_silent costs_return costs_ensureSame(2,1) costs_ensureDeleted costs_createCA
  costs_createServiceCert costs_tls costs_waiting costs_addresses costs_unless costs_and_then stage_and_then
  costs_bind costs_if costs_prod

section \<open>The stages and the pass\<close>

abbreviation (input) routed :: "'w HorreumReconciler \<Rightarrow> nat \<Rightarrow> nat \<Rightarrow> nat" where
  "routed r a b \<equiv> (if RoutesAvailable r then a else b)"

lemma costs_reconcileCerts: "costs (routed r 2 8) (routed r 3 8) (reconcileCerts r cr)"
  unfolding reconcileCerts_def
  by (cases "RoutesAvailable r"; simp only: if_True if_False not_True_eq_False not_False_eq_True simp_thms;
      rule costs_mono, (rule costs_intros)+; simp)

lemma costs_reconcileSecrets: "costs 10 11 (reconcileSecrets r cr)"
  unfolding reconcileSecrets_def ensureSecret_def Let_def
  by (rule costs_mono, (rule costs_intros)+) simp_all

lemma costs_reconcilePostgres: "costs 9 10 (reconcilePostgres r cr)"
  unfolding reconcilePostgres_def Let_def by (rule costs_mono, (rule costs_intros)+) simp_all

lemma costs_route: "costs (routed r 1 0) (routed r 2 0) (route rs sfx cr r)"
  unfolding route_def Let_def
  by (cases "RoutesAvailable r"; simp only: if_True if_False not_True_eq_False not_False_eq_True simp_thms;
      rule costs_mono, (rule costs_intros)+; simp)

lemma costs_keycloakRoute: "costs (routed r 1 0) (routed r 2 0) (keycloakRoute cr r)"
  unfolding keycloakRoute_def Let_def
  by (rule costs_mono, (rule costs_intros costs_route)+) simp_all

lemma costs_serviceUrl: "stage_costs (routed r 3 1) (routed r 4 2) (serviceUrl r cr ty svc rt p u)"
  unfolding serviceUrl_def
  by (cases "RoutesAvailable r"; simp only: if_True if_False not_True_eq_False not_False_eq_True simp_thms;
      rule stage_costs_mono, (rule costs_intros)+; simp)

text \<open>Keycloak, deployed by the operator or external.\<close>

lemma costs_internal:
  assumes "publicUri cr = []"
  shows "stage_costs (routed r 6 4) (routed r 7 5) (keycloakUrl r cr rt)"
    and "costs 3 4 (reconcileKeycloakPod r cr rt url)"
  unfolding keycloakUrl_def reconcileKeycloakPod_def Let_def assms simp_thms if_True if_False
  by (rule stage_costs_mono, (rule costs_intros costs_serviceUrl)+, simp, simp)
    (rule costs_mono, (rule costs_intros)+, simp, simp)

lemma costs_external:
  assumes "publicUri cr \<noteq> []"
  shows "stage_costs 0 0 (keycloakUrl r cr rt)"
    and "costs (routed r 6 4) (routed r 7 5) (reconcileKeycloakPod r cr rt url)"
proof -
  show "stage_costs 0 0 (keycloakUrl r cr rt)"
    using assms by (simp add: keycloakUrl_def costs_return)
  show "costs (routed r 6 4) (routed r 7 5) (reconcileKeycloakPod r cr rt url)"
    unfolding reconcileKeycloakPod_def Let_def if_P [OF assms]
    by (cases "RoutesAvailable r"; simp only: if_True if_False; rule costs_mono, (rule costs_intros)+; simp)
qed

lemma costs_reconcileApplication: "costs (routed r 13 10) (routed r 13 10) (reconcileApplication r cr url)"
  unfolding reconcileApplication_def appUrl_def appRoute_def reconcileApp_def
  by (rule costs_mono, (rule costs_intros costs_route costs_serviceUrl)+) simp_all

lemma costs_reconcileKeycloak: "costs (routed r 23 17) (routed r 23 17) (reconcileKeycloak r cr)"
proof (cases "publicUri cr = []")
  case True
  show ?thesis
    unfolding reconcileKeycloak_def
    by (rule costs_mono, (rule costs_intros costs_keycloakRoute costs_internal [OF True] costs_reconcileApplication)+)
      simp_all
next
  case False
  show ?thesis
    unfolding reconcileKeycloak_def
    by (rule costs_mono, (rule costs_intros costs_keycloakRoute costs_external [OF False] costs_reconcileApplication)+)
      simp_all
qed

lemma costs_reconcileCr: "costs 44 44 (reconcileCr r cr)"
proof -
  have reject: "costs 1 1 (do { updateStatus r cr ''Error'' noNodeHost; fail e })" for e :: go_error
    by (auto simp: costs_def wp_simps split: prod.splits)
  show ?thesis
    unfolding reconcileCr_def
    by (rule costs_mono, (rule reject costs_intros costs_reconcileCerts costs_reconcileSecrets
        costs_reconcilePostgres costs_reconcileKeycloak)+) simp_all
qed

text \<open>
  C38: a pass always ends, and after at most 45 calls of the API server, whatever the server
  answers: no answer makes it poll or retry.
\<close>

theorem pass_bounded: "length (pass_events r ns n w) \<le> 45"
proof -
  have "wp (Reconcile r ns n) (\<lambda>_ t. length (st_events t) \<le> 45)
      \<lparr>st_world = w, st_status = zero_HorreumStatus, st_events = []\<rparr>"
    unfolding Reconcile_def
    by (auto simp: wp_simps split: prod.splits sum.splits res.splits
        intro!: wp_mono [OF wp_costs [OF costs_reconcileCr]])
  then show ?thesis
    by (simp add: runPass_def wp_def case_prod_beta)
qed

section \<open>Generated credentials\<close>

definition password_like :: "string \<Rightarrow> bool" where
  "password_like p \<longleftrightarrow> length p = 16 \<and> set p \<subseteq> set password_chars"

text \<open>
  A secret as \<^verbatim>\<open>newSecret\<close> makes it: exactly the given keys, the user named like the secret, and
  every other value a password.
\<close>

definition credentials :: "Horreum \<Rightarrow> string \<Rightarrow> string list \<Rightarrow> secret \<Rightarrow> bool" where
  "credentials cr n keys sec \<longleftrightarrow> obj_key (SecretObj sec) = (KSecret, Namespace cr, n)
     \<and> sec_type sec = SecretTypeBasicAuth \<and> sec_data sec = fmempty
     \<and> fset (fmdom (sec_string_data sec)) = set keys
     \<and> fmlookup (sec_string_data sec) ''username'' = Some n
     \<and> (\<forall>k \<in> set keys. k = ''username'' \<or> (\<exists>p. fmlookup (sec_string_data sec) k = Some p \<and> password_like p))"

definition generated :: "Horreum \<Rightarrow> obj \<Rightarrow> bool" where
  "generated cr ob \<longleftrightarrow>
     (\<exists>sec n keys. ob = SecretObj sec \<and> (n, keys) \<in> set (operatorSecrets cr) \<and> credentials cr n keys sec)"

lemma wp_generatePassword_like:
  "wp (generatePassword r) (\<lambda>p t. password_like p \<and> st_events t = st_events s) s"
  by (rule wp_mono [OF wp_generatePassword]) (simp add: password_like_def)

lemma wp_newSecret_credentials:
  "wp (newSecret r cr n) (\<lambda>sec t. credentials cr n basicKeys sec \<and> st_events t = st_events s) s"
  unfolding newSecret_def wp_bind wp_return
  by (rule wp_mono [OF wp_generatePassword_like])
    (auto simp: credentials_def basicKeys_def zero_secret_def obj_key_def obj_name_def obj_namespace_def)

lemma credentials_dbsecret:
  "credentials cr n basicKeys sec \<Longrightarrow> password_like p \<Longrightarrow>
   credentials cr n (basicKeys @ [''dbsecret''])
     (sec\<lparr>sec_string_data := fmupd ''dbsecret'' p (sec_string_data sec)\<rparr>)"
  by (auto simp: credentials_def basicKeys_def string_data_key)

text \<open>The language of calls that create only objects with a property.\<close>

definition creates_only :: "(obj \<Rightarrow> bool) \<Rightarrow> event list \<Rightarrow> bool" where
  "creates_only P es \<longleftrightarrow> list_all P (created_objs es)"

interpretation creating: trace_language "creates_only P" for P
  by unfold_locales (simp_all add: creates_only_def created_objs_def)

lemma credentials_owners: "credentials cr n keys (sec\<lparr>sec_meta := (sec_meta sec)\<lparr>om_owners := os\<rparr>\<rparr>) = credentials cr n keys sec"
  by (simp add: credentials_def obj_key_def obj_name_def obj_namespace_def)

lemma creates_ensureSame:
  assumes "\<And>os. P (set_owners os ob)"
  shows "state_io_rel (emits (creates_only P)) (ensureSame r cr (Some ob) compare check)"
proof (cases "set_controller_reference r cr ob")
  case (Inl e)
  then show ?thesis by (simp add: ensureSame_def creating.keeps_fail)
next
  case (Inr ob')
  then have "P ob'" using assms set_controller_reference_Inr(3) [OF Inr] by auto
  with Inr show ?thesis
    by (auto simp: state_io_rel_wp ensureSame_def createObj_def get_obj_def wp_simps emits_def creates_only_def
        created_objs_def split: prod.splits option.splits sum.splits)
qed

lemma creates_bind:
  fixes m :: "('w st, 'a) state"
  assumes "\<And>s. wp m (\<lambda>a t. J a \<and> st_events t = st_events s) s"
    and "\<And>a. J a \<Longrightarrow> state_io_rel (emits (creates_only P)) (k a)"
  shows "state_io_rel (emits (creates_only P)) (State_Monad.bind m k)"
  unfolding state_io_rel_wp wp_bind
proof (rule allI, rule wp_mono [OF assms(1)])
  fix s t :: "'w st" and a
  assume a: "J a \<and> st_events t = st_events s"
  then show "wp (k a) (\<lambda>_ u. emits (creates_only P) s u) t"
    by (intro wp_mono [OF assms(2) [unfolded state_io_rel_wp, rule_format]]) (auto simp: emits_def)
qed

lemma creates_ensureSecret:
  assumes "credentials cr n keys sec" and "(n, keys) \<in> set (operatorSecrets cr)"
  shows "state_io_rel (emits (creates_only (generated cr))) (ensureSecret r cr sec keys)"
  unfolding ensureSecret_def
  by (intro creating.keeps_and_then creates_ensureSame creating.keeps_ok)
    (use assms in \<open>auto simp: generated_def credentials_owners\<close>)

lemma creates_reconcileSecrets:
  "state_io_rel (emits (creates_only (generated cr))) (reconcileSecrets r cr)"
  unfolding reconcileSecrets_def Let_def
  by (intro creates_bind [OF wp_newSecret_credentials] creates_bind [OF wp_generatePassword_like]
      creating.keeps_and_then; (rule creates_ensureSecret, (assumption | erule (1) credentials_dbsecret)))
    (simp_all add: operatorSecrets_def)

text \<open>
  C39: generated credentials are complete. Every object that the secrets stage creates is one
  of the five secrets of the resource, of type basic-auth, with exactly the keys the operator checks
  for: the user name is the name of the secret, and every other value has 16 letters or digits.
\<close>

theorem generated_credentials:
  "wp (reconcileSecrets r cr)
     (\<lambda>_ t. \<exists>es. st_events t = st_events s @ es \<and> list_all (generated cr) (created_objs es)) s"
  using creates_reconcileSecrets [of cr r] by (simp add: state_io_rel_wp emits_def creates_only_def)

end
