(* ===== verification/Authority.thy ===== *)
theory Authority
  imports Quiet
begin

text \<open>
  The certificate authority of a cluster without routes: what \<^verbatim>\<open>createCA\<close> publishes, and that
  \<^verbatim>\<open>reconcileCerts\<close> leaves every certificate in place.
\<close>

section \<open>What is published\<close>

text \<open>The secret of the authority: the one that was read, or the one that is created if there is none.\<close>

definition read_ca :: "'w HorreumReconciler \<Rightarrow> Horreum \<Rightarrow> 'w \<Rightarrow> go_error + secret" where
  "read_ca r cr w = fst (cl_get_secret (Client r) (Namespace cr) (Name cr @ ''-ca-certs'') w)"

definition ca_secret :: "go_error + secret \<Rightarrow> Horreum \<Rightarrow> obj list \<Rightarrow> secret \<Rightarrow> bool" where
  "ca_secret found cr obs sec \<longleftrightarrow>
     found = Inr sec
     \<or> found = Inl NotFound \<and> om_name (sec_meta sec) = Name cr @ ''-ca-certs'' \<and> SecretObj sec \<in> set obs"

definition publishes :: "go_error + secret \<Rightarrow> Horreum \<Rightarrow> obj list \<Rightarrow> obj \<Rightarrow> bool" where
  "publishes found cr obs ob \<longleftrightarrow>
     (case ob of ConfigMapObj c \<Rightarrow> om_name (cm_meta c) = ''service-ca.crt'' \<and> om_namespace (cm_meta c) = Namespace cr \<and>
         (\<exists>sec. ca_secret found cr obs sec
         \<and> cm_binary c = fmap_of_list [(''service-ca.crt'', data_at (sec_data sec) TLSCertKey)])
      | _ \<Rightarrow> True)"

lemma created_objs_simps [simp]:
  "created_objs [] = []"
  "created_objs (CreateEv ob e # es) = ob # created_objs es"
  "created_objs (GetEv key e # es) = created_objs es"
  "created_objs (StatusEv ns n st # es) = created_objs es"
  "created_objs (xs @ ys) = created_objs xs @ created_objs ys"
  by (simp_all add: created_objs_def)

text \<open>The first half of \<^verbatim>\<open>createCA\<close> yields the certificate of the secret it created or found.\<close>

definition ca_pem :: "go_error + secret \<Rightarrow> Horreum \<Rightarrow> obj list \<Rightarrow> string \<Rightarrow> bool" where
  "ca_pem found cr obs pem \<longleftrightarrow> (\<exists>sec. ca_secret found cr obs sec \<and> data_at (sec_data sec) TLSCertKey = pem)"

lemma scr_secret:
  "set_controller_reference r cr (SecretObj sec) = Inr ob \<Longrightarrow>
     \<exists>os. ob = SecretObj (sec\<lparr>sec_meta := (sec_meta sec)\<lparr>om_owners := os\<rparr>\<rparr>)"
  by (auto simp: set_controller_reference_def split: sum.splits)

lemma scr_config_map:
  "set_controller_reference r cr (ConfigMapObj c) = Inr ob \<Longrightarrow>
     \<exists>os. ob = ConfigMapObj (c\<lparr>cm_meta := (cm_meta c)\<lparr>om_owners := os\<rparr>\<rparr>)"
  by (auto simp: set_controller_reference_def split: sum.splits)

lemma ca_pem_created:
  "om_name m = Name cr @ ''-ca-certs'' \<Longrightarrow>
   ca_pem (Inl NotFound) cr [SecretObj ((tlsSecret r cr n bytes key)\<lparr>sec_meta := m\<rparr>)]
     (pem_encode (Crypto r) ''CERTIFICATE'' bytes)"
  unfolding ca_pem_def
  by (rule exI [of _ "(tlsSecret r cr n bytes key)\<lparr>sec_meta := m\<rparr>"])
    (simp add: ca_secret_def tlsSecret_def data_at_def)

lemma tlsSecret_name: "om_name (sec_meta (tlsSecret r cr n bytes key)) = n"
  by (simp add: tlsSecret_def)

text \<open>A part of \<^verbatim>\<open>createCA\<close>, for its calls and the certificate in its result.\<close>

definition publishing ::
  "go_error + secret \<Rightarrow> Horreum \<Rightarrow> 'w st \<Rightarrow> (certificate \<times> rsa_key \<times> string) res \<Rightarrow> 'w st \<Rightarrow> bool"
where
  "publishing found cr s x t \<longleftrightarrow>
     (\<exists>es. st_events t = st_events s @ es
        \<and> list_all (publishes found cr (created_objs es)) (created_objs es)
        \<and> (case x of Ok (_, _, pem) \<Rightarrow> ca_pem found cr (created_objs es) pem | _ \<Rightarrow> True))"

lemma publishingI:
  "st_events t = st_events s @ es \<Longrightarrow> list_all (publishes found cr (created_objs es)) (created_objs es) \<Longrightarrow>
   (case x of Ok (_, _, pem) \<Rightarrow> ca_pem found cr (created_objs es) pem | _ \<Rightarrow> True) \<Longrightarrow> publishing found cr s x t"
  unfolding publishing_def by blast

lemma publishes_secret: "publishes found cr obs (SecretObj sec)"
  by (simp add: publishes_def)

lemma publishing_after_get:
  assumes "publishing found cr u x t" and "st_events u = st_events s @ [GetEv key e]"
  shows "publishing found cr s x t"
proof -
  obtain es where "st_events t = st_events u @ es"
      "list_all (publishes found cr (created_objs es)) (created_objs es)"
      "case x of Ok (_, _, pem) \<Rightarrow> ca_pem found cr (created_objs es) pem | _ \<Rightarrow> True"
    using assms(1) unfolding publishing_def by blast
  then show ?thesis
    using assms(2) by (intro publishingI [of _ _ "GetEv key e # es"]) (auto split: res.splits)
qed

lemma publishing_error:
  "st_events t = st_events s @ [GetEv key err] \<Longrightarrow> publishing found cr s (Err e) t"
  by (rule publishingI [of _ _ "[GetEv key err]"]) simp_all

lemma wp_newCA_publishing: "wp (newCA cr r) (publishing (Inl NotFound) cr s) s"
  unfolding newCA_def Let_def
  by (auto simp: wp_simps tlsSecret_name publishes_secret dest!: scr_secret
      intro!: publishingI ca_pem_created split: prod.splits sum.splits option.splits)

lemma loadCA_pem:
  "loadCA r sec = Inr (ca, key, pem) \<Longrightarrow> pem = data_at (sec_data sec) TLSCertKey"
  by (auto simp: loadCA_def Let_def split: option.splits sum.splits)

lemma publishing_found:
  assumes "loadCA r sec = Inr (ca, key, pem)" and "st_events t = st_events s @ [GetEv k err]"
  shows "publishing (Inr sec) cr s (Ok (ca, key, pem)) t"
  using loadCA_pem [OF assms(1)] assms(2)
  by (intro publishingI [of _ _ "[GetEv k err]"]) (simp_all add: ca_pem_def ca_secret_def)

lemma wp_ca_publishing:
  "wp (State_Monad.bind (get_secret r (Namespace cr) (Name cr @ ''-ca-certs''))
        (\<lambda>found. case found of Inl e \<Rightarrow> (if is_not_found e then newCA cr r else fail e)
                             | Inr caSecret \<Rightarrow> liftE (loadCA r caSecret)))
     (publishing (read_ca r cr (st_world s)) cr s) s"
  unfolding get_secret_def wp_bind wp_typed_get
  by (auto simp: wp_fail wp_liftE read_ca_def is_not_found_def split: prod.splits sum.splits
      intro!: wp_mono [OF wp_newCA_publishing]
      intro: publishing_after_get publishing_error publishing_found)

text \<open>
  The second half creates at most the config map with that certificate, and if it succeeds, the config map
  was found or created by its last call.
\<close>

definition ca_map :: "Horreum \<Rightarrow> string \<Rightarrow> obj \<Rightarrow> bool" where
  "ca_map cr pem ob \<longleftrightarrow>
     (case ob of ConfigMapObj c \<Rightarrow> om_name (cm_meta c) = ''service-ca.crt'' \<and> om_namespace (cm_meta c) = Namespace cr
         \<and> cm_binary c = fmap_of_list [(''service-ca.crt'', pem)]
      | _ \<Rightarrow> False)"

definition settled_map :: "Horreum \<Rightarrow> event list \<Rightarrow> bool" where
  "settled_map cr es \<longleftrightarrow>
     (case last es of
        GetEv key e \<Rightarrow> key = (KConfigMap, Namespace cr, ''service-ca.crt'') \<and> e = None
      | CreateEv ob e \<Rightarrow> obj_key ob = (KConfigMap, Namespace cr, ''service-ca.crt'') \<and> e = None
      | _ \<Rightarrow> False)"

lemma wp_publishCA:
  "wp (publishCA cr r pem)
     (\<lambda>x t. \<exists>es. st_events t = st_events s @ es \<and> es \<noteq> [] \<and> list_all (ca_map cr pem) (created_objs es)
        \<and> (case x of Ok _ \<Rightarrow> settled_map cr es | _ \<Rightarrow> True)) s"
  unfolding publishCA_def get_config_map_def
  by (auto simp: wp_simps serviceCaConfigMap_def ca_map_def settled_map_def error_of_def obj_key_def obj_name_def obj_namespace_def
      dest!: scr_config_map
      split: prod.splits sum.splits option.splits)

lemma ca_pem_mono: "ca_pem found cr obs pem \<Longrightarrow> ca_pem found cr (obs @ obs') pem"
  by (auto simp: ca_pem_def ca_secret_def)

lemma publishes_mono: "publishes found cr obs ob \<Longrightarrow> publishes found cr (obs @ obs') ob"
  unfolding publishes_def ca_secret_def by (cases ob) auto

lemma publishes_pem: "ca_pem found cr obs pem \<Longrightarrow> ca_map cr pem ob \<Longrightarrow> publishes found cr obs ob"
  unfolding publishes_def ca_pem_def ca_map_def by (cases ob) auto

lemma publishing_then:
  assumes "publishing found cr s (Ok (ca, key, pem)) t"
    and "st_events u = st_events t @ es'" and "list_all (ca_map cr pem) (created_objs es')" and "es' \<noteq> []"
  shows "\<exists>es. st_events u = st_events s @ es \<and> list_all (publishes found cr (created_objs es)) (created_objs es)
    \<and> settled_map cr es = settled_map cr es'"
proof -
  obtain es where es: "st_events t = st_events s @ es"
      "list_all (publishes found cr (created_objs es)) (created_objs es)" "ca_pem found cr (created_objs es) pem"
    using assms(1) unfolding publishing_def by auto
  then show ?thesis
    using assms(2-4) publishes_mono [of found cr "created_objs es"]
      publishes_pem [OF ca_pem_mono [OF es(3), of "created_objs es'"]]
    by (intro exI [of _ "es @ es'"]) (auto simp: list_all_iff settled_map_def)
qed


section \<open>Every certificate is in place\<close>

text \<open>The object was found, or it was created without an error.\<close>

definition present :: "event list \<Rightarrow> key \<Rightarrow> bool" where
  "present es key \<longleftrightarrow> GetEv key None \<in> set es
     \<or> (\<exists>ob. CreateEv ob None \<in> set es \<and> obj_key ob = key)"

definition provides :: "key list \<Rightarrow> 'w st \<Rightarrow> 'a res \<Rightarrow> 'w st \<Rightarrow> bool" where
  "provides keys s x t \<longleftrightarrow>
     (\<exists>es. st_events t = st_events s @ es
        \<and> (case x of Ok _ \<Rightarrow> list_all (present es) keys | _ \<Rightarrow> True))"

lemma providesI:
  "st_events t = st_events s @ es \<Longrightarrow> list_all (present es) keys \<Longrightarrow> provides keys s (Ok a) t"
  unfolding provides_def by (rule exI [of _ es]) (simp split: res.split)

lemma provides_failed:
  "st_events t = st_events s @ es \<Longrightarrow> provides keys s (Err e) t"
  "st_events t = st_events s @ es \<Longrightarrow> provides keys s (Panic p) t"
  by (simp_all add: provides_def)

lemma provides_then:
  fixes m :: "('w st, 'a res) state"
  assumes "wp m (provides ks s) s" and "\<And>a t. wp (k a) (provides ks' t) t"
  shows "wp (and_then m k) (provides (ks @ ks') s) s"
  unfolding wp_and_then
proof (rule wp_mono [OF assms(1)])
  fix x :: "'a res" and t
  assume x: "provides ks s x t"
  then obtain es where es: "st_events t = st_events s @ es"
      "case x of Ok _ \<Rightarrow> list_all (present es) ks | _ \<Rightarrow> True"
    unfolding provides_def by blast
  show "case x of Ok a \<Rightarrow> wp (k a) (provides (ks @ ks') s) t
    | Err e \<Rightarrow> provides (ks @ ks') s (Err e) t | Panic p \<Rightarrow> provides (ks @ ks') s (Panic p) t"
  proof (cases x)
    case (Ok a)
    have later: "provides (ks @ ks') s y u" if later': "provides ks' t y u" for y :: "'b res" and u
    proof -
      obtain es' where "st_events u = st_events t @ es'"
          "case y of Ok _ \<Rightarrow> list_all (present es') ks' | _ \<Rightarrow> True"
        using later' unfolding provides_def by blast
      then show ?thesis
        using es Ok unfolding provides_def
        by (intro exI [of _ "es @ es'"]) (auto simp: list_all_iff present_def split: res.splits)
    qed
    show ?thesis
      unfolding Ok res.case by (rule wp_mono [OF assms(2)]) (rule later)
  qed (use es in \<open>auto simp: provides_def\<close>)
qed

lemma provides_ok: "provides [] s (Ok a) s"
  by (simp add: provides_def)

lemma scr_key: "set_controller_reference r cr ob0 = Inr ob \<Longrightarrow> obj_key ob = obj_key ob0"
  by (rule set_controller_reference_Inr)

lemma wp_createServiceCert_provides:
  "wp (createServiceCert cr r (Some ca) (Some key) n serviceName serial)
     (provides [(KSecret, Namespace cr, n)] s) s"
  unfolding createServiceCert_def get_secret_def Let_def
  by (auto simp: wp_simps tlsSecret_key present_def dest!: scr_key
      split: prod.splits sum.splits option.splits
      intro!: provides_failed providesI)

lemma wp_ca_provides:
  "wp (State_Monad.bind (get_secret r (Namespace cr) (Name cr @ ''-ca-certs''))
        (\<lambda>found. case found of Inl e \<Rightarrow> (if is_not_found e then newCA cr r else fail e)
                             | Inr caSecret \<Rightarrow> liftE (loadCA r caSecret)))
     (provides [(KSecret, Namespace cr, Name cr @ ''-ca-certs'')] s) s"
  unfolding get_secret_def newCA_def Let_def
  by (auto simp: wp_simps tlsSecret_key present_def dest!: scr_key
      split: prod.splits sum.splits option.splits
      intro!: provides_failed providesI)

lemma wp_publishCA_provides:
  "wp (publishCA cr r pem) (provides [(KConfigMap, Namespace cr, ''service-ca.crt'')] s) s"
  unfolding publishCA_def get_config_map_def
  by (auto simp: wp_simps serviceCa_key present_def dest!: scr_key
      split: prod.splits sum.splits option.splits
      intro!: provides_failed providesI)

lemma wp_createCA_provides:
  "wp (createCA cr r)
     (provides ([(KSecret, Namespace cr, Name cr @ ''-ca-certs'')] @
       ([(KConfigMap, Namespace cr, ''service-ca.crt'')] @ [])) s) s"
  unfolding createCA_def bind_and_then
proof (rule provides_then [OF wp_ca_provides])
  fix a :: "certificate \<times> rsa_key \<times> string" and t
  obtain ca key pem where a: "a = (ca, key, pem)" by (cases a)
  show "wp (case a of (ca, caPrivKey, caPEMBytes) \<Rightarrow>
        and_then (publishCA cr r caPEMBytes) (\<lambda>_. ok (ca, caPrivKey)))
      (provides ([(KConfigMap, Namespace cr, ''service-ca.crt'')] @ []) t) t"
    unfolding a prod.case
    by (rule provides_then [OF wp_publishCA_provides]) (simp add: wp_ok provides_ok)
qed

text \<open>
  C16: on a cluster without routes, if the certificates stage succeeds then the secret of
  the authority, the config map with its certificate and the certificates of both services were
  each found, or created without an error, in this stage.
\<close>

theorem certificates_in_place: "wp (reconcileCerts r cr) (provides (certKeys r cr) s) s"
proof (cases "RoutesAvailable r")
  case True
  have "wp (reconcileCerts r cr) (\<lambda>_ t. emits (operator_trace r cr) s t) s"
    using keeps_reconcileCerts [of r cr] by (simp add: state_io_rel_wp)
  then show ?thesis
    by (rule wp_mono) (auto simp: certKeys_def True provides_def emits_def split: res.splits)
next
  case False
  have keys: "certKeys r cr = ([(KSecret, Namespace cr, Name cr @ ''-ca-certs'')] @
      ([(KConfigMap, Namespace cr, ''service-ca.crt'')] @ [])) @
      ([(KSecret, Namespace cr, Name cr @ ''-app-certs'')] @
       [(KSecret, Namespace cr, Name cr @ ''-keycloak-certs'')])"
    using False by (simp add: certKeys_def)
  show ?thesis
    unfolding keys reconcileCerts_def
    unfolding if_P [OF False]
  proof (rule provides_then [OF wp_createCA_provides])
    fix a :: "certificate \<times> rsa_key" and t
    obtain ca key where a: "a = (ca, key)" by (cases a)
    show "wp (case a of (ca, caPrivateKey) \<Rightarrow>
          and_then (createServiceCert cr r (Some ca) (Some caPrivateKey)
              (Name cr @ ''-app-certs'') (Name cr) 1000) (\<lambda>_.
          createServiceCert cr r (Some ca) (Some caPrivateKey)
              (Name cr @ ''-keycloak-certs'') (Name cr @ ''-keycloak'') 2000))
        (provides ([(KSecret, Namespace cr, Name cr @ ''-app-certs'')] @
          [(KSecret, Namespace cr, Name cr @ ''-keycloak-certs'')]) t) t"
      unfolding a prod.case
      by (intro provides_then wp_createServiceCert_provides)
  qed
qed

section \<open>The authority survives a restart\<close>

text \<open>
  Documented behaviour of the cryptographic library: decoding undoes encoding, and a certificate
  made from a template parses to one with the template's common name and \<^verbatim>\<open>IsCA\<close> flag.
\<close>

definition same_subject :: "certificate \<Rightarrow> certificate \<Rightarrow> bool" where
  "same_subject c c' \<longleftrightarrow> crt_common_name c = crt_common_name c' \<and> crt_is_ca c = crt_is_ca c'"

definition codec_laws :: "'w crypto \<Rightarrow> bool" where
  "codec_laws c \<longleftrightarrow>
     (\<forall>ty \<in> {''CERTIFICATE'', ''RSA PRIVATE KEY''}. \<forall>b. pem_decode c (pem_encode c ty b) = Some b) \<and>
     (\<forall>k. pkcs1_parse c (pkcs1_marshal c k) = Inr k) \<and>
     (\<forall>t p pub k w bytes w'. x509_create c t p pub k w = (Inr bytes, w') \<longrightarrow>
        (\<exists>t'. x509_parse c bytes = Inr t' \<and> same_subject t t'))"

text \<open>
  C17: an authority that a pass has created is the one that later passes load: if the
  decoders undo the encoders, then loading the secret that \<^verbatim>\<open>newCA\<close> created as its last call yields
  the private key and the PEM text that \<^verbatim>\<open>newCA\<close> returned, and a certificate with its subject.
\<close>

theorem created_ca_loads:
  assumes "codec_laws (Crypto r)"
  shows "wp (newCA cr r)
    (\<lambda>x t. case x of
       Ok (ca, key, pem) \<Rightarrow> \<exists>sec e ca'. last (st_events t) = CreateEv (SecretObj sec) e
         \<and> loadCA r sec = Inr (ca', key, pem) \<and> same_subject ca ca'
     | _ \<Rightarrow> True) s"
proof -
  have laws: "pem_decode (Crypto r) (pem_encode (Crypto r) ''CERTIFICATE'' b) = Some b"
      "pem_decode (Crypto r) (pem_encode (Crypto r) ''RSA PRIVATE KEY'' b) = Some b"
      "pkcs1_parse (Crypto r) (pkcs1_marshal (Crypto r) k) = Inr k"
      "x509_create (Crypto r) t p pub k w = (Inr bytes, w') \<Longrightarrow>
         \<exists>t'. x509_parse (Crypto r) bytes = Inr t' \<and> same_subject t t'"
    for b k t p pub w bytes w'
    using assms unfolding codec_laws_def by blast+
  have load: "\<exists>ca'. loadCA r ((tlsSecret r cr n bytes key)\<lparr>sec_meta := m\<rparr>)
      = Inr (ca', key, pem_encode (Crypto r) ''CERTIFICATE'' bytes) \<and> same_subject ca ca'"
    if "x509_create (Crypto r) ca p pub k w = (Inr bytes, w')" for n bytes key m ca p pub k w w'
    using laws(4) [OF that] by (auto simp: loadCA_def tlsSecret_def data_at_def laws(1-3))
  show ?thesis
    unfolding newCA_def Let_def
    by (auto simp: wp_simps load dest!: scr_secret split: prod.splits sum.splits option.splits)
qed

lemma mem_codec_laws: "codec_laws mem_crypto"
proof -
  have "length (takeWhile (\<lambda>c. c = CHR ''x'') (replicate n CHR ''x'' @ CHR ''|'' # rest)) = n" for n rest
    by (induction n) simp_all
  then have "mem_pkcs1_parse (mem_pkcs1 k) = k" for k
    by (simp add: mem_pkcs1_def mem_pkcs1_parse_def Let_def)
  moreover have "same_subject t (mem_x509_parse (mem_x509 t))" for t
    by (simp add: same_subject_def mem_x509_def mem_x509_parse_def)
  ultimately show ?thesis
    by (auto simp: codec_laws_def mem_crypto_def mem_pem_decode_def)
qed

theorem created_ca_loads_witness:
  "wp (newCA sample_cr (mem_reconciler False))
    (\<lambda>x t. case x of
       Ok (ca, key, pem) \<Rightarrow> \<exists>sec e ca'. last (st_events t) = CreateEv (SecretObj sec) e
         \<and> loadCA (mem_reconciler False) sec = Inr (ca', key, pem) \<and> same_subject ca ca'
     | _ \<Rightarrow> True) sample_state"
  by (rule created_ca_loads) (simp add: mem_reconciler_def mem_codec_laws)

end
