(* ===== verification/Issuance.thy ===== *)
theory Issuance
  imports Bounds Authority
begin

text \<open>
  What the certificates of the services are issued for, and the addresses under which the components reach
  each other.
\<close>

text \<open>The name of a service inside the cluster.\<close>

definition service_host :: "service \<Rightarrow> string" where
  "service_host s = om_name (svc_meta s) @ ''.'' @ om_namespace (svc_meta s) @ ''.svc''"

text \<open>
  A secret with a certificate for a host: its certificate was made from a template that lists the host, and
  it is encoded as PEM.
\<close>

definition issued_for :: "'w HorreumReconciler \<Rightarrow> string \<Rightarrow> secret \<Rightarrow> bool" where
  "issued_for r host sec \<longleftrightarrow>
     (\<exists>tmpl ca pub key w w' bytes. x509_create (Crypto r) tmpl ca pub key w = (Inr bytes, w')
        \<and> host \<in> set (crt_dns_names tmpl)
        \<and> fmlookup (sec_data sec) TLSCertKey = Some (pem_encode (Crypto r) ''CERTIFICATE'' bytes))"

lemma issued_forI:
  "x509_create (Crypto r) tmpl ca pub key w = (Inr bytes, w') \<Longrightarrow> host \<in> set (crt_dns_names tmpl) \<Longrightarrow>
   fmlookup (sec_data sec) TLSCertKey = Some (pem_encode (Crypto r) ''CERTIFICATE'' bytes) \<Longrightarrow> issued_for r host sec"
  unfolding issued_for_def by blast

text \<open>
  The secrets that the certificates stage creates: that of the authority, or that of a service, named as the
  service says, with a certificate for the service.
\<close>

definition issued :: "'w HorreumReconciler \<Rightarrow> Horreum \<Rightarrow> obj \<Rightarrow> bool" where
  "issued r cr ob \<longleftrightarrow>
     (case ob of
        SecretObj sec \<Rightarrow> om_name (sec_meta sec) = Name cr @ ''-ca-certs'' \<or>
          (\<exists>svc. svc \<in> set [appService cr r, keycloakService cr r]
             \<and> serving_cert svc = Some (om_name (sec_meta sec)) \<and> issued_for r (service_host svc) sec)
      | _ \<Rightarrow> True)"

lemma created_emits:
  "st_events t = st_events s @ es \<Longrightarrow> list_all P (created_objs es) \<Longrightarrow> emits (creates_only P) s t"
  by (auto simp: emits_def creates_only_def)

lemma creates_createCA: "state_io_rel (emits (creates_only (issued r cr))) (createCA cr r)"
  unfolding createCA_def newCA_def publishCA_def get_secret_def get_config_map_def state_io_rel_wp Let_def
  by (auto simp: wp_simps issued_def tlsSecret_name intro!: created_emits dest!: scr_secret scr_config_map
      split: prod.splits sum.splits option.splits)

lemma creates_createServiceCert:
  assumes "svc \<in> set [appService cr r, keycloakService cr r]" and "serving_cert svc = Some resourceName"
    and "om_name (svc_meta svc) = serviceName" and "om_namespace (svc_meta svc) = Namespace cr"
  shows "state_io_rel (emits (creates_only (issued r cr)))
    (createServiceCert cr r (Some ca) (Some key) resourceName serviceName serial)"
proof -
  have "issued r cr (SecretObj ((tlsSecret r cr resourceName bytes key')\<lparr>sec_meta :=
      (sec_meta (tlsSecret r cr resourceName bytes key'))\<lparr>om_owners := os\<rparr>\<rparr>))"
    if "x509_create (Crypto r) (serviceTemplate cr serviceName serial t1 t2) ca pub key w = (Inr bytes, w')"
    for bytes key' os t1 t2 pub w w'
  proof -
    have "issued_for r (service_host svc) ((tlsSecret r cr resourceName bytes key')\<lparr>sec_meta :=
      (sec_meta (tlsSecret r cr resourceName bytes key'))\<lparr>om_owners := os\<rparr>\<rparr>)"
      using assms(3,4)
      by (intro issued_forI [OF that])
        (simp_all add: serviceTemplate_def serviceNames_def service_host_def tlsSecret_def)
    then show ?thesis
      using assms(1,2) by (auto simp: issued_def tlsSecret_name)
  qed
  then show ?thesis
    unfolding createServiceCert_def get_secret_def state_io_rel_wp Let_def
    by (auto simp: wp_simps intro!: created_emits dest!: scr_secret split: prod.splits sum.splits option.splits)
qed

lemma creates_reconcileCerts: "state_io_rel (emits (creates_only (issued r cr))) (reconcileCerts r cr)"
proof -
  have app: "state_io_rel (emits (creates_only (issued r cr)))
      (createServiceCert cr r (Some ca) (Some key) (Name cr @ ''-app-certs'') (Name cr) n)" for ca key n
    by (rule creates_createServiceCert [of "appService cr r"]) (simp_all add: appService_def serving_cert_def)
  have keycloak: "state_io_rel (emits (creates_only (issued r cr)))
      (createServiceCert cr r (Some ca) (Some key) (Name cr @ ''-keycloak-certs'') (Name cr @ ''-keycloak'') n)"
    for ca key n
    by (rule creates_createServiceCert [of "keycloakService cr r"]) (simp_all add: keycloakService_def serving_cert_def)
  show ?thesis
    unfolding reconcileCerts_def
    by (auto simp: issued_def split: prod.split intro!: creating.keeps_and_then creates_createCA app keycloak
        creates_ensureSame creating.keeps_ok)
qed

text \<open>
  C29: the components reach each other inside the cluster. A resource without an external Keycloak, and without a
  database host or port of its own, uses the services of the operator: the internal URL of Keycloak and the database
  URL address the cluster names of the services, on the ports of the services. Every secret that the certificates
  stage creates, apart from that of the authority, is the one that the service of Horreum or of Keycloak
  asks for, with a certificate issued for the cluster name of that very service.
\<close>

theorem in_cluster_urls:
  assumes "Ext_InternalUri (Kc_External (Keycloak cr)) = []" and "publicUri cr = []"
    and "Db_Host (Database cr) = []" and "Db_Port (Database cr) = 0"
  shows "keycloakInternalURL cr = ''https://'' @ service_host (keycloakService cr r)
    \<and> map sp_port (svc_ports (keycloakService cr r)) = [443]
    \<and> (\<exists>port. map sp_port (svc_ports (postgresService cr)) = [port]
        \<and> dbURL cr (Database cr) ''horreum'' = ''jdbc:postgresql://'' @ service_host (postgresService cr) @
            '':'' @ itoa (sint port) @ ''/'' @ withDefault (Db_Name (Database cr)) ''horreum'')
    \<and> wp (reconcileCerts r cr)
        (\<lambda>_ t. \<exists>es. st_events t = st_events s @ es \<and> list_all (issued r cr) (created_objs es)) s"
  using assms creates_reconcileCerts [of r cr]
  by (auto simp: keycloakInternalURL_def publicUri_def service_host_def keycloakService_def
      postgresService_def dbURL_def dbDefaultHost_def withDefaultInt_def state_io_rel_wp emits_def creates_only_def)

theorem in_cluster_urls_witness:
  "keycloakInternalURL sample_cr = ''https://horreum-keycloak.default.svc'' \<and>
   wp (reconcileCerts (mem_reconciler False) sample_cr)
     (\<lambda>_ t. \<exists>es. st_events t = st_events sample_state @ es
        \<and> list_all (issued (mem_reconciler False) sample_cr) (created_objs es)) sample_state"
  using in_cluster_urls [of sample_cr "mem_reconciler False" sample_state]
  by (simp add: sample_cr_def zero_Horreum_def zero_HorreumSpec_def zero_KeycloakSpec_def zero_meta_def
      zero_DatabaseSpec_def publicUri_def service_host_def keycloakService_def)

end
