(* ===== verification/Calendar.thy ===== *)
theory Calendar
  imports Go_Std
begin

text \<open>
  Calendar arithmetic of \<^verbatim>\<open>time.AddDate\<close>: converting a day to a civil date is inverted exactly, and
  ten years are a known number of days, leap years and centuries included.
\<close>

section \<open>Days and civil dates\<close>

text \<open>A day of a 400 year era: century, four-year cycle, year of the cycle and day of the year.\<close>

lemma era_decomposition:
  fixes doe :: int
  assumes "0 \<le> doe" and "doe < 146097"
  obtains c q y d where "doe = 36524 * c + 1461 * q + 365 * y + d"
    and "0 \<le> c" "c \<le> 3" "0 \<le> q" "q \<le> 24" "0 \<le> y" "y \<le> 3" "0 \<le> d" "d \<le> 365" "y < 3 \<longrightarrow> d < 365"
    and "doe div 36524 - doe div 146096 = c"
proof -
  define c where "c = (if doe = 146096 then 3 else doe div 36524)"
  define rest where "rest = doe - 36524 * c"
  have rest: "0 \<le> rest" "rest \<le> 36524" "0 \<le> c" "c \<le> 3"
    using assms by (auto simp: c_def rest_def)
  define q where "q = rest div 1461"
  define s where "s = rest mod 1461"
  define y where "y = (if s = 1460 then 3 else s div 365)"
  have s: "0 \<le> s" "s < 1461" "rest = 1461 * q + s" by (simp_all add: s_def q_def)
  have q: "0 \<le> q" "q \<le> 24" using rest(1,2) by (auto simp: q_def)
  have y: "0 \<le> y" "y \<le> 3" "0 \<le> s - 365 * y" "s - 365 * y \<le> 365" "y < 3 \<longrightarrow> s - 365 * y < 365"
    using s(1,2) by (auto simp: y_def)
  have "doe = 36524 * c + 1461 * q + 365 * y + (s - 365 * y)"
    using s(3) by (simp add: rest_def)
  moreover have "doe div 36524 - doe div 146096 = c"
    using assms by (auto simp: c_def div_pos_pos_trivial)
  ultimately show thesis using that [of c q y "s - 365 * y"] rest(3,4) q y by simp
qed

lemma year_of_era:
  fixes c q y d :: int
  assumes "0 \<le> c" "c \<le> 3" "0 \<le> q" "q \<le> 24" "0 \<le> y" "y \<le> 3" "0 \<le> d" "d \<le> 365" "y < 3 \<longrightarrow> d < 365"
    and doe: "doe = 36524 * c + 1461 * q + 365 * y + d"
  shows "(doe - doe div 1460 + c) div 365 = 100 * c + 4 * q + y"
proof -
  define u where "u = 24 * c + q + 365 * y + d"
  have u: "0 \<le> u" "u < 2920" using assms by (auto simp: u_def)
  have "doe = 1460 * (25 * c + q) + u" by (simp add: doe u_def)
  then have "doe div 1460 = 25 * c + q + u div 1460" by simp
  then have x: "doe - doe div 1460 + c = 365 * (100 * c + 4 * q + y) + (d - u div 1460)"
    by (simp add: doe)
  have "0 \<le> d - u div 1460 \<and> d - u div 1460 < 365"
  proof (cases "u < 1460")
    case True
    then have "u div 1460 = 0" using u(1) by simp
    moreover have "d < 365" using True assms by (cases "y < 3") (auto simp: u_def)
    ultimately show ?thesis using assms by simp
  next
    case False
    then have "u div 1460 = 1" using u by (simp add: int_div_pos_eq)
    moreover have "1 \<le> d" using False assms by (auto simp: u_def)
    ultimately show ?thesis using assms by simp
  qed
  then show ?thesis using int_div_pos_eq [OF x] by simp
qed

text \<open>Converting a day to a civil date and back yields the day.\<close>

lemma days_from_civil_from_days:
  "case civil_from_days z of (y, m, d) \<Rightarrow> days_from_civil y m d = z"
proof -
  define era doe where "era = (z + 719468) div 146097" and "doe = (z + 719468) mod 146097"
  have z: "z = 146097 * era + doe - 719468" by (simp add: era_def doe_def)
  have "0 \<le> doe" "doe < 146097" by (simp_all add: doe_def)
  then obtain c q y d where doe: "doe = 36524 * c + 1461 * q + 365 * y + d"
    and b: "0 \<le> c" "c \<le> 3" "0 \<le> q" "q \<le> 24" "0 \<le> y" "y \<le> 3" "0 \<le> d" "d \<le> 365" "y < 3 \<longrightarrow> d < 365"
    and c: "doe div 36524 - doe div 146096 = c"
    by (rule era_decomposition)
  define yoe where "yoe = 100 * c + 4 * q + y"
  have yoe: "(doe - doe div 1460 + doe div 36524 - doe div 146096) div 365 = yoe"
    using year_of_era [OF b doe] c by (simp add: yoe_def algebra_simps)
  have divs: "yoe div 4 = 25 * c + q" "yoe div 100 = c" "0 \<le> yoe" "yoe < 400"
    using b by (auto simp: yoe_def)
  then have doy: "doe - (365 * yoe + yoe div 4 - yoe div 100) = d"
    by (simp add: doe yoe_def)
  define mp where "mp = (5 * d + 2) div 153"
  have mp: "0 \<le> mp" "mp \<le> 11" using b(7,8) by (auto simp: mp_def)
  define m where "m = (if mp < 10 then mp + 3 else mp - 9)"
  have m: "(m + 9) mod 12 = mp" using mp by (auto simp: m_def)
  have civil: "civil_from_days z = (yoe + era * 400 + (if m \<le> 2 then 1 else 0), m, d - (153 * mp + 2) div 5 + 1)"
    unfolding civil_from_days_def Let_def era_def [symmetric] doe_def [symmetric] yoe doy mp_def [symmetric] m_def [symmetric] ..
  have year: "(if m \<le> 2 then yoe + era * 400 + (if m \<le> 2 then 1 else 0) - 1 else yoe + era * 400 + (if m \<le> 2 then 1 else 0))
      = yoe + 400 * era" by simp
  have eras: "(yoe + 400 * era) div 4 = yoe div 4 + 100 * era" "(yoe + 400 * era) div 100 = yoe div 100 + 4 * era"
      "(yoe + 400 * era) div 400 = era"
    using divs(3,4) by simp_all
  show ?thesis
    unfolding civil prod.case days_from_civil_def Let_def year m eras
    using z doy by simp
qed

text \<open>Ten years are between 3651 and 3653 days, leap years and centuries included.\<close>

lemma ten_years_days:
  "days_from_civil (y + 10) m d - days_from_civil y m d \<in> {3651..3653}"
proof -
  have carry: "(y + 10) div k - y div k = (y mod k + 10) div k" if "0 < k" for y k :: int
  proof -
    have "y + 10 = y mod k + 10 + y div k * k" by (simp add: mult.commute)
    then show ?thesis using that by (metis add_diff_cancel_right' add.commute div_mult_self1 less_irrefl)
  qed
  have leap: "2 \<le> (y + 10) div 4 - y div 4" "(y + 10) div 4 - y div 4 \<le> 3"
      "(y + 10) div 100 - y div 100 \<le> 1" "0 \<le> (y + 10) div 400 - y div 400"
      "(y + 10) div 400 - y div 400 \<le> (y + 10) div 100 - y div 100" for y :: int
  proof -
    have m: "0 \<le> y mod 4" "y mod 4 < 4" "0 \<le> y mod 100" "y mod 100 < 100" "0 \<le> y mod 400" "y mod 400 < 400"
      by simp_all
    then have "2 \<le> (y mod 4 + 10) div 4" "(y mod 4 + 10) div 4 \<le> 3" "(y mod 100 + 10) div 100 \<le> 1"
        "0 \<le> (y mod 400 + 10) div 400"
      by linarith+
    moreover have "(y mod 400 + 10) div 400 \<le> (y mod 100 + 10) div 100"
    proof (cases "y mod 400 < 390")
      case True
      then have "(y mod 400 + 10) div 400 = 0" using m by simp
      then show ?thesis using m by simp
    next
      case False
      have "y = 100 * (4 * (y div 400) + 3) + (y mod 400 - 300)" by simp
      from int_mod_pos_eq [OF this] have "y mod 100 = y mod 400 - 300"
        using False m(6) by simp
      then show ?thesis using False m(6) by simp
    qed
    ultimately show "2 \<le> (y + 10) div 4 - y div 4" "(y + 10) div 4 - y div 4 \<le> 3"
      "(y + 10) div 100 - y div 100 \<le> 1" "0 \<le> (y + 10) div 400 - y div 400"
      "(y + 10) div 400 - y div 400 \<le> (y + 10) div 100 - y div 100"
      by (simp_all add: carry)
  qed
  define y' where "y' = (if m \<le> 2 then y - 1 else y)"
  have y': "(if m \<le> 2 then y + 10 - 1 else y + 10) = y' + 10" by (simp add: y'_def)
  have sum: "365 * (x + 10) + a' - b' + c' + e + d - 1 - 719468 - (365 * x + a - b + c + e + d - 1 - 719468)
      = 3650 + (a' - a) - (b' - b) + (c' - c)" for x a a' b b' c c' e :: int
    by (simp add: algebra_simps)
  have "days_from_civil (y + 10) m d - days_from_civil y m d = 3650
      + ((y' + 10) div 4 - y' div 4) - ((y' + 10) div 100 - y' div 100) + ((y' + 10) div 400 - y' div 400)"
    unfolding days_from_civil_def Let_def y' y'_def [symmetric] by (rule sum)
  then show ?thesis using leap [of y'] by (simp del: div_add_self2 div_add_self1)
qed

lemma add_ten_years: "add_years 10 t - t \<in> {3651 * day_ns..3653 * day_ns}"
proof -
  obtain y m d where civil: "civil_from_days (t div day_ns) = (y, m, d)"
    by (cases "civil_from_days (t div day_ns)") auto
  have t: "t = days_from_civil y m d * day_ns + t mod day_ns"
    using days_from_civil_from_days [of "t div day_ns"] by (simp add: civil)
  have "add_years 10 t - t = (days_from_civil (y + 10) m d - days_from_civil y m d) * day_ns"
    by (subst (2) t) (simp add: add_years_def civil algebra_simps)
  then show ?thesis
    using ten_years_days [of y m d] by (auto simp: day_ns_def)
qed

end
