(* ===== verification/Lifetime.thy ===== *)
theory Lifetime
  imports Authority Calendar
begin

text \<open>The validity of the certificates: the clock and the calendar in the certificate templates.\<close>

text \<open>The two readings of the clock in \<^verbatim>\<open>newCA\<close>, after the key has been generated.\<close>

definition first_reading :: "'w HorreumReconciler \<Rightarrow> 'w \<Rightarrow> int" where
  "first_reading r w = fst (lib_now (Lib r) (snd (rsa_generate (Crypto r) w)))"

definition second_reading :: "'w HorreumReconciler \<Rightarrow> 'w \<Rightarrow> int" where
  "second_reading r w = fst (lib_now (Lib r) (snd (lib_now (Lib r) (snd (rsa_generate (Crypto r) w)))))"

text \<open>
  C18: a new authority is valid for ten years. The certificate that \<^verbatim>\<open>newCA\<close> returns is valid from the
  first reading of the clock on, and ends between 3651 and 3653 days after the second one, whatever
  leap years and centuries fall into the period. Both are what the clock returned in this very call,
  in the world after the key was generated; nothing is assumed of the clock. It is this certificate, signed
  with its own key, that the last call of \<^verbatim>\<open>newCA\<close> stores in a secret.
\<close>

theorem authority_lifetime:
  "wp (newCA cr r)
    (\<lambda>x t. case x of
       Ok (ca, key, _) \<Rightarrow> crt_not_before ca = first_reading r (st_world s)
         \<and> crt_not_after ca - second_reading r (st_world s) \<in> {3651 * day_ns..3653 * day_ns}
         \<and> (\<exists>sec w w' bytes. last (st_events t) = CreateEv (SecretObj sec) None
              \<and> x509_create (Crypto r) ca ca (rsa_public key) key w = (Inr bytes, w')
              \<and> fmlookup (sec_data sec) TLSCertKey = Some (pem_encode (Crypto r) ''CERTIFICATE'' bytes))
     | _ \<Rightarrow> True) s"
proof -
  have stored: "fmlookup (sec_data (tlsSecret r cr n bytes key)) TLSCertKey =
      Some (pem_encode (Crypto r) ''CERTIFICATE'' bytes)" for n bytes key
    by (simp add: tlsSecret_def)
  show ?thesis
    unfolding newCA_def Let_def
    by (auto simp: wp_simps caTemplate_def first_reading_def second_reading_def stored
        simp del: atLeastAtMost_iff intro: add_ten_years dest!: scr_secret
        split: prod.splits sum.splits option.splits) blast+
qed

end
