(* ===== verification/Isolation.thy ===== *)
theory Isolation
  imports Safety
begin

text \<open>
  Two resources in one namespace: if their names and their secrets are apart, passes over them write
  different objects, with one exception. The names of the objects of a resource are its own
  name with a suffix, so it is enough that no resource is named like an object of the other.
\<close>

section \<open>What a pass writes\<close>

definition written :: "event list \<Rightarrow> key list" where
  "written es = map obj_key (created_objs es @ deleted_objs es)"

lemma written_append: "set (written (xs @ ys)) = set (written xs) \<union> set (written ys)"
  by (auto simp: written_def created_objs_def deleted_objs_def)

lemma written_simps [simp]:
  "written [] = []" "written (GetEv key e # es) = written es"
  "written (GetHorreumEv ns n e # es) = written es" "written (StatusEv ns n st # es) = written es"
  "set (written (CreateEv ob e # es)) = insert (obj_key ob) (set (written es))"
  "set (written (DeleteEv ob e # es)) = insert (obj_key ob) (set (written es))"
  by (simp_all add: written_def created_objs_def deleted_objs_def)

definition managed_keys :: "'w HorreumReconciler \<Rightarrow> Horreum \<Rightarrow> key set" where
  "managed_keys r cr = (\<lambda>(kd, n, _). (kd, Namespace cr, n)) ` set (managed r cr)"

lemma managed_keysI: "(kd, n, b) \<in> set (managed r cr) \<Longrightarrow> (kd, Namespace cr, n) \<in> managed_keys r cr"
  unfolding managed_keys_def by (rule image_eqI [where x = "(kd, n, b)"]) simp_all

lemma trace_written:
  assumes "operator_trace r cr es" and "reads_by_key r"
  shows "set (written es) \<subseteq> managed_keys r cr"
  using assms(1)
proof (induction rule: operator_trace.induct)
  case (tr_delete k n out res)
  then show ?case
    by (simp add: reads_by_key_fetched [OF assms(2) tr_delete.hyps(2)] managed_keysI)
next
  case (tr_replace k n out ob res)
  then show ?case
    by (simp add: reads_by_key_fetched [OF assms(2) tr_replace.hyps(2)] managed_keysI)
qed (auto simp: written_append managed_keysI)

lemma pass_written:
  assumes "reads_by_key r" and "foundCr r ns n w = Inr cr"
  shows "set (written (pass_events r ns n w)) \<subseteq> managed_keys r cr" and "Namespace cr = ns"
proof -
  show "Namespace cr = ns" using reads_by_key_cr [OF assms] by simp
  obtain es where "pass_events r ns n w = GetHorreumEv ns n None # es" "operator_trace r cr es"
    using pass_protocol [of r ns n w] assms(2) by auto
  then show "set (written (pass_events r ns n w)) \<subseteq> managed_keys r cr"
    using trace_written [OF _ assms(1)] by simp
qed

section \<open>Names\<close>

fun dashed :: "string \<Rightarrow> bool" where
  "dashed [] = True"
| "dashed (c # _) = (c = CHR ''-'')"

lemma dashed_names:
  assumes "n1 @ s1 = n2 @ s2" and "dashed s1" and "dashed s2"
  shows "n1 = n2 \<or> prefix (n1 @ ''-'') n2 \<or> prefix (n2 @ ''-'') n1"
proof -
  have one: "prefix (n @ ''-'') (n @ t)" if "t \<noteq> []" "dashed (t @ s)" for n t s
    using that by (cases t) simp_all
  from assms(1) obtain t where "n1 = n2 @ t \<and> t @ s1 = s2 \<or> n1 @ t = n2 \<and> s1 = t @ s2"
    by (auto simp: append_eq_append_conv2)
  then show ?thesis
    using assms(2,3) one [of t] by (cases "t = []") auto
qed

definition secretsOf :: "Horreum \<Rightarrow> string set" where
  "secretsOf cr = {dbAdminSecret cr, appUserSecret cr, keycloakAdminSecret cr, keycloakDbSecret cr,
     horreumAdminSecret cr, Name cr @ ''-ca-certs'', Name cr @ ''-app-certs'', Name cr @ ''-keycloak-certs''}"

text \<open>No resource is named like an object of the other, and they share no secret.\<close>

definition apart :: "Horreum \<Rightarrow> Horreum \<Rightarrow> bool" where
  "apart cr1 cr2 \<longleftrightarrow> Name cr1 \<noteq> Name cr2 \<and> \<not> prefix (Name cr1 @ ''-'') (Name cr2)
     \<and> \<not> prefix (Name cr2 @ ''-'') (Name cr1) \<and> secretsOf cr1 \<inter> secretsOf cr2 = {}"

text \<open>Every managed object is a secret, the published authority, or named after the resource.\<close>

definition named_after :: "Horreum \<Rightarrow> string \<Rightarrow> bool" where
  "named_after cr n \<longleftrightarrow> (\<exists>s. dashed s \<and> n = Name cr @ s)"

lemma named_after: "dashed s \<Longrightarrow> named_after cr (Name cr @ s)" "named_after cr (Name cr)"
  by (auto simp: named_after_def intro: exI [of _ "[]"])

lemma managed_names:
  assumes "(kd, n, b) \<in> set (managed r cr)"
  shows "if kd = KSecret then n \<in> secretsOf cr else (kd = KConfigMap \<and> n = ''service-ca.crt'') \<or> named_after cr n"
  using assms by (auto simp: managed_def secretsOf_def named_after split: if_splits)

lemma managed_apart:
  assumes "apart cr1 cr2" and "(kd, n, b1) \<in> set (managed r cr1)" and "(kd, n, b2) \<in> set (managed r cr2)"
  shows "kd = KConfigMap \<and> n = ''service-ca.crt''"
proof (rule ccontr)
  assume other: "\<not> (kd = KConfigMap \<and> n = ''service-ca.crt'')"
  note names = managed_names [OF assms(2)] managed_names [OF assms(3)]
  show False
  proof (cases "kd = KSecret")
    case True
    then show False using names assms(1) by (auto simp: apart_def)
  next
    case False
    then have "named_after cr1 n" "named_after cr2 n"
      using names other by (simp_all split: if_splits)
    then obtain s1 s2 where "n = Name cr1 @ s1" "dashed s1" "n = Name cr2 @ s2" "dashed s2"
      unfolding named_after_def by blast
    then show False
      using dashed_names [of "Name cr1" s1 "Name cr2" s2] assms(1) by (simp add: apart_def)
  qed
qed

text \<open>
  C12: passes over two resources of one namespace that are apart write different objects, whatever the
  server answers, if reads return the object that was asked for; the only object that both may write is
  the config map \<^verbatim>\<open>service-ca.crt\<close>, which is not named after the resource.
\<close>

theorem passes_apart:
  assumes "reads_by_key r" and "foundCr r ns n1 w1 = Inr cr1" and "foundCr r ns n2 w2 = Inr cr2"
    and "apart cr1 cr2"
  shows "set (written (pass_events r ns n1 w1)) \<inter> set (written (pass_events r ns n2 w2))
    \<subseteq> {(KConfigMap, ns, ''service-ca.crt'')}"
proof
  fix key
  assume "key \<in> set (written (pass_events r ns n1 w1)) \<inter> set (written (pass_events r ns n2 w2))"
  then have "key \<in> managed_keys r cr1" "key \<in> managed_keys r cr2"
    using pass_written(1) [OF assms(1,2)] pass_written(1) [OF assms(1,3)] by blast+
  then obtain kd n b1 b2 where "key = (kd, ns, n)" "(kd, n, b1) \<in> set (managed r cr1)"
      "(kd, n, b2) \<in> set (managed r cr2)"
    using pass_written(2) [OF assms(1,2)] pass_written(2) [OF assms(1,3)]
    by (auto simp: managed_keys_def)
  then show "key \<in> {(KConfigMap, ns, ''service-ca.crt'')}"
    using managed_apart [OF assms(4), where r = r] by blast
qed

text \<open>A cluster with a second resource.\<close>

definition second_cr :: Horreum where
  "second_cr = sample_cr\<lparr>Meta := (Meta sample_cr)\<lparr>om_name := ''benchmarks''\<rparr>\<rparr>"

definition two_memory :: memory where
  "two_memory = (sample_memory sample_cr)\<lparr>mem_crs := [sample_cr, second_cr]\<rparr>"

theorem passes_apart_witness:
  "set (written (pass_events (mem_reconciler False) ''default'' ''horreum'' two_memory))
     \<inter> set (written (pass_events (mem_reconciler False) ''default'' ''benchmarks'' two_memory))
    \<subseteq> {(KConfigMap, ''default'', ''service-ca.crt'')}"
proof (rule passes_apart [OF mem_reads_by_key])
  show "foundCr (mem_reconciler False) ''default'' ''horreum'' two_memory = Inr sample_cr"
    and "foundCr (mem_reconciler False) ''default'' ''benchmarks'' two_memory = Inr second_cr"
    by (simp_all add: two_memory_def mem_get_horreum_def second_cr_def sample_cr_def)
  show "apart sample_cr second_cr"
    by (simp add: apart_def secretsOf_def second_cr_def sample_cr_def dbAdminSecret_def appUserSecret_def
        keycloakAdminSecret_def keycloakDbSecret_def horreumAdminSecret_def withDefault_def zero_Horreum_def
        zero_HorreumSpec_def zero_PostgresSpec_def zero_KeycloakSpec_def zero_DatabaseSpec_def zero_meta_def)
qed

end
