(* ===== verification/Steady.thy ===== *)
theory Steady
  imports Wiring Quiet
begin

text \<open>
  Idempotence on a cluster without routes: once the cluster holds what the resource asks for, a
  pass writes nothing but the status, which is \<^verbatim>\<open>Ready\<close> with both URLs.
\<close>

section \<open>The API server\<close>

text \<open>
  Documented behaviour of the API server and of the library, while nobody else writes: there is a
  view of the stored objects, by key, that reads return and do not change; nor do the clock, the
  random source and status updates. \<^verbatim>\<open>SetControllerReference\<close> succeeds for a resource's own objects.
\<close>

definition api_reads :: "'w HorreumReconciler \<Rightarrow> ('w \<Rightarrow> key \<Rightarrow> obj option) \<Rightarrow> bool" where
  "api_reads r lookup \<longleftrightarrow>
     (\<forall>k ns n w. \<exists>w'. lookup w' = lookup w \<and> client_get (Client r) k ns n w =
        (case lookup w (k, ns, n) of None \<Rightarrow> Inl NotFound | Some ob \<Rightarrow> Inr ob, w')) \<and>
     (\<forall>w. lookup (snd (lib_now (Lib r) w)) = lookup w) \<and>
     (\<forall>i w. lookup (lib_seed (Lib r) i w) = lookup w) \<and>
     (\<forall>w. lookup (snd (lib_rand (Lib r) w)) = lookup w) \<and>
     (\<forall>cr w. lookup (cl_update_status (Client r) cr w) = lookup w)"

definition owns :: "'w HorreumReconciler \<Rightarrow> Horreum \<Rightarrow> bool" where
  "owns r cr \<longleftrightarrow> (\<forall>ob. \<exists>os. lib_owners (Lib r) cr ob = Inr os)"

lemma api_get:
  assumes "api_reads r lookup"
  obtains w' where "lookup w' = lookup w"
    and "client_get (Client r) k ns n w =
      (case lookup w (k, ns, n) of None \<Rightarrow> Inl NotFound | Some ob \<Rightarrow> Inr ob, w')"
  using assms unfolding api_reads_def by blast

section \<open>Computations that only read\<close>

fun is_get :: "event \<Rightarrow> bool" where
  "is_get (GetEv _ _) = True"
| "is_get _ = False"

interpretation gets: trace_language "list_all is_get"
  by unfold_locales auto

definition idle :: "('w \<Rightarrow> key \<Rightarrow> obj option) \<Rightarrow> 'w st \<Rightarrow> 'w st \<Rightarrow> bool" where
  "idle lookup s t \<longleftrightarrow>
     lookup (st_world t) = lookup (st_world s) \<and> st_status t = st_status s \<and> emits (list_all is_get) s t"

lemma idle_refl: "idle lookup s s"
  by (simp add: idle_def gets.emits_refl)

lemma idle_trans: "idle lookup s t \<Longrightarrow> idle lookup t u \<Longrightarrow> idle lookup s u"
  by (auto simp: idle_def intro: gets.emits_trans)

interpretation idle: step_order "idle lookup" for lookup
  by unfold_locales (auto intro: idle_refl idle_trans)

text \<open>
  From any state with the view \<open>v\<close>, the computation only reads, and returns \<open>a\<close>.
\<close>

definition settles ::
  "('w \<Rightarrow> key \<Rightarrow> obj option) \<Rightarrow> (key \<Rightarrow> obj option) \<Rightarrow> ('w st, 'a res) state \<Rightarrow> 'a \<Rightarrow> bool" where
  "settles lookup v m a \<longleftrightarrow>
     (\<forall>s. lookup (st_world s) = v \<longrightarrow> wp m (\<lambda>x t. x = Ok a \<and> idle lookup s t) s)"

lemma settlesD: "settles lookup v m a \<Longrightarrow> lookup (st_world s) = v \<Longrightarrow> wp m (\<lambda>x t. x = Ok a \<and> idle lookup s t) s"
  by (simp add: settles_def)

lemma settles_ok: "settles lookup v (ok a) a"
  by (simp add: settles_def wp_ok idle_refl)

lemma settles_then:
  fixes lookup :: "'w \<Rightarrow> key \<Rightarrow> obj option"
  assumes "settles lookup v m a" and "settles lookup v (k a) b"
  shows "settles lookup v (and_then m k) b"
  unfolding settles_def wp_and_then
proof (intro allI impI)
  fix s :: "'w st"
  assume s: "lookup (st_world s) = v"
  show "wp m (\<lambda>r t. case r of Ok a \<Rightarrow> wp (k a) (\<lambda>x u. x = Ok b \<and> idle lookup s u) t
      | Err e \<Rightarrow> Err e = Ok b \<and> idle lookup s t | Panic p \<Rightarrow> Panic p = Ok b \<and> idle lookup s t) s"
  proof (rule wp_mono [OF settlesD [OF assms(1) s]])
    fix x t
    assume x: "x = Ok a \<and> idle lookup s t"
    then have "lookup (st_world t) = v" using s by (simp add: idle_def)
    then have "wp (k a) (\<lambda>x u. x = Ok b \<and> idle lookup s u) t"
      using x by (intro wp_mono [OF settlesD [OF assms(2)]]) (auto intro: idle_trans)
    then show "case x of Ok a \<Rightarrow> wp (k a) (\<lambda>x u. x = Ok b \<and> idle lookup s u) t
      | Err e \<Rightarrow> Err e = Ok b \<and> idle lookup s t | Panic p \<Rightarrow> Panic p = Ok b \<and> idle lookup s t"
      using x by simp
  qed
qed

lemma settles_bind:
  fixes lookup :: "'w \<Rightarrow> key \<Rightarrow> obj option"
  assumes "\<And>s. lookup (st_world s) = v \<Longrightarrow> wp m (\<lambda>a t. I a \<and> idle lookup s t) s"
    and "\<And>a. I a \<Longrightarrow> settles lookup v (k a) b"
  shows "settles lookup v (State_Monad.bind m k) b"
  unfolding settles_def wp_bind
proof (intro allI impI)
  fix s :: "'w st"
  assume s: "lookup (st_world s) = v"
  show "wp m (\<lambda>a. wp (k a) (\<lambda>x t. x = Ok b \<and> idle lookup s t)) s"
  proof (rule wp_mono [OF assms(1) [OF s]])
    fix a t
    assume a: "I a \<and> idle lookup s t"
    then have "lookup (st_world t) = v" using s by (simp add: idle_def)
    then show "wp (k a) (\<lambda>x t. x = Ok b \<and> idle lookup s t) t"
      using a by (intro wp_mono [OF settlesD [OF assms(2)]]) (auto intro: idle_trans)
  qed
qed

section \<open>Operations on objects that are as desired\<close>

definition settled :: "(key \<Rightarrow> obj option) \<Rightarrow> obj \<Rightarrow> compareFunc \<Rightarrow> checkFunc \<Rightarrow> bool" where
  "settled v ob compare check \<longleftrightarrow>
     (case v (obj_key ob) of None \<Rightarrow> False | Some out \<Rightarrow> compare ob out \<and> fst (check out))"

lemma wp_api_get:
  assumes "api_reads r lookup" and "lookup (st_world s) = v"
    and "\<And>t. idle lookup s t \<Longrightarrow>
      Q (case v (k, ns, n) of None \<Rightarrow> Inl NotFound | Some ob \<Rightarrow> Inr ob) t"
  shows "wp (get_obj r k ns n) Q s"
proof -
  obtain w' where w: "lookup w' = lookup (st_world s)"
    "client_get (Client r) k ns n (st_world s) =
      (case lookup (st_world s) (k, ns, n) of None \<Rightarrow> Inl NotFound | Some ob \<Rightarrow> Inr ob, w')"
    using api_get [OF assms(1)] by blast
  show ?thesis
    unfolding get_obj_def wp_typed_get w(2) prod.case assms(2)
    by (rule assms(3)) (auto simp: idle_def w(1) emits_def)
qed

context resource_contract begin

lemma settles_ensureSame:
  fixes lookup :: "'w \<Rightarrow> key \<Rightarrow> obj option"
  assumes "api_reads r lookup" and "owns r cr" and "settled v ob compare check"
  shows "settles lookup v (ensureSame r cr (Some ob) compare check) (v (obj_key ob))"
proof -
  obtain out where out: "v (obj_key ob) = Some out" "compare ob out" "fst (check out)"
    using assms(3) by (auto simp: settled_def split: option.splits)
  obtain os where os: "set_controller_reference r cr ob = Inr (set_owners os ob)"
    using assms(2) unfolding owns_def set_controller_reference_def by (metis sum.case(2))
  have key: "(obj_kind (set_owners os ob), obj_namespace (set_owners os ob), obj_name (set_owners os ob))
      = obj_key ob"
    using set_owners_key [of os ob] by (simp add: obj_key_def)
  show ?thesis
    unfolding settles_def
  proof (intro allI impI)
    fix s :: "'w st"
    assume s: "lookup (st_world s) = v"
    show "wp (ensureSame r cr (Some ob) compare check) (\<lambda>x t. x = Ok (v (obj_key ob)) \<and> idle lookup s t) s"
      unfolding ensureSame_def option.case os sum.case wp_bind
      by (rule wp_api_get [OF assms(1) s])
        (use out in \<open>auto simp: key [simplified] compare_owners wp_simps split: prod.splits\<close>)
  qed
qed

end

lemma settles_ensureDeleted:
  fixes lookup :: "'w \<Rightarrow> key \<Rightarrow> obj option"
  assumes "api_reads r lookup" and "v (obj_key ob) = None"
  shows "settles lookup v (ensureDeleted r cr (Some ob)) ()"
  unfolding settles_def
proof (intro allI impI)
  fix s :: "'w st"
  assume s: "lookup (st_world s) = v"
  show "wp (ensureDeleted r cr (Some ob)) (\<lambda>x t. x = Ok () \<and> idle lookup s t) s"
    unfolding ensureDeleted_def option.case wp_bind
    by (rule wp_api_get [OF assms(1) s])
      (use assms(2) in \<open>auto simp: obj_key_def is_not_found_def wp_simps\<close>)
qed

section \<open>Typed reads, credentials and addresses\<close>

lemma idle_get:
  "lookup w' = lookup (st_world s) \<Longrightarrow>
   idle lookup s (s\<lparr>st_world := w', st_events := st_events s @ [GetEv key e]\<rparr>)"
  by (auto simp: idle_def emits_def)

lemma idle_world: "lookup w' = lookup (st_world s) \<Longrightarrow> idle lookup s (s\<lparr>st_world := w'\<rparr>)"
  by (auto simp: idle_def emits_def)

lemma api_get_found:
  assumes "api_reads r lookup" and "lookup w (k, ns, n) = Some ob"
  shows "\<exists>w'. lookup w' = lookup w \<and> client_get (Client r) k ns n w = (Inr ob, w')"
  using api_get [OF assms(1), of w k ns n] assms(2) by (metis option.case(2))

lemma settles_get_secret:
  fixes lookup :: "'w \<Rightarrow> key \<Rightarrow> obj option"
  assumes "api_reads r lookup" and "v (KSecret, ns, n) = Some (SecretObj sec)"
    and "settles lookup v (k (Inr sec)) b"
  shows "settles lookup v (State_Monad.bind (get_secret r ns n) k) b"
proof (rule settles_bind [where I = "\<lambda>x. x = Inr sec"])
  fix s :: "'w st"
  assume s: "lookup (st_world s) = v"
  obtain w' where "lookup w' = v" "client_get (Client r) KSecret ns n (st_world s) = (Inr (SecretObj sec), w')"
    using api_get_found [OF assms(1), of "st_world s"] assms(2) s by metis
  then have "lookup w' = lookup (st_world s)" "cl_get_secret (Client r) ns n (st_world s) = (Inr sec, w')"
    using s by (cases "cl_get_secret (Client r) ns n (st_world s)";
        auto simp: client_get_def map_sum_id_Inr)+
  then show "wp (get_secret r ns n) (\<lambda>x t. x = Inr sec \<and> idle lookup s t) s"
    by (simp add: get_secret_def wp_typed_get idle_get)
qed (use assms(3) in simp)

lemma settles_get_service:
  fixes lookup :: "'w \<Rightarrow> key \<Rightarrow> obj option"
  assumes "api_reads r lookup" and "v (KService, ns, n) = Some (ServiceObj svc)"
    and "settles lookup v (k (Inr svc)) b"
  shows "settles lookup v (State_Monad.bind (get_service r ns n) k) b"
proof (rule settles_bind [where I = "\<lambda>x. x = Inr svc"])
  fix s :: "'w st"
  assume s: "lookup (st_world s) = v"
  obtain w' where "lookup w' = v" "client_get (Client r) KService ns n (st_world s) = (Inr (ServiceObj svc), w')"
    using api_get_found [OF assms(1), of "st_world s"] assms(2) s by metis
  then have "lookup w' = lookup (st_world s)" "cl_get_service (Client r) ns n (st_world s) = (Inr svc, w')"
    using s by (cases "cl_get_service (Client r) ns n (st_world s)";
        auto simp: client_get_def map_sum_id_Inr)+
  then show "wp (get_service r ns n) (\<lambda>x t. x = Inr svc \<and> idle lookup s t) s"
    by (simp add: get_service_def wp_typed_get idle_get)
qed (use assms(3) in simp)

lemma settles_get_config_map:
  fixes lookup :: "'w \<Rightarrow> key \<Rightarrow> obj option"
  assumes "api_reads r lookup" and "v (KConfigMap, ns, n) = Some (ConfigMapObj cm)"
    and "settles lookup v (k (Inr cm)) b"
  shows "settles lookup v (State_Monad.bind (get_config_map r ns n) k) b"
proof (rule settles_bind [where I = "\<lambda>x. x = Inr cm"])
  fix s :: "'w st"
  assume s: "lookup (st_world s) = v"
  obtain w' where "lookup w' = v"
      "client_get (Client r) KConfigMap ns n (st_world s) = (Inr (ConfigMapObj cm), w')"
    using api_get_found [OF assms(1), of "st_world s"] assms(2) s by metis
  then have "lookup w' = lookup (st_world s)" "cl_get_config_map (Client r) ns n (st_world s) = (Inr cm, w')"
    using s by (cases "cl_get_config_map (Client r) ns n (st_world s)";
        auto simp: client_get_def map_sum_id_Inr)+
  then show "wp (get_config_map r ns n) (\<lambda>x t. x = Inr cm \<and> idle lookup s t) s"
    by (simp add: get_config_map_def wp_typed_get idle_get)
qed (use assms(3) in simp)

lemma idle_rand:
  assumes "api_reads r lookup"
  shows "wp (rand_intn r n) (\<lambda>_ t. idle lookup s t) s"
  using assms by (auto simp: wp_rand_intn api_reads_def split: prod.splits intro!: idle_world)
    (metis snd_conv)

lemma idle_fillPassword:
  assumes "api_reads r lookup"
  shows "wp (fillPassword r n) (\<lambda>_ t. idle lookup s t) s"
proof (induction n arbitrary: s)
  case 0
  show ?case by (simp add: wp_return idle_refl)
next
  case (Suc n)
  show ?case
    unfolding fillPassword.simps wp_bind wp_return
    by (rule wp_mono [OF idle_rand [OF assms]], rule wp_mono [OF Suc.IH]) (rule idle_trans)
qed

lemma idle_generatePassword:
  assumes "api_reads r lookup"
  shows "wp (generatePassword r) (\<lambda>_ t. idle lookup s t) s"
proof -
  have now: "wp (now r) (\<lambda>_ t. idle lookup s t) s" for s
    using assms by (auto simp: wp_now api_reads_def split: prod.splits intro!: idle_world) (metis snd_conv)
  have seed: "wp (effect (\<lambda>w. ((), lib_seed (Lib r) i w))) (\<lambda>_ t. idle lookup s t) s" for i s
    using assms by (auto simp: wp_effect api_reads_def intro!: idle_world)
  show ?thesis
    unfolding generatePassword_def wp_bind
    by (rule wp_mono [OF now], rule wp_mono [OF seed], rule wp_mono [OF idle_fillPassword [OF assms]])
      (blast intro: idle_trans)
qed

lemma idle_newSecret:
  assumes "api_reads r lookup"
  shows "wp (newSecret r cr n)
    (\<lambda>sec t. obj_key (SecretObj sec) = (KSecret, Namespace cr, n) \<and> idle lookup s t) s"
proof (rule wp_conj [OF wp_newSecret_key])
  show "wp (newSecret r cr n) (\<lambda>_ t. idle lookup s t) s"
    unfolding newSecret_def wp_bind wp_return by (rule idle_generatePassword [OF assms])
qed

section \<open>A cluster that holds what the resource asks for\<close>

definition has_secret :: "(key \<Rightarrow> obj option) \<Rightarrow> string \<Rightarrow> string \<times> string list \<Rightarrow> bool" where
  "has_secret v ns ref \<longleftrightarrow>
     (case v (KSecret, ns, fst ref) of None \<Rightarrow> False | Some out \<Rightarrow> fst (checkSecret (snd ref) out))"

section \<open>The secrets that pods refer to\<close>

text \<open>
  A stage vouches for a property of the cluster if it returns with the status \<^verbatim>\<open>Ready\<close>: then it has only
  read, and the property holds. Otherwise the status says so, or the error is reported, unless
  an owner reference could not be set.
\<close>

definition vouches ::
  "'w HorreumReconciler \<Rightarrow> Horreum \<Rightarrow> ('w \<Rightarrow> key \<Rightarrow> obj option) \<Rightarrow> ((key \<Rightarrow> obj option) \<Rightarrow> bool)
     \<Rightarrow> 'w st \<Rightarrow> 'a res \<Rightarrow> 'w st \<Rightarrow> bool" where
  "vouches r cr lookup C s x t \<longleftrightarrow> status_severity s \<le> status_severity t \<and>
     (case x of
        Ok _ \<Rightarrow> status_severity t \<noteq> SReady \<or> idle lookup s t \<and> C (lookup (st_world t))
      | Err e \<Rightarrow> error_reported cr t \<or> (\<exists>sec. lib_owners (Lib r) cr (SecretObj sec) = Inl e)
      | Panic _ \<Rightarrow> False)"

lemma vouches_simps [simp]:
  "vouches r cr lookup C s (Ok a) t \<longleftrightarrow> status_severity s \<le> status_severity t \<and>
     (status_severity t \<noteq> SReady \<or> idle lookup s t \<and> C (lookup (st_world t)))"
  "vouches r cr lookup C s (Err e) t \<longleftrightarrow> status_severity s \<le> status_severity t \<and>
     (error_reported cr t \<or> (\<exists>sec. lib_owners (Lib r) cr (SecretObj sec) = Inl e))"
  "\<not> vouches r cr lookup C s (Panic p) t"
  by (simp_all add: vouches_def)

lemma vouches_idle: "idle lookup s t \<Longrightarrow> vouches r cr lookup C t x u \<Longrightarrow> vouches r cr lookup C s x u"
  by (cases x) (auto simp: idle_def intro: gets.emits_trans)

lemma wp_vouches_then:
  fixes m :: "('w st, 'a res) state"
  assumes "wp m (vouches r cr lookup C s) s" and "\<And>a t. wp (k a) (vouches r cr lookup D t) t"
  shows "wp (and_then m k) (vouches r cr lookup (\<lambda>v. C v \<and> D v) s) s"
  unfolding wp_and_then
proof (rule wp_mono [OF assms(1)])
  fix x :: "'a res" and t
  assume x: "vouches r cr lookup C s x t"
  show "case x of
      Ok a \<Rightarrow> wp (k a) (vouches r cr lookup (\<lambda>v. C v \<and> D v) s) t
    | Err e \<Rightarrow> vouches r cr lookup (\<lambda>v. C v \<and> D v) s (Err e) t
    | Panic p \<Rightarrow> vouches r cr lookup (\<lambda>v. C v \<and> D v) s (Panic p) t"
  proof (cases x)
    case (Ok a)
    show ?thesis
      unfolding Ok res.case
    proof (rule wp_mono [OF assms(2) [of a t]])
      fix y u assume "vouches r cr lookup D t y u"
      then show "vouches r cr lookup (\<lambda>v. C v \<and> D v) s y u"
        using x Ok by (cases y) (auto simp: idle_def intro: order_trans gets.emits_trans)
    qed
  qed (use x in auto)
qed

lemma wp_vouches_bind:
  fixes m :: "('w st, 'a) state"
  assumes "wp m (\<lambda>a t. I a \<and> idle lookup s t) s" and "\<And>a t. I a \<Longrightarrow> wp (k a) (vouches r cr lookup C t) t"
  shows "wp (State_Monad.bind m k) (vouches r cr lookup C s) s"
  unfolding wp_bind
  by (rule wp_mono [OF assms(1)]) (use assms(2) in \<open>blast intro: wp_mono vouches_idle\<close>)

lemma wp_ensureSecret_vouches:
  assumes "api_reads r lookup" and "obj_key (SecretObj sec) = (KSecret, Namespace cr, n)"
  shows "wp (ensureSecret r cr sec keys) (vouches r cr lookup (\<lambda>v. has_secret v (Namespace cr) (n, keys)) s) s"
proof (cases "set_controller_reference r cr (SecretObj sec)")
  case (Inl e)
  then show ?thesis
    by (auto simp: ensureSecret_def ensureSame_def wp_simps set_controller_reference_def split: sum.splits)
next
  case (Inr ob)
  have key: "obj_kind ob = KSecret" "obj_namespace ob = Namespace cr" "obj_name ob = n"
    using set_controller_reference_Inr(1) [OF Inr] assms(2) by (simp_all add: obj_key_def)
  show ?thesis
    unfolding ensureSecret_def ensureSame_def option.case Inr sum.case key wp_and_then wp_bind
    by (rule wp_api_get [OF assms(1) refl])
      (auto simp: nocompare_def has_secret_def wp_simps is_not_found_def idle_def simp del: wp_setStatus wp_updateStatus
        split: option.splits prod.splits intro!: wp_createObj_outcome wp_setStatus_report
        dest: checkSecret_status simp: error_reported_severity)
qed

lemma wp_reconcileSecrets_vouches:
  fixes lookup :: "'w \<Rightarrow> key \<Rightarrow> obj option"
  assumes "api_reads r lookup"
  shows "wp (reconcileSecrets r cr)
    (vouches r cr lookup (\<lambda>v. list_all (has_secret v (Namespace cr)) (operatorSecrets cr)) s) s"
proof -
  note new = wp_vouches_bind [OF idle_newSecret [OF assms]]
  note ensure = wp_vouches_then [OF wp_ensureSecret_vouches [OF assms]]
  have password: "wp (generatePassword r) (\<lambda>_ t. True \<and> idle lookup s t) s" for s
    by (rule wp_mono [OF idle_generatePassword [OF assms]]) simp
  show ?thesis
    unfolding reconcileSecrets_def operatorSecrets_def list.pred_inject
    by (rule new, rule ensure, assumption, rule new, rule wp_vouches_bind [OF password], unfold Let_def,
      rule ensure, simp add: string_data_key, rule new, rule ensure, assumption, rule new, rule ensure, assumption,
      rule new, simp add: wp_ensureSecret_vouches [OF assms])
qed

text \<open>A reference to a secret resolves if the cluster holds the secret, in the namespace of the resource, with the key.\<close>

definition resolves :: "(key \<Rightarrow> obj option) \<Rightarrow> string \<Rightarrow> string \<times> string \<Rightarrow> bool" where
  "resolves v ns ref =
     (case v (KSecret, ns, fst ref) of Some (SecretObj sec) \<Rightarrow> snd ref |\<in>| fmdom (sec_data sec) | _ \<Rightarrow> False)"

lemma has_secret_resolves: "has_secret v ns (n, keys) \<Longrightarrow> k \<in> set keys \<Longrightarrow> resolves v ns (n, k)"
  by (auto simp: has_secret_def resolves_def checkSecret_def firstMissing_None split: option.splits obj.splits)

lemma covered_resolves:
  "list_all (has_secret v (Namespace cr)) (operatorSecrets cr) \<Longrightarrow> covered cr ref \<Longrightarrow> resolves v (Namespace cr) ref"
  by (cases ref) (auto simp: list_all_iff covered_def list_ex_iff dest!: bspec intro: has_secret_resolves)

text \<open>
  C7: the pods find their secrets. If \<^verbatim>\<open>reconcileSecrets\<close> returns without an error, then the status that
  the pass will report is \<^verbatim>\<open>Pending\<close> or \<^verbatim>\<open>Error\<close>, or it has only read, and the cluster that it leaves holds,
  for every environment variable of the database, Keycloak and Horreum containers that is read from a secret,
  that secret in the namespace of the resource with the key. If it returns an error, the error has been
  written to the status of the resource, or it is that of setting the owner reference of a secret. The API server
  returns the stored objects by their key.
\<close>

theorem pods_find_their_secrets:
  fixes lookup :: "'w \<Rightarrow> key \<Rightarrow> obj option"
  assumes "api_reads r lookup"
  shows "wp (reconcileSecrets r cr)
    (\<lambda>x t. case x of
       Ok _ \<Rightarrow> status_severity t \<noteq> SReady \<or>
         emits (list_all is_get) s t \<and> lookup (st_world t) = lookup (st_world s) \<and>
         list_all (\<lambda>p. list_all (resolves (lookup (st_world t)) (Namespace cr)) (env_refs p))
           (workloadPods cr r keycloakPublicUrl appPublicUrl)
     | Err e \<Rightarrow> error_reported cr t \<or> (\<exists>sec. lib_owners (Lib r) cr (SecretObj sec) = Inl e)
     | Panic _ \<Rightarrow> False) s"
proof (rule wp_mono [OF wp_reconcileSecrets_vouches [OF assms]])
  fix x t
  assume "vouches r cr lookup (\<lambda>v. list_all (has_secret v (Namespace cr)) (operatorSecrets cr)) s x t"
  then show "case x of
       Ok _ \<Rightarrow> status_severity t \<noteq> SReady \<or>
         emits (list_all is_get) s t \<and> lookup (st_world t) = lookup (st_world s) \<and>
         list_all (\<lambda>p. list_all (resolves (lookup (st_world t)) (Namespace cr)) (env_refs p))
           (workloadPods cr r keycloakPublicUrl appPublicUrl)
     | Err e \<Rightarrow> error_reported cr t \<or> (\<exists>sec. lib_owners (Lib r) cr (SecretObj sec) = Inl e)
     | Panic _ \<Rightarrow> False"
    using env_refs_covered [of cr r keycloakPublicUrl appPublicUrl] covered_resolves [of "lookup (st_world t)" cr]
    by (cases x) (auto simp: idle_def list_all_iff)
qed

definition node_port_of :: "(key \<Rightarrow> obj option) \<Rightarrow> service \<Rightarrow> int32" where
  "node_port_of v service =
     (case v (obj_key (ServiceObj service)) of
        Some (ServiceObj s) \<Rightarrow> (case svc_ports s of p # _ \<Rightarrow> sp_node p | [] \<Rightarrow> 0)
      | _ \<Rightarrow> 0)"

text \<open>The URL under which a service with a node port is reached.\<close>

definition node_url :: "(key \<Rightarrow> obj option) \<Rightarrow> Horreum \<Rightarrow> service \<Rightarrow> string" where
  "node_url v cr service = https_url (Spec_NodeHost (Spec cr)) (node_port_of v service)"

definition exposed :: "(key \<Rightarrow> obj option) \<Rightarrow> service \<Rightarrow> bool" where
  "exposed v service \<longleftrightarrow>
     settled v (ServiceObj service) compareService nocheck \<and> svc_type service = ServiceTypeNodePort
     \<and> node_port_of v service \<noteq> 0"

definition certs_ready :: "'w HorreumReconciler \<Rightarrow> Horreum \<Rightarrow> (key \<Rightarrow> obj option) \<Rightarrow> bool" where
  "certs_ready r cr v \<longleftrightarrow>
     (case v (KSecret, Namespace cr, Name cr @ ''-ca-certs'') of
        Some (SecretObj s) \<Rightarrow> (case loadCA r s of Inl _ \<Rightarrow> False | Inr _ \<Rightarrow> True) | _ \<Rightarrow> False)
     \<and> (case v (KConfigMap, Namespace cr, ''service-ca.crt'') of Some (ConfigMapObj _) \<Rightarrow> True | _ \<Rightarrow> False)
     \<and> (case v (KSecret, Namespace cr, Name cr @ ''-app-certs'') of Some (SecretObj _) \<Rightarrow> True | _ \<Rightarrow> False)
     \<and> (case v (KSecret, Namespace cr, Name cr @ ''-keycloak-certs'') of Some (SecretObj _) \<Rightarrow> True | _ \<Rightarrow> False)"

definition postgres_ready :: "checkFunc \<Rightarrow> 'w HorreumReconciler \<Rightarrow> Horreum \<Rightarrow> (key \<Rightarrow> obj option) \<Rightarrow> bool" where
  "postgres_ready chk r cr v \<longleftrightarrow>
     (if Pg_Enabled (Postgres cr) = Some False
      then v (obj_key (PodObj (postgresPod cr r))) = None \<and> v (obj_key (ServiceObj (postgresService cr))) = None
      else settled v (ConfigMapObj (postgresConfigMap cr)) compareConfigMap nocheck
         \<and> settled v (PodObj (postgresPod cr r)) (comparePods r) chk
         \<and> settled v (ServiceObj (postgresService cr)) compareService nocheck)"

definition keycloak_address :: "'w HorreumReconciler \<Rightarrow> Horreum \<Rightarrow> (key \<Rightarrow> obj option) \<Rightarrow> string" where
  "keycloak_address r cr v =
     (if publicUri cr = [] then node_url v cr (keycloakService cr r) else publicUri cr)"

definition keycloak_ready :: "checkFunc \<Rightarrow> 'w HorreumReconciler \<Rightarrow> Horreum \<Rightarrow> (key \<Rightarrow> obj option) \<Rightarrow> bool" where
  "keycloak_ready chk r cr v \<longleftrightarrow>
     (case keycloakPod cr (keycloak_address r cr v) of
        None \<Rightarrow> False
      | Some pod \<Rightarrow>
          if publicUri cr = []
          then exposed v (keycloakService cr r) \<and> settled v (PodObj pod) (comparePods r) chk
          else v (obj_key (PodObj pod)) = None \<and> v (obj_key (ServiceObj (keycloakService cr r))) = None)"

definition app_ready :: "checkFunc \<Rightarrow> 'w HorreumReconciler \<Rightarrow> Horreum \<Rightarrow> (key \<Rightarrow> obj option) \<Rightarrow> bool" where
  "app_ready chk r cr v \<longleftrightarrow>
     exposed v (appService cr r)
     \<and> settled v (PodObj (appPod cr (keycloak_address r cr v) (node_url v cr (appService cr r))))
         (comparePods r) chk
     \<and> settled v (ConfigMapObj (uploadConfig cr)) nocompare nocheck"

definition route_type_ok :: "Horreum \<Rightarrow> bool" where
  "route_type_ok cr \<longleftrightarrow> Route_Type (Kc_Route (Keycloak cr)) \<in> set [''passthrough'', ''reencrypt'', []]"

text \<open>
  \<open>stable chk\<close> asks for pods that match and pass \<open>chk\<close>; a cluster is steady if they are healthy.
\<close>

definition stable :: "checkFunc \<Rightarrow> 'w HorreumReconciler \<Rightarrow> Horreum \<Rightarrow> (key \<Rightarrow> obj option) \<Rightarrow> bool" where
  "stable chk r cr v \<longleftrightarrow>
     \<not> RoutesAvailable r \<and> Spec_NodeHost (Spec cr) \<noteq> [] \<and> route_type_ok cr
     \<and> certs_ready r cr v \<and> list_all (has_secret v (Namespace cr)) (operatorSecrets cr)
     \<and> postgres_ready chk r cr v \<and> keycloak_ready chk r cr v \<and> app_ready chk r cr v"

abbreviation steady :: "'w HorreumReconciler \<Rightarrow> Horreum \<Rightarrow> (key \<Rightarrow> obj option) \<Rightarrow> bool" where
  "steady \<equiv> stable checkPod"

section \<open>The stages of a pass over such a cluster\<close>

lemma settles_createServiceCert:
  assumes "api_reads r lookup" and "v (KSecret, Namespace cr, n) = Some (SecretObj sec)"
  shows "settles lookup v (createServiceCert cr r (Some ca) (Some key) n serviceName serial) ()"
  unfolding createServiceCert_def prod.case option.case
  by (rule settles_get_secret [where v = v, OF assms]) (simp add: settles_ok)

lemma settles_createCA:
  assumes "api_reads r lookup" and "v (KSecret, Namespace cr, Name cr @ ''-ca-certs'') = Some (SecretObj sec)"
    and "loadCA r sec = Inr (ca, key, pem)"
    and "v (KConfigMap, Namespace cr, ''service-ca.crt'') = Some (ConfigMapObj cm)"
  shows "settles lookup v (createCA cr r) (ca, key)"
proof -
  have "settles lookup v (publishCA cr r pem) ()"
    unfolding publishCA_def by (rule settles_get_config_map [where v = v, OF assms(1,4)]) (simp add: settles_ok)
  then have "settles lookup v (and_then (publishCA cr r pem) (\<lambda>_. ok (ca, key))) (ca, key)"
    by (rule settles_then) (rule settles_ok)
  then show ?thesis
    unfolding createCA_def
    by (intro settles_get_secret [where v = v, OF assms(1,2)]) (simp add: assms(3))
qed

lemma settles_reconcileCerts:
  assumes "api_reads r lookup" and "certs_ready r cr v" and "\<not> RoutesAvailable r"
  shows "settles lookup v (reconcileCerts r cr) ()"
proof -
  obtain sec ca key pem cm s1 s2
    where v: "v (KSecret, Namespace cr, Name cr @ ''-ca-certs'') = Some (SecretObj sec)"
      "loadCA r sec = Inr (ca, key, pem)"
      "v (KConfigMap, Namespace cr, ''service-ca.crt'') = Some (ConfigMapObj cm)"
      "v (KSecret, Namespace cr, Name cr @ ''-app-certs'') = Some (SecretObj s1)"
      "v (KSecret, Namespace cr, Name cr @ ''-keycloak-certs'') = Some (SecretObj s2)"
    using assms(2) unfolding certs_ready_def
    by (auto split: option.splits obj.splits sum.splits)
  have services: "settles lookup v
      (and_then (createServiceCert cr r (Some ca) (Some key) (Name cr @ ''-app-certs'') (Name cr) 1000)
        (\<lambda>_. createServiceCert cr r (Some ca) (Some key) (Name cr @ ''-keycloak-certs'')
          (Name cr @ ''-keycloak'') 2000)) ()"
    by (rule settles_then [where a = "()"]; rule settles_createServiceCert [where v = v, OF assms(1)])
      (rule v(4), rule v(5))
  have ca: "settles lookup v (createCA cr r) (ca, key)"
    by (rule settles_createCA [where v = v, OF assms(1) v(1-3)])
  show ?thesis
    unfolding reconcileCerts_def if_P [OF assms(3)]
    by (rule settles_then [OF ca]) (use services in simp)
qed

lemma settles_ensureSecret:
  assumes "api_reads r lookup" and "owns r cr" and "has_secret v (Namespace cr) (n, keys)"
    and "obj_key (SecretObj sec) = (KSecret, Namespace cr, n)"
  shows "settles lookup v (ensureSecret r cr sec keys) ()"
proof -
  have "settled v (SecretObj sec) nocompare (checkSecret keys)"
    using assms(3) by (simp add: settled_def assms(4) has_secret_def nocompare_def split: option.splits)
  then show ?thesis
    unfolding ensureSecret_def
    by (intro settles_then [OF secrets.settles_ensureSame [OF assms(1,2)] settles_ok])
qed

lemma settles_reconcileSecrets:
  assumes "api_reads r lookup" and "owns r cr"
    and "list_all (has_secret v (Namespace cr)) (operatorSecrets cr)"
  shows "settles lookup v (reconcileSecrets r cr) ()"
proof -
  note new = settles_bind [OF idle_newSecret [OF assms(1)]]
  have pw: "wp (generatePassword r) (\<lambda>_ t. True \<and> idle lookup s t) s" for s
    by (rule wp_mono [OF idle_generatePassword [OF assms(1)]]) simp
  show ?thesis
    unfolding reconcileSecrets_def Let_def
    by (intro new settles_bind [OF pw] settles_then [where a = "()"]
        settles_ensureSecret [OF assms(1,2)])
      (use assms(3) in \<open>simp_all add: operatorSecrets_def string_data_key\<close>)
qed

lemma settles_reconcilePostgres:
  assumes "api_reads r lookup" and "owns r cr" and "postgres_ready checkPod r cr v"
  shows "settles lookup v (reconcilePostgres r cr) ()"
proof (cases "Pg_Enabled (Postgres cr) = Some False")
  case True
  then show ?thesis
    using assms(3) unfolding reconcilePostgres_def postgres_ready_def Let_def
    by (auto intro!: settles_then [where a = "()"] settles_ensureDeleted assms(1))
next
  case False
  then show ?thesis
    using assms(3) unfolding reconcilePostgres_def postgres_ready_def Let_def
    by (auto intro!: settles_ok
        settles_then [OF config_maps.settles_ensureSame [OF assms(1,2)]]
        settles_then [OF pods.settles_ensureSame [OF assms(1,2)]]
        settles_then [OF services.settles_ensureSame [OF assms(1,2)]])
qed

lemma service_key:
  "obj_key (ServiceObj service) = (KService, om_namespace (svc_meta service), om_name (svc_meta service))"
  by (simp add: obj_key_def obj_namespace_def obj_name_def)

lemma settles_getNodePort:
  assumes "api_reads r lookup" and "node_port_of v service \<noteq> 0"
  shows "settles lookup v (getNodePort r service) (node_port_of v service)"
proof -
  obtain svc p ps where svc: "v (obj_key (ServiceObj service)) = Some (ServiceObj svc)"
      "svc_ports svc = p # ps" "node_port_of v service = sp_node p"
    using assms(2) unfolding node_port_of_def by (auto split: option.splits obj.splits list.splits)
  have get: "State_Monad.bind (getService r service) k =
      State_Monad.bind (get_service r (om_namespace (svc_meta service)) (om_name (svc_meta service)))
        (\<lambda>found. k (case found of Inl e \<Rightarrow> (None, Some e) | Inr svc \<Rightarrow> (Some svc, None)))"
    for k :: "service option \<times> go_error option \<Rightarrow> ('a st, 'b) state"
    unfolding getService_def State_Monad.bind_assoc
    by (intro arg_cong2 [where f = State_Monad.bind] refl ext) (simp split: sum.split)
  show ?thesis
    unfolding getNodePort_def get
    by (rule settles_get_service [where v = v, OF assms(1) svc(1) [unfolded service_key]])
      (simp add: first_port_def svc(2,3) and_then_def ok_def settles_ok [unfolded ok_def])
qed

lemma settles_serviceUrl:
  assumes "api_reads r lookup" and "exposed v service"
    and "svc_type service = serviceType ty r"
  shows "settles lookup v (serviceUrl r cr ty service rt p u) (Inr (node_url v cr service))"
proof -
  have ty: "isNodePort r ty" and port: "node_port_of v service \<noteq> 0"
    using assms(2,3) by (auto simp: exposed_def isNodePort_def serviceType_def split: if_splits)
  show ?thesis
    unfolding serviceUrl_def if_P [OF ty]
    by (rule settles_then [OF settles_getNodePort [OF assms(1) port]])
      (simp add: port node_url_def settles_ok)
qed

lemma settles_keycloakUrl:
  assumes "api_reads r lookup" and "owns r cr" and "keycloak_ready checkPod r cr v"
  shows "settles lookup v (keycloakUrl r cr rt) (Inr (keycloak_address r cr v))"
proof (cases "publicUri cr = []")
  case True
  then have ex: "exposed v (keycloakService cr r)"
    using assms(3) by (auto simp: keycloak_ready_def split: option.splits)
  then have "settled v (ServiceObj (keycloakService cr r)) compareService nocheck"
    by (simp add: exposed_def)
  note svc = services.settles_ensureSame [OF assms(1,2) this]
  show ?thesis
    unfolding keycloakUrl_def keycloak_address_def if_P [OF True]
    by (rule settles_then [OF svc], rule settles_serviceUrl [OF assms(1) ex])
      (simp add: keycloakService_def)
qed (simp add: keycloakUrl_def keycloak_address_def settles_ok)

lemma settles_reconcileKeycloakPod:
  assumes "api_reads r lookup" and "owns r cr" and "keycloak_ready checkPod r cr v" and "\<not> RoutesAvailable r"
  shows "settles lookup v (reconcileKeycloakPod r cr rt (keycloak_address r cr v)) ()"
proof -
  obtain pod where pod: "keycloakPod cr (keycloak_address r cr v) = Some pod"
    using assms(3) by (auto simp: keycloak_ready_def split: option.splits)
  show ?thesis
  proof (cases "publicUri cr = []")
    case True
    then have "settled v (PodObj pod) (comparePods r) checkPod"
      using assms(3) pod by (simp add: keycloak_ready_def)
    then show ?thesis
      using True unfolding reconcileKeycloakPod_def Let_def pod
      by (auto intro!: settles_then [OF pods.settles_ensureSame [OF assms(1,2)]] settles_ok)
  next
    case False
    then have "v (obj_key (PodObj pod)) = None" "v (obj_key (ServiceObj (keycloakService cr r))) = None"
      using assms(3) pod by (simp_all add: keycloak_ready_def)
    note del = this [THEN settles_ensureDeleted [where v = v, OF assms(1)]]
    have "settles lookup v (and_then (ensureDeleted r cr (Some (PodObj pod))) (\<lambda>_.
        and_then (ensureDeleted r cr (Some (ServiceObj (keycloakService cr r)))) (\<lambda>_. ok ()))) ()"
      by (intro settles_then [where a = "()"] del settles_ok)
    then show ?thesis
      using False assms(4) unfolding reconcileKeycloakPod_def Let_def pod by simp
  qed
qed

lemma settles_appUrl:
  assumes "api_reads r lookup" and "owns r cr" and "app_ready checkPod r cr v" and "\<not> RoutesAvailable r"
  shows "settles lookup v (appUrl r cr) (Inr (node_url v cr (appService cr r)))"
proof -
  have ex: "exposed v (appService cr r)"
    using assms(3) by (simp add: app_ready_def)
  then have "settled v (ServiceObj (appService cr r)) compareService nocheck"
    by (simp add: exposed_def)
  note svc = services.settles_ensureSame [OF assms(1,2) this]
  have rt: "settles lookup v (appRoute cr r) None"
    using assms(4) by (simp add: appRoute_def route_def settles_ok)
  show ?thesis
    unfolding appUrl_def
    by (rule settles_then [OF rt], rule settles_then [OF svc],
        rule settles_serviceUrl [OF assms(1) ex]) (simp add: appService_def)
qed

section \<open>The pass\<close>

lemma wp_settles_then:
  assumes "settles lookup v m a" and "lookup (st_world s) = v"
    and "\<And>t. idle lookup s t \<Longrightarrow> lookup (st_world t) = v \<Longrightarrow> wp (k a) Q t"
  shows "wp (and_then m k) Q s"
  unfolding wp_and_then
  by (rule wp_mono [OF settlesD [OF assms(1,2)]]) (auto intro: assms(3) simp: assms(2) idle_def)

lemma wp_settles_unless:
  assumes "settles lookup v m (Inr a)" and "lookup (st_world s) = v"
    and "\<And>t. idle lookup s t \<Longrightarrow> lookup (st_world t) = v \<Longrightarrow> wp (k a) Q t"
  shows "wp (unless_waiting m k) Q s"
  unfolding unless_waiting_def by (rule wp_settles_then [OF assms(1,2)]) (simp add: assms(3))

text \<open>The state after a pass that has only read, apart from its status.\<close>

definition passed ::
  "('w \<Rightarrow> key \<Rightarrow> obj option) \<Rightarrow> Horreum \<Rightarrow> HorreumStatus \<Rightarrow> 'w st \<Rightarrow> ctrl_result res \<Rightarrow> 'w st \<Rightarrow> bool" where
  "passed lookup cr status s x t \<longleftrightarrow>
     x = Ok (Result False) \<and> lookup (st_world t) = lookup (st_world s)
     \<and> (\<exists>es. st_events t = st_events s @ es @ [StatusEv (Namespace cr) (Name cr) status]
          \<and> list_all is_get es)"

lemma passed_after:
  assumes "passed lookup cr status t x u"
    and "lookup (st_world t) = lookup (st_world s)" and "emits (list_all is_get) s t"
  shows "passed lookup cr status s x u"
  using assms unfolding passed_def emits_def by (metis append.assoc list_all_append)

lemma wp_reconcileApp_steady:
  fixes lookup :: "'w \<Rightarrow> key \<Rightarrow> obj option"
  assumes "api_reads r lookup" and "owns r cr"
    and "settled v (PodObj (appPod cr ku au)) (comparePods r) checkPod"
    and "settled v (ConfigMapObj (uploadConfig cr)) nocompare nocheck" and "lookup (st_world s) = v"
  shows "wp (reconcileApp r cr ku au) (passed lookup cr (st_status s) s) s"
proof -
  note pod = pods.settles_ensureSame [OF assms(1-3)]
    and cm = kept.settles_ensureSame [OF assms(1,2,4)]
  show ?thesis
    unfolding reconcileApp_def
  proof (rule wp_settles_then [OF pod assms(5)], rule wp_settles_then [OF cm])
    fix t u
    assume "idle lookup s t" and "idle lookup t u"
    then have "idle lookup s u" by (rule idle_trans)
    then show "wp (do { statusUpdate r cr; ok (Result False) }) (passed lookup cr (st_status s) s) u"
      using assms(1) by (auto simp: wp_simps passed_def idle_def emits_def api_reads_def)
  qed
qed

lemma passed_set_status:
  "passed lookup cr status (t\<lparr>st_status := st\<rparr>) = passed lookup cr status t"
  by (auto simp: passed_def fun_eq_iff)

text \<open>One stage of the pass, in terms of the state in which it starts.\<close>

lemma wp_passed_then:
  fixes lookup :: "'w \<Rightarrow> key \<Rightarrow> obj option"
  assumes "settles lookup v m a" and "lookup (st_world s) = v"
    and "\<And>t. lookup (st_world t) = v \<Longrightarrow> st_status t = st_status s \<Longrightarrow>
      wp (k a) (passed lookup cr status t) t"
  shows "wp (and_then m k) (passed lookup cr status s) s"
proof (rule wp_settles_then [where a = a, OF assms(1,2)])
  fix t :: "'w st"
  assume t: "idle lookup s t" "lookup (st_world t) = v"
  then have "wp (k a) (passed lookup cr status t) t"
    by (intro assms(3)) (simp_all add: idle_def)
  then show "wp (k a) (passed lookup cr status s) t"
    by (rule wp_mono) (use t in \<open>auto simp: idle_def elim: passed_after\<close>)
qed

lemma wp_passed_unless:
  fixes lookup :: "'w \<Rightarrow> key \<Rightarrow> obj option"
  assumes "settles lookup v m (Inr a)" and "lookup (st_world s) = v"
    and "\<And>t. lookup (st_world t) = v \<Longrightarrow> st_status t = st_status s \<Longrightarrow>
      wp (k a) (passed lookup cr status t) t"
  shows "wp (unless_waiting m k) (passed lookup cr status s) s"
  unfolding unless_waiting_def by (rule wp_passed_then [OF assms(1,2)]) (simp add: assms(3))

lemma wp_reconcileApplication_settled:
  fixes lookup :: "'w \<Rightarrow> key \<Rightarrow> obj option"
  assumes "api_reads r lookup" and "owns r cr" and "settles lookup v (appUrl r cr) (Inr au)"
    and "settled v (PodObj (appPod cr ku au)) (comparePods r) checkPod"
    and "settled v (ConfigMapObj (uploadConfig cr)) nocompare nocheck" and "lookup (st_world s) = v"
  shows "wp (reconcileApplication r cr ku) (passed lookup cr ((st_status s)\<lparr>Status_PublicUrl := au\<rparr>) s) s"
  unfolding reconcileApplication_def
proof (rule wp_passed_unless [OF assms(3,6)])
  fix t :: "'w st"
  let ?t = "t\<lparr>st_status := (st_status t)\<lparr>Status_PublicUrl := au\<rparr>\<rparr>"
  assume t: "lookup (st_world t) = v" "st_status t = st_status s"
  have "wp (reconcileApp r cr ku au) (passed lookup cr (st_status ?t) ?t) ?t"
    by (rule wp_reconcileApp_steady [OF assms(1,2,4,5)]) (simp add: t(1))
  then show "wp (do { setPublicUrl au; reconcileApp r cr ku au })
      (passed lookup cr ((st_status s)\<lparr>Status_PublicUrl := au\<rparr>) t) t"
    by (simp add: setPublicUrl_def wp_bind wp_update passed_set_status t(2))
qed

lemma wp_reconcileKeycloak_settled:
  fixes lookup :: "'w \<Rightarrow> key \<Rightarrow> obj option"
  assumes "api_reads r lookup" and "owns r cr"
    and rt: "settles lookup v (keycloakRoute cr r) rt" and url: "settles lookup v (keycloakUrl r cr rt) (Inr ku)"
    and pod: "settles lookup v (reconcileKeycloakPod r cr rt ku) ()"
    and app: "settles lookup v (appUrl r cr) (Inr au)"
      "settled v (PodObj (appPod cr ku au)) (comparePods r) checkPod"
      "settled v (ConfigMapObj (uploadConfig cr)) nocompare nocheck"
    and s: "lookup (st_world s) = v"
  shows "wp (reconcileKeycloak r cr)
    (passed lookup cr ((st_status s)\<lparr>Status_KeycloakUrl := ku, Status_PublicUrl := au\<rparr>) s) s"
proof -
  have body: "wp (do { setKeycloakUrl ku;
      and_then (reconcileKeycloakPod r cr rt ku) (\<lambda>_. reconcileApplication r cr ku) })
      (passed lookup cr ((st_status t)\<lparr>Status_KeycloakUrl := ku, Status_PublicUrl := au\<rparr>) t) t"
    if t: "lookup (st_world t) = v" for t :: "'w st"
  proof -
    let ?t = "t\<lparr>st_status := (st_status t)\<lparr>Status_KeycloakUrl := ku\<rparr>\<rparr>"
    have "wp (reconcileApplication r cr ku) (passed lookup cr ((st_status u)\<lparr>Status_PublicUrl := au\<rparr>) u) u"
      if "lookup (st_world u) = v" for u :: "'w st"
      by (rule wp_reconcileApplication_settled [OF assms(1,2) app that])
    then have "wp (and_then (reconcileKeycloakPod r cr rt ku) (\<lambda>_. reconcileApplication r cr ku))
        (passed lookup cr ((st_status ?t)\<lparr>Status_PublicUrl := au\<rparr>) ?t) ?t"
      by (intro wp_passed_then [OF pod]) (use t in simp, metis)
    then show ?thesis
      by (simp add: setKeycloakUrl_def wp_bind wp_update passed_set_status)
  qed
  show ?thesis
    unfolding reconcileKeycloak_def
    by (rule wp_passed_then [OF rt s], rule wp_passed_unless [OF url], assumption) (use body in metis)
qed

lemma wp_markReady_steady:
  assumes "api_reads r lookup"
  shows "wp (markReady r cr) (\<lambda>_ t. lookup (st_world t) = lookup (st_world s)
     \<and> Status_Status (st_status t) = ''Ready'' \<and> st_events t = st_events s) s"
  using assms by (auto simp: markReady_def wp_simps api_reads_def split: prod.splits) (metis snd_conv)

text \<open>A pass in which every stage settles, on any kind of cluster.\<close>

lemma wp_settled_pass:
  fixes lookup :: "'w \<Rightarrow> key \<Rightarrow> obj option" and s :: "'w st"
  assumes "api_reads r lookup" and "owns r cr" and v: "lookup (st_world s) = v"
    and ports: "Spec_NodeHost (Spec cr) \<noteq> [] \<or>
      \<not> isNodePort r (Spec_ServiceType (Spec cr)) \<and> \<not> isNodePort r (Kc_ServiceType (Keycloak cr))"
    and certs: "settles lookup v (reconcileCerts r cr) ()"
    and secrets: "list_all (has_secret v (Namespace cr)) (operatorSecrets cr)"
    and pg: "postgres_ready checkPod r cr v"
    and kc: "settles lookup v (keycloakRoute cr r) rt" "settles lookup v (keycloakUrl r cr rt) (Inr ku)"
      "settles lookup v (reconcileKeycloakPod r cr rt ku) ()"
    and app: "settles lookup v (appUrl r cr) (Inr au)"
      "settled v (PodObj (appPod cr ku au)) (comparePods r) checkPod"
      "settled v (ConfigMapObj (uploadConfig cr)) nocompare nocheck"
  shows "wp (reconcileCr r cr) (\<lambda>x t. \<exists>status. passed lookup cr status s x t
     \<and> Status_Status status = ''Ready'' \<and> Status_KeycloakUrl status = ku \<and> Status_PublicUrl status = au) s"
proof -
  let ?rest = "and_then (reconcileCerts r cr) (\<lambda>_. and_then (reconcileSecrets r cr) (\<lambda>_.
      and_then (reconcilePostgres r cr) (\<lambda>_. reconcileKeycloak r cr)))"
  let ?status = "\<lambda>t. (st_status t)\<lparr>Status_KeycloakUrl := ku, Status_PublicUrl := au\<rparr>"
  have kc: "wp (reconcileKeycloak r cr) (passed lookup cr (?status t) t) t"
    if "lookup (st_world t) = v" for t :: "'w st"
    by (rule wp_reconcileKeycloak_settled [OF assms(1,2) kc app that])
  have pg: "wp (and_then (reconcilePostgres r cr) (\<lambda>_. reconcileKeycloak r cr))
      (passed lookup cr (?status t) t) t" if "lookup (st_world t) = v" for t :: "'w st"
    by (rule wp_passed_then [OF settles_reconcilePostgres [OF assms(1,2) pg] that]) (use kc in metis)
  have secrets: "wp (and_then (reconcileSecrets r cr) (\<lambda>_. and_then (reconcilePostgres r cr)
      (\<lambda>_. reconcileKeycloak r cr))) (passed lookup cr (?status t) t) t"
    if "lookup (st_world t) = v" for t :: "'w st"
    by (rule wp_passed_then [OF settles_reconcileSecrets [OF assms(1,2) secrets] that]) (use pg in metis)
  have rest: "wp ?rest (passed lookup cr (?status t) t) t" if "lookup (st_world t) = v" for t :: "'w st"
    by (rule wp_passed_then [OF certs that]) (use secrets in metis)
  have "wp (do { markReady r cr; ?rest }) (\<lambda>x t. \<exists>status. passed lookup cr status s x t
       \<and> Status_Status status = ''Ready'' \<and> Status_KeycloakUrl status = ku \<and> Status_PublicUrl status = au) s"
    unfolding wp_bind
  proof (rule wp_mono [OF wp_markReady_steady [OF assms(1)]])
    fix u and t :: "'w st"
    assume t: "lookup (st_world t) = lookup (st_world s) \<and> Status_Status (st_status t) = ''Ready''
      \<and> st_events t = st_events s"
    then have "lookup (st_world t) = v" using v by simp
    then show "wp ?rest (\<lambda>x t. \<exists>status. passed lookup cr status s x t
         \<and> Status_Status status = ''Ready'' \<and> Status_KeycloakUrl status = ku \<and> Status_PublicUrl status = au) t"
      by (intro wp_mono [OF rest]) (use t in \<open>auto simp: passed_def intro!: exI [of _ "?status t"]\<close>)
  qed
  then show ?thesis
    using ports unfolding reconcileCr_def by auto
qed

lemma wp_steady_pass:
  fixes lookup :: "'w \<Rightarrow> key \<Rightarrow> obj option"
  assumes "api_reads r lookup" and "owns r cr" and "steady r cr (lookup (st_world s))"
  shows "wp (reconcileCr r cr)
    (\<lambda>x t. \<exists>status. passed lookup cr status s x t \<and> Status_Status status = ''Ready''
       \<and> Status_KeycloakUrl status = keycloak_address r cr (lookup (st_world s))
       \<and> Status_PublicUrl status = node_url (lookup (st_world s)) cr (appService cr r)) s"
proof -
  let ?v = "lookup (st_world s)"
  have routes: "\<not> RoutesAvailable r" and certs: "certs_ready r cr ?v" and host: "Spec_NodeHost (Spec cr) \<noteq> []"
    and secrets: "list_all (has_secret ?v (Namespace cr)) (operatorSecrets cr)"
    and pg: "postgres_ready checkPod r cr ?v" and kc: "keycloak_ready checkPod r cr ?v"
    and app: "app_ready checkPod r cr ?v" and ty: "route_type_ok cr"
    using assms(3) by (simp_all add: stable_def)
  have rt: "settles lookup ?v (keycloakRoute cr r) None"
    using ty routes by (auto simp: keycloakRoute_def Let_def route_type_ok_def route_def settles_ok)
  show ?thesis
  proof (rule wp_settled_pass [where v = ?v, OF assms(1,2) refl _ settles_reconcileCerts [OF assms(1) certs routes]
        secrets pg rt settles_keycloakUrl [OF assms(1,2) kc]
        settles_reconcileKeycloakPod [OF assms(1,2) kc routes] settles_appUrl [OF assms(1,2) app routes]])
  qed (use host app in \<open>simp_all add: app_ready_def\<close>)
qed

text \<open>
  C4: a pass is idempotent. If the cluster already holds what the resource asks for
  (certificates that load, complete secrets, matching and healthy pods, matching services with
  assigned node ports, the config maps; and nothing of a disabled component), then the pass reads,
  creates and deletes nothing, leaves the view of the cluster as it is, asks for no other pass, and
  its last call reports \<^verbatim>\<open>Ready\<close> with the addresses of Keycloak and Horreum.
\<close>

theorem steady_pass_is_idle:
  fixes lookup :: "'w \<Rightarrow> key \<Rightarrow> obj option"
  assumes "api_reads r lookup" and "owns r cr" and "steady r cr (lookup (st_world s))"
  shows "wp (reconcileCr r cr)
    (\<lambda>x t. \<exists>status. passed lookup cr status s x t \<and> Status_Status status = ''Ready''
       \<and> Status_KeycloakUrl status = keycloak_address r cr (lookup (st_world s))
       \<and> Status_PublicUrl status = node_url (lookup (st_world s)) cr (appService cr r)) s"
  by (rule wp_steady_pass [OF assms])

end
