(* ===== verification/Converge.thy ===== *)
theory Converge
  imports Steady Authority Exposure
begin

text \<open>
  What a pass does to an arbitrary cluster, whatever the API server makes of its writes: it may
  refuse any of them, and a deleted object may stay until it has ended. The rules are those of a
  total-correctness logic over the view of the stored objects: every computation returns, with an error
  only if a write was refused, changes only the keys it is allowed to, adds only objects that the
  resource asks for, and keeps a standing invariant of the view.
\<close>

type_synonym view = "key \<Rightarrow> obj option"

section \<open>The API server while the operator writes\<close>

text \<open>
  Documented behaviour, while nobody else writes. A creation is refused, which changes nothing, or it is
  accepted: then no object had that key, and the object is stored as \<open>filled\<close> makes it. A deletion is refused,
  or it is accepted: then the object is gone, or (with a grace period or a finalizer) it is
  still stored, marked as being deleted. The server is free to choose each time.
\<close>

definition api_writes :: "'w HorreumReconciler \<Rightarrow> ('w \<Rightarrow> view) \<Rightarrow> (obj \<Rightarrow> obj) \<Rightarrow> bool" where
  "api_writes r lookup filled \<longleftrightarrow>
     (\<forall>ob w. case cl_create (Client r) ob w of
        (None, w') \<Rightarrow> lookup w (obj_key ob) = None \<and> lookup w' = (lookup w)(obj_key ob \<mapsto> filled ob)
      | (Some e, w') \<Rightarrow> lookup w' = lookup w) \<and>
     (\<forall>ob w. case cl_delete (Client r) ob w of
        (None, w') \<Rightarrow> lookup w' = (lookup w)(obj_key ob := None)
          \<or> (\<exists>stored. lookup w (obj_key ob) = Some stored \<and> lookup w' = (lookup w)(obj_key ob \<mapsto> mark_deleted stored))
      | (Some e, w') \<Rightarrow> lookup w' = lookup w)"

text \<open>
  A server that accepts every creation under a free key, and every deletion of a stored object, at once.
  No theorem assumes it; on such a server no pass fails.
\<close>

definition prompt :: "'w HorreumReconciler \<Rightarrow> ('w \<Rightarrow> view) \<Rightarrow> bool" where
  "prompt r lookup \<longleftrightarrow>
     (\<forall>ob w. lookup w (obj_key ob) = None \<longrightarrow> fst (cl_create (Client r) ob w) = None) \<and>
     (\<forall>ob w. lookup w (obj_key ob) \<noteq> None \<longrightarrow>
        fst (cl_delete (Client r) ob w) = None \<and> lookup (snd (cl_delete (Client r) ob w)) (obj_key ob) = None)"

text \<open>
  Admission and defaulting: the key stays; a pod gets defaults that \<^verbatim>\<open>DeepDerivative\<close> ignores, as
  the desired pod leaves them unset; a service keeps its type and ports and gets node ports if its
  type asks for them; \<^verbatim>\<open>stringData\<close> of a secret is merged into \<^verbatim>\<open>data\<close>; a route keeps what it
  asks for, and its status is left to the router.
\<close>

definition fills :: "'w HorreumReconciler \<Rightarrow> (obj \<Rightarrow> obj) \<Rightarrow> bool" where
  "fills r filled \<longleftrightarrow>
     (\<forall>ob. obj_key (filled ob) = obj_key ob) \<and>
     (\<forall>p. ps_rest (p_spec p) = [] \<longrightarrow>
        (\<exists>p'. filled (PodObj p) = PodObj p' \<and> lib_deep_derivative (Lib r) (p_spec p) (p_spec p'))) \<and>
     (\<forall>s. \<exists>s'. filled (ServiceObj s) = ServiceObj s' \<and> svc_type s' = svc_type s
        \<and> map sp_port (svc_ports s') = map sp_port (svc_ports s)
        \<and> (svc_type s = ServiceTypeNodePort \<and> list_all (\<lambda>p. sp_node p = 0) (svc_ports s) \<longrightarrow>
             list_all (\<lambda>p. 0 < sint (sp_node p)) (svc_ports s'))) \<and>
     (\<forall>s. \<exists>s'. filled (SecretObj s) = SecretObj s' \<and> sec_data s' = sec_data s ++\<^sub>f sec_string_data s) \<and>
     (\<forall>c. \<exists>c'. filled (ConfigMapObj c) = ConfigMapObj c' \<and> cm_data c' = cm_data c) \<and>
     (\<forall>rt. \<exists>rt'. filled (RouteObj rt) = RouteObj rt' \<and> (rt_host rt \<noteq> [] \<longrightarrow> rt_host rt' = rt_host rt)
        \<and> rt_subdomain rt' = rt_subdomain rt \<and> rt_tls rt' = rt_tls rt \<and> rt_ingress rt' = rt_ingress rt)"

text \<open>Keys are generated and certificates are signed without an error.\<close>

definition signs :: "'w HorreumReconciler \<Rightarrow> ('w \<Rightarrow> view) \<Rightarrow> bool" where
  "signs r lookup \<longleftrightarrow>
     (\<forall>w. \<exists>key w'. rsa_generate (Crypto r) w = (Inr key, w') \<and> lookup w' = lookup w) \<and>
     (\<forall>template parent pub key w. \<exists>bytes w'.
        x509_create (Crypto r) template parent pub key w = (Inr bytes, w') \<and> lookup w' = lookup w)"

definition platform :: "'w HorreumReconciler \<Rightarrow> Horreum \<Rightarrow> ('w \<Rightarrow> view) \<Rightarrow> (obj \<Rightarrow> obj) \<Rightarrow> bool" where
  "platform r cr lookup filled \<longleftrightarrow> api_reads r lookup \<and> api_writes r lookup filled \<and> fills r filled
     \<and> signs r lookup \<and> codec_laws (Crypto r) \<and> owns r cr"

section \<open>The objects that the resource asks for\<close>

text \<open>The secrets that hold certificates, and the credentials that a pass generates.\<close>

definition certSecrets :: "Horreum \<Rightarrow> string list" where
  "certSecrets cr = [Name cr @ ''-ca-certs'', Name cr @ ''-app-certs'', Name cr @ ''-keycloak-certs'']"

definition fresh_secret :: "Horreum \<Rightarrow> string \<Rightarrow> string list \<Rightarrow> secret \<Rightarrow> bool" where
  "fresh_secret cr n keys sec \<longleftrightarrow> obj_key (SecretObj sec) = (KSecret, Namespace cr, n)
     \<and> sec_data sec = fmempty \<and> firstMissing (sec_string_data sec) keys = None"

text \<open>
  By component: certificates, credentials, the database unless it is disabled, Keycloak unless it is
  external, Horreum. The addresses in pods and the TLS settings of routes are not fixed by the
  resource alone.
\<close>

inductive wanted :: "'w HorreumReconciler \<Rightarrow> Horreum \<Rightarrow> obj \<Rightarrow> bool" for r cr where
  certificate: "\<not> RoutesAvailable r \<Longrightarrow> n \<in> set (certSecrets cr) \<Longrightarrow> wanted r cr (SecretObj (tlsSecret r cr n bytes key))"
| authority: "\<not> RoutesAvailable r \<Longrightarrow> wanted r cr (ConfigMapObj (serviceCaConfigMap cr pem))"
| injected: "RoutesAvailable r \<Longrightarrow> wanted r cr (ConfigMapObj (injectedCaConfigMap cr))"
| credentials: "(n, keys) \<in> set (operatorSecrets cr) \<Longrightarrow> fresh_secret cr n keys sec \<Longrightarrow> wanted r cr (SecretObj sec)"
| db_script: "Pg_Enabled (Postgres cr) \<noteq> Some False \<Longrightarrow> wanted r cr (ConfigMapObj (postgresConfigMap cr))"
| db_pod: "Pg_Enabled (Postgres cr) \<noteq> Some False \<Longrightarrow> wanted r cr (PodObj (postgresPod cr r))"
| db_service: "Pg_Enabled (Postgres cr) \<noteq> Some False \<Longrightarrow> wanted r cr (ServiceObj (postgresService cr))"
| kc_pod: "publicUri cr = [] \<Longrightarrow> keycloakPod cr url = Some p \<Longrightarrow> wanted r cr (PodObj p)"
| kc_service: "publicUri cr = [] \<Longrightarrow> wanted r cr (ServiceObj (keycloakService cr r))"
| kc_route: "publicUri cr = [] \<Longrightarrow> RoutesAvailable r \<Longrightarrow>
    wanted r cr (RouteObj (route_object (Kc_Route (Keycloak cr)) ''-keycloak'' cr cfg))"
| app_service: "wanted r cr (ServiceObj (appService cr r))"
| app_pod: "wanted r cr (PodObj (appPod cr url aurl))"
| app_upload: "wanted r cr (ConfigMapObj (uploadConfig cr))"
| app_route: "RoutesAvailable r \<Longrightarrow> wanted r cr (RouteObj (route_object (Spec_Route (Spec cr)) [] cr cfg))"

text \<open>
  Every object that is stored afterwards was stored before, or is one of these, exactly as the
  operator builds it (with its owner) and as the server completes it, but for a mark of deletion.
\<close>

definition grown :: "'w HorreumReconciler \<Rightarrow> Horreum \<Rightarrow> (obj \<Rightarrow> obj) \<Rightarrow> view \<Rightarrow> view \<Rightarrow> bool" where
  "grown r cr filled v v' \<longleftrightarrow> (\<forall>key x. v' key = Some x \<longrightarrow>
     (\<exists>y. (x = y \<or> x = mark_deleted y)
        \<and> (v key = Some y \<or> (\<exists>os d. wanted r cr d \<and> obj_key d = key \<and> y = filled (set_owners os d)))))"

lemma grown_refl [simp]: "grown r cr filled v v"
  unfolding grown_def by blast

lemma grown_trans: "grown r cr filled u v \<Longrightarrow> grown r cr filled v w \<Longrightarrow> grown r cr filled u w"
  unfolding grown_def by (metis mark_deleted_simps(3))

lemma grown_add: "wanted r cr d \<Longrightarrow> grown r cr filled v (v(obj_key d \<mapsto> filled (set_owners os d)))"
  unfolding grown_def by auto

lemma grown_remove: "grown r cr filled v (v(key := None))"
  unfolding grown_def by auto

lemma grown_mark: "v key = Some ob \<Longrightarrow> grown r cr filled v (v(key \<mapsto> mark_deleted ob))"
  unfolding grown_def by auto

text \<open>The view once the deleted objects of disabled components have ended.\<close>

definition swept :: "'w HorreumReconciler \<Rightarrow> Horreum \<Rightarrow> view \<Rightarrow> view" where
  "swept r cr v key =
     (case v key of Some ob \<Rightarrow> if deleting ob \<and> key \<in> set (disabledKeys r cr) then None else Some ob | None \<Rightarrow> None)"

lemma swept_same: "key \<notin> set (disabledKeys r cr) \<Longrightarrow> swept r cr v key = v key"
  by (simp add: swept_def split: option.split)

lemma swept_Some: "swept r cr v key = Some ob \<Longrightarrow> v key = Some ob"
  by (simp add: swept_def split: option.splits if_splits)

lemma swept_settled:
  "obj_key ob \<notin> set (disabledKeys r cr) \<Longrightarrow> settled (swept r cr v) ob compare chk = settled v ob compare chk"
  by (simp add: settled_def swept_same)

lemma enabled_keys:
  "k \<noteq> KPod \<Longrightarrow> k \<noteq> KService \<Longrightarrow> k \<noteq> KRoute \<Longrightarrow> (k, n) \<notin> set (disabledKeys r cr)"
  "(KPod, Namespace cr, Name cr @ ''-app'') \<notin> set (disabledKeys r cr)"
  "(KService, Namespace cr, Name cr) \<notin> set (disabledKeys r cr)"
  "(KRoute, Namespace cr, Name cr) \<notin> set (disabledKeys r cr)"
  "Pg_Enabled (Postgres cr) \<noteq> Some False \<Longrightarrow> (k, Namespace cr, Name cr @ ''-db'') \<notin> set (disabledKeys r cr)"
  "publicUri cr = [] \<Longrightarrow> (k, Namespace cr, Name cr @ ''-keycloak'') \<notin> set (disabledKeys r cr)"
  by (auto simp: disabledKeys_def split: if_splits)

section \<open>The standing invariant\<close>

text \<open>
  What a pass relies on in the objects it finds and keeps: node ports are assigned, the secrets it
  refers to hold their keys, the authority's secret can be loaded, and the router gives plain names.
\<close>

fun acceptable :: "'w HorreumReconciler \<Rightarrow> Horreum \<Rightarrow> obj \<Rightarrow> bool" where
  "acceptable r cr (ServiceObj s) \<longleftrightarrow>
     (svc_type s = ServiceTypeNodePort \<longrightarrow> list_all (\<lambda>p. 0 < sint (sp_node p)) (svc_ports s))"
| "acceptable r cr (SecretObj s) \<longleftrightarrow>
     (om_namespace (sec_meta s) = Namespace cr \<longrightarrow>
        list_all (\<lambda>(n, keys). om_name (sec_meta s) = n \<longrightarrow> firstMissing (sec_data s) keys = None)
          (operatorSecrets cr) \<and>
        (om_name (sec_meta s) = Name cr @ ''-ca-certs'' \<longrightarrow> \<not> isl (loadCA r s)))"
| "acceptable r cr (RouteObj rt) \<longleftrightarrow>
     (RoutesAvailable r \<longrightarrow> list_all (\<lambda>i. ri_host i \<noteq> [] \<longrightarrow> dns_name (ri_host i)) (rt_ingress rt))"
| "acceptable r cr ob \<longleftrightarrow> True"

definition cluster_ok :: "'w HorreumReconciler \<Rightarrow> Horreum \<Rightarrow> view \<Rightarrow> bool" where
  "cluster_ok r cr v \<longleftrightarrow> (\<forall>key ob. v key = Some ob \<longrightarrow> obj_key ob = key \<and> acceptable r cr ob)"

lemma cluster_okD:
  "cluster_ok r cr v \<Longrightarrow> v key = Some ob \<Longrightarrow> obj_key ob = key \<and> acceptable r cr ob"
  unfolding cluster_ok_def by blast

lemma cluster_ok_update:
  "cluster_ok r cr v \<Longrightarrow> acceptable r cr ob \<Longrightarrow> cluster_ok r cr (v(obj_key ob \<mapsto> ob))"
  "cluster_ok r cr v \<Longrightarrow> cluster_ok r cr (v(key := None))"
  by (auto simp: cluster_ok_def)

definition kept_outside :: "key set \<Rightarrow> view \<Rightarrow> view \<Rightarrow> bool" where
  "kept_outside K v v' \<longleftrightarrow> (\<forall>key. key \<notin> K \<longrightarrow> v' key = v key)"

lemma kept_outside_refl [simp]: "kept_outside K v v"
  by (simp add: kept_outside_def)

lemma kept_outside_trans: "kept_outside K u v \<Longrightarrow> kept_outside K v w \<Longrightarrow> kept_outside K u w"
  by (simp add: kept_outside_def)

lemma kept_outside_mono: "kept_outside K v w \<Longrightarrow> K \<subseteq> K' \<Longrightarrow> kept_outside K' v w"
  unfolding kept_outside_def by blast

lemma kept_outsideD: "kept_outside K v w \<Longrightarrow> key \<notin> K \<Longrightarrow> w key = v key"
  unfolding kept_outside_def by blast

lemma kept_outside_update: "key \<in> K \<Longrightarrow> kept_outside K v (v(key := x))"
  by (simp add: kept_outside_def)

lemma acceptable_mark [simp]: "acceptable r cr (mark_deleted ob) \<longleftrightarrow> acceptable r cr ob"
  by (cases ob) (simp_all add: loadCA_def)

lemma cluster_ok_mark: "cluster_ok r cr v \<Longrightarrow> v key = Some ob \<Longrightarrow> cluster_ok r cr (v(key \<mapsto> mark_deleted ob))"
  by (auto simp: cluster_ok_def)

lemma cluster_ok_swept: "cluster_ok r cr v \<Longrightarrow> cluster_ok r cr (swept r cr v)"
  unfolding cluster_ok_def by (blast dest: swept_Some)

lemma kept_outside_swept: "kept_outside K v v' \<Longrightarrow> kept_outside K (swept r cr v) (swept r cr v')"
  by (simp add: kept_outside_def swept_def)

section \<open>A total-correctness judgement\<close>

text \<open>Calls that were accepted, and those that were refused with a given error.\<close>

fun write_ok :: "event \<Rightarrow> bool" where
  "write_ok (CreateEv _ e) \<longleftrightarrow> e = None"
| "write_ok (DeleteEv _ e) \<longleftrightarrow> e = None"
| "write_ok _ \<longleftrightarrow> True"

fun refused :: "go_error \<Rightarrow> event \<Rightarrow> bool" where
  "refused e (CreateEv _ e') \<longleftrightarrow> e' = Some e"
| "refused e (DeleteEv _ e') \<longleftrightarrow> e' = Some e"
| "refused e _ \<longleftrightarrow> False"

interpretation accepted: trace_language "list_all write_ok"
  by unfold_locales auto

text \<open>
  From every state whose view satisfies \<open>P\<close> (and the invariant), the computation returns in one of two
  ways. Without an error: then every write was accepted, and the view satisfies \<open>Q\<close>, has only wanted additions, and differs at keys of
  \<open>K\<close> only. Or with the error of a write that was refused, by a server that is not prompt.
\<close>

definition lands ::
  "'w HorreumReconciler \<Rightarrow> Horreum \<Rightarrow> ('w \<Rightarrow> view) \<Rightarrow> (obj \<Rightarrow> obj) \<Rightarrow> key set \<Rightarrow> ('a \<Rightarrow> view \<Rightarrow> bool)
     \<Rightarrow> 'w st \<Rightarrow> 'a \<Rightarrow> 'w st \<Rightarrow> bool" where
  "lands r cr lookup filled K Q s a t \<longleftrightarrow>
     (let v = lookup (st_world s); v' = lookup (st_world t) in
      cluster_ok r cr v' \<and> Q a v' \<and> kept_outside K v v' \<and> grown r cr filled v v' \<and> emits (list_all write_ok) s t)"

definition turned_away ::
  "'w HorreumReconciler \<Rightarrow> Horreum \<Rightarrow> ('w \<Rightarrow> view) \<Rightarrow> key set \<Rightarrow> 'w st \<Rightarrow> go_error \<Rightarrow> 'w st \<Rightarrow> bool" where
  "turned_away r cr lookup K s e t \<longleftrightarrow>
     (let v = lookup (st_world s); v' = lookup (st_world t) in
      cluster_ok r cr v' \<and> kept_outside K v v' \<and> emits (list_ex (refused e)) s t \<and> \<not> prompt r lookup)"

definition ends ::
  "'w HorreumReconciler \<Rightarrow> Horreum \<Rightarrow> ('w \<Rightarrow> view) \<Rightarrow> (obj \<Rightarrow> obj) \<Rightarrow> key set \<Rightarrow> ('a \<Rightarrow> view \<Rightarrow> bool)
     \<Rightarrow> 'w st \<Rightarrow> 'a res \<Rightarrow> 'w st \<Rightarrow> bool" where
  "ends r cr lookup filled K Q s x t \<longleftrightarrow>
     (case x of
        Ok a \<Rightarrow> lands r cr lookup filled K Q s a t
      | Err e \<Rightarrow> turned_away r cr lookup K s e t
      | Panic _ \<Rightarrow> False)"

definition achieves ::
  "'w HorreumReconciler \<Rightarrow> Horreum \<Rightarrow> ('w \<Rightarrow> view) \<Rightarrow> (obj \<Rightarrow> obj) \<Rightarrow> key set \<Rightarrow> (view \<Rightarrow> bool) \<Rightarrow> ('w st, 'a res) state
     \<Rightarrow> ('a \<Rightarrow> view \<Rightarrow> bool) \<Rightarrow> bool" where
  "achieves r cr lookup filled K P m Q \<longleftrightarrow>
     (\<forall>s. cluster_ok r cr (lookup (st_world s)) \<longrightarrow> P (lookup (st_world s)) \<longrightarrow> wp m (ends r cr lookup filled K Q s) s)"

lemma ends_simps [simp]:
  "ends r cr lookup filled K Q s (Ok a) t = lands r cr lookup filled K Q s a t"
  "ends r cr lookup filled K Q s (Err e) t = turned_away r cr lookup K s e t"
  "\<not> ends r cr lookup filled K Q s (Panic p) t"
  by (simp_all add: ends_def)

lemma achievesI:
  fixes lookup :: "'w \<Rightarrow> view"
  assumes "\<And>s :: 'w st. cluster_ok r cr (lookup (st_world s)) \<Longrightarrow> P (lookup (st_world s)) \<Longrightarrow>
    wp m (ends r cr lookup filled K Q s) s"
  shows "achieves r cr lookup filled K P m Q"
  using assms unfolding achieves_def by blast

lemma achievesD:
  "achieves r cr lookup filled K P m Q \<Longrightarrow> cluster_ok r cr (lookup (st_world s)) \<Longrightarrow> P (lookup (st_world s)) \<Longrightarrow>
   wp m (ends r cr lookup filled K Q s) s"
  unfolding achieves_def by blast

lemma landsD:
  assumes "lands r cr lookup filled K Q s a t"
  shows "cluster_ok r cr (lookup (st_world t))" and "Q a (lookup (st_world t))"
    and "kept_outside K (lookup (st_world s)) (lookup (st_world t))"
    and "grown r cr filled (lookup (st_world s)) (lookup (st_world t))" and "emits (list_all write_ok) s t"
  using assms by (simp_all add: lands_def Let_def)

text \<open>A computation that leaves the view alone and writes nothing.\<close>

lemma lands_still:
  assumes "cluster_ok r cr (lookup (st_world s))" and "lookup (st_world t) = lookup (st_world s)"
    and "Q a (lookup (st_world s))" and "emits (list_all write_ok) s t"
  shows "lands r cr lookup filled K Q s a t"
  using assms by (simp add: lands_def)

lemma achieves_ok: "(\<And>v. cluster_ok r cr v \<Longrightarrow> P v \<Longrightarrow> Q a v) \<Longrightarrow> achieves r cr lookup filled K P (ok a) Q"
  by (rule achievesI) (simp add: wp_ok lands_still accepted.emits_refl)

lemma ends_mono:
  assumes "ends r cr lookup filled K Q s x t" and "K \<subseteq> K'"
    and "\<And>a. cluster_ok r cr (lookup (st_world t)) \<Longrightarrow> kept_outside K (lookup (st_world s)) (lookup (st_world t)) \<Longrightarrow>
      Q a (lookup (st_world t)) \<Longrightarrow> Q' a (lookup (st_world t))"
  shows "ends r cr lookup filled K' Q' s x t"
  using assms by (cases x) (auto simp: lands_def turned_away_def Let_def intro: kept_outside_mono)

lemma achieves_weaken:
  assumes "achieves r cr lookup filled K P m Q" and "K \<subseteq> K'"
    and "\<And>v. cluster_ok r cr v \<Longrightarrow> P' v \<Longrightarrow> P v" and "\<And>a v. cluster_ok r cr v \<Longrightarrow> Q a v \<Longrightarrow> Q' a v"
  shows "achieves r cr lookup filled K' P' m Q'"
  by (rule achievesI, rule wp_mono [OF achievesD [OF assms(1)]])
    (use assms(2-4) in \<open>auto elim: ends_mono\<close>)

text \<open>What follows a computation that landed.\<close>

lemma emits_any_trans:
  assumes "emits (list_all write_ok) s t" and "emits (list_ex (refused e)) t u"
  shows "emits (list_ex (refused e)) s u"
  using assms by (auto simp: emits_def)

lemma ends_trans:
  assumes "lands r cr lookup filled K J s a t" and "ends r cr lookup filled K Q t x u"
  shows "ends r cr lookup filled K Q s x u"
  using assms
  by (cases x)
    (auto simp: lands_def turned_away_def Let_def intro: kept_outside_trans grown_trans accepted.emits_trans emits_any_trans)

text \<open>The rest of a computation, after a call that keeps within the same keys.\<close>

lemma achieves_bind:
  fixes lookup :: "'w \<Rightarrow> view"
  assumes "\<And>s :: 'w st. cluster_ok r cr (lookup (st_world s)) \<Longrightarrow> P (lookup (st_world s)) \<Longrightarrow>
      wp m (\<lambda>a t. lands r cr lookup filled K J s a t) s"
    and "\<And>a. achieves r cr lookup filled K (J a) (k a) Q"
  shows "achieves r cr lookup filled K P (State_Monad.bind m k) Q"
proof (rule achievesI, unfold wp_bind, rule wp_mono [OF assms(1)], assumption+)
  fix s a and t :: "'w st"
  assume a: "lands r cr lookup filled K J s a t"
  show "wp (k a) (ends r cr lookup filled K Q s) t"
    by (rule wp_mono [OF achievesD [OF assms(2) landsD(1,2) [OF a]]]) (rule ends_trans [OF a])
qed

lemma achieves_then:
  fixes lookup :: "'w \<Rightarrow> view"
  assumes "achieves r cr lookup filled K P m R" and "\<And>a. achieves r cr lookup filled K (R a) (k a) Q"
  shows "achieves r cr lookup filled K P (and_then m k) Q"
proof (rule achievesI, unfold wp_and_then, rule wp_mono [OF achievesD [OF assms(1)]], assumption+)
  fix s x and t :: "'w st"
  assume x: "ends r cr lookup filled K R s x t"
  show "case x of Ok a \<Rightarrow> wp (k a) (ends r cr lookup filled K Q s) t
      | Err e \<Rightarrow> ends r cr lookup filled K Q s (Err e) t | Panic p \<Rightarrow> ends r cr lookup filled K Q s (Panic p) t"
  proof (cases x)
    case (Ok a)
    then have a: "lands r cr lookup filled K R s a t" using x by simp
    have "wp (k a) (ends r cr lookup filled K Q s) t"
      by (rule wp_mono [OF achievesD [OF assms(2) landsD(1,2) [OF a]]]) (rule ends_trans [OF a])
    then show ?thesis using Ok by simp
  qed (use x in simp_all)
qed

text \<open>What holds of the view outside the changed keys is kept.\<close>

lemma achieves_frame:
  assumes "achieves r cr lookup filled K P m Q" and "\<And>v v'. R v \<Longrightarrow> kept_outside K v v' \<Longrightarrow> R v'"
  shows "achieves r cr lookup filled K (\<lambda>v. P v \<and> R v) m (\<lambda>a v. Q a v \<and> R v)"
  by (rule achievesI, rule wp_mono [OF achievesD [OF assms(1)]], assumption, blast, erule ends_mono)
    (use assms(2) in blast)+

lemma achieves_stage:
  assumes "achieves r cr lookup filled K (\<lambda>_. True) m Q" and "K \<subseteq> K'"
    and "\<And>v v'. R v \<Longrightarrow> kept_outside K v v' \<Longrightarrow> R v'"
    and "\<And>a v. cluster_ok r cr v \<Longrightarrow> Q a v \<Longrightarrow> R v \<Longrightarrow> Q' a v"
  shows "achieves r cr lookup filled K' R m Q'"
  by (rule achieves_weaken [OF achieves_frame [where P = "\<lambda>_. True" and R = R, OF assms(1,3)] assms(2)])
    (simp_all add: assms(4))

text \<open>Computations that only read, and those that make a call outside the cluster first.\<close>

lemma is_get_write_ok: "emits (list_all is_get) s t \<Longrightarrow> emits (list_all write_ok) s t"
proof (erule emits_mono)
  show "list_all write_ok es" if "list_all is_get es" for es
    using that by (rule list.pred_mono_strong) (auto elim: is_get.elims)
qed

lemma idle_lands:
  "idle lookup s t \<Longrightarrow> cluster_ok r cr (lookup (st_world s)) \<Longrightarrow> Q a (lookup (st_world s)) \<Longrightarrow>
   lands r cr lookup filled K Q s a t"
  by (rule lands_still) (auto simp: idle_def intro: is_get_write_ok)

lemma achieves_settles:
  assumes "\<And>v. cluster_ok r cr v \<Longrightarrow> P v \<Longrightarrow> settles lookup v m (f v)"
  shows "achieves r cr lookup filled K P m (\<lambda>a v. a = f v \<and> P v)"
  by (rule achievesI, rule wp_mono [OF settlesD [OF assms refl]]) (auto intro: idle_lands)

lemma achieves_idle_bind:
  fixes lookup :: "'w \<Rightarrow> view"
  assumes "\<And>s. wp m (\<lambda>a t. J a \<and> idle lookup s t) s"
    and "\<And>a. J a \<Longrightarrow> achieves r cr lookup filled K P (k a) Q"
  shows "achieves r cr lookup filled K P (State_Monad.bind m k) Q"
proof (rule achieves_bind [where J = "\<lambda>a v. J a \<and> P v"])
  fix s :: "'w st"
  assume "cluster_ok r cr (lookup (st_world s))" "P (lookup (st_world s))"
  then show "wp m (\<lambda>a t. lands r cr lookup filled K (\<lambda>a v. J a \<and> P v) s a t) s"
    by (intro wp_mono [OF assms(1)]) (auto intro: idle_lands)
next
  fix a
  show "achieves r cr lookup filled K (\<lambda>v. J a \<and> P v) (k a) Q"
    using assms(2) by (auto simp: achieves_def)
qed

section \<open>Calls\<close>

lemma platformD:
  assumes "platform r cr lookup filled"
  shows "api_reads r lookup" "api_writes r lookup filled" "fills r filled" "signs r lookup"
    "codec_laws (Crypto r)" "owns r cr"
  using assms by (simp_all add: platform_def)

lemma achieves_typed_get:
  fixes lookup :: "'w \<Rightarrow> view"
  assumes "api_reads r lookup" and "\<And>w. client_get (Client r) kd ns n w = apfst (map_sum id con) (get ns n w)"
    and "\<And>x. achieves r cr lookup filled K (\<lambda>v. P v \<and> v (kd, ns, n) = Some (con x)) (k (Inr x)) Q"
    and "achieves r cr lookup filled K (\<lambda>v. P v \<and> v (kd, ns, n) = None) (k (Inl NotFound)) Q"
  shows "achieves r cr lookup filled K P (State_Monad.bind (typed_get kd get ns n) k) Q"
proof (rule achieves_bind)
  fix s :: "'w st"
  assume s: "cluster_ok r cr (lookup (st_world s))" "P (lookup (st_world s))"
  obtain w' where w': "lookup w' = lookup (st_world s)" "apfst (map_sum id con) (get ns n (st_world s)) =
      (case lookup (st_world s) (kd, ns, n) of None \<Rightarrow> Inl NotFound | Some ob \<Rightarrow> Inr ob, w')"
    using api_get [OF assms(1), of "st_world s" kd ns n] assms(2) by metis
  show "wp (typed_get kd get ns n) (\<lambda>x t. lands r cr lookup filled K (\<lambda>x v. P v \<and> (case v (kd, ns, n) of
       None \<Rightarrow> x = Inl NotFound | Some ob \<Rightarrow> \<exists>y. ob = con y \<and> x = Inr y)) s x t) s"
    using w' s by (cases "get ns n (st_world s)"; cases "lookup (st_world s) (kd, ns, n)")
      (auto simp: wp_typed_get map_sum_id_Inr map_sum_id_Inl emits_def intro!: lands_still)
next
  fix x
  show "achieves r cr lookup filled K (\<lambda>v. P v \<and> (case v (kd, ns, n) of
       None \<Rightarrow> x = Inl NotFound | Some ob \<Rightarrow> \<exists>y. ob = con y \<and> x = Inr y)) (k x) Q"
    using assms(3,4) by (auto simp: achieves_def split: option.splits)
qed

lemma client_get_typed:
  "client_get c KSecret ns n w = apfst (map_sum id SecretObj) (cl_get_secret c ns n w)"
  "client_get c KConfigMap ns n w = apfst (map_sum id ConfigMapObj) (cl_get_config_map c ns n w)"
  by (simp_all add: client_get_def)

lemma achieves_get_secret:
  assumes "api_reads r lookup"
    and "\<And>x. achieves r cr lookup filled K (\<lambda>v. P v \<and> v (KSecret, ns, n) = Some (SecretObj x)) (k (Inr x)) Q"
    and "achieves r cr lookup filled K (\<lambda>v. P v \<and> v (KSecret, ns, n) = None) (k (Inl NotFound)) Q"
  shows "achieves r cr lookup filled K P (State_Monad.bind (get_secret r ns n) k) Q"
  unfolding get_secret_def
  by (rule achieves_typed_get [where con = SecretObj])
    (simp_all add: assms client_get_typed map_sum.id)

lemma achieves_get_config_map:
  assumes "api_reads r lookup"
    and "\<And>x. achieves r cr lookup filled K (\<lambda>v. P v \<and> v (KConfigMap, ns, n) = Some (ConfigMapObj x)) (k (Inr x)) Q"
    and "achieves r cr lookup filled K (\<lambda>v. P v \<and> v (KConfigMap, ns, n) = None) (k (Inl NotFound)) Q"
  shows "achieves r cr lookup filled K P (State_Monad.bind (get_config_map r ns n) k) Q"
  unfolding get_config_map_def
  by (rule achieves_typed_get [where con = ConfigMapObj])
    (simp_all add: assms client_get_typed map_sum.id)

lemma achieves_get_obj:
  assumes "api_reads r lookup"
    and "\<And>x. achieves r cr lookup filled K (\<lambda>v. P v \<and> v (kd, ns, n) = Some x) (k (Inr x)) Q"
    and "achieves r cr lookup filled K (\<lambda>v. P v \<and> v (kd, ns, n) = None) (k (Inl NotFound)) Q"
  shows "achieves r cr lookup filled K P (State_Monad.bind (get_obj r kd ns n) k) Q"
  unfolding get_obj_def
  by (rule achieves_typed_get [where con = id])
    (simp_all add: assms client_get_typed map_sum.id)

text \<open>What follows a refused write: a report, if any, and the error.\<close>

definition aborts :: "('w \<Rightarrow> view) \<Rightarrow> ('w st, 'a res) state \<Rightarrow> go_error \<Rightarrow> bool" where
  "aborts lookup m e \<longleftrightarrow>
     (\<forall>s. wp m (\<lambda>x t. x = Err e \<and> lookup (st_world t) = lookup (st_world s) \<and> emits (\<lambda>_. True) s t) s)"

lemma aborts_fail: "aborts lookup (fail e) e"
  by (simp add: aborts_def wp_fail emits_def)

lemma aborts_report:
  assumes "api_reads r lookup"
  shows "aborts lookup (do { updateStatus r cr status reason; fail e }) e"
  using assms unfolding aborts_def
  by (auto simp: wp_simps api_reads_def emits_def split: prod.splits) (metis snd_conv)+

lemma turned_awayI:
  fixes m :: "('w st, 'a res) state"
  assumes "aborts lookup m e" and "refused e ev" and "\<not> prompt r lookup"
    and "cluster_ok r cr (lookup (st_world s))" and "lookup (st_world t) = lookup (st_world s)"
    and "st_events t = st_events s @ [ev]"
  shows "wp m (ends r cr lookup filled K Q s) t"
proof -
  have "wp m (\<lambda>x u. x = Err e \<and> lookup (st_world u) = lookup (st_world t) \<and> emits (\<lambda>_. True) t u) t"
    using assms(1) by (simp add: aborts_def)
  then show ?thesis
    by (rule wp_mono) (use assms(2-6) in \<open>auto simp: turned_away_def emits_def\<close>)
qed

text \<open>A creation of a wanted object, and a deletion.\<close>

lemma achieves_create:
  fixes lookup :: "'w \<Rightarrow> view"
  assumes pf: "platform r cr lookup filled" and wanted: "wanted r cr d"
    and acc: "acceptable r cr (filled (set_owners os d))" and K: "obj_key d \<in> K"
    and free: "\<And>v. P v \<Longrightarrow> prompt r lookup \<Longrightarrow> v (obj_key d) = None"
    and rest: "achieves r cr lookup filled K (\<lambda>v. v (obj_key d) = Some (filled (set_owners os d))) (k None) Q"
    and err: "\<And>e. aborts lookup (k (Some e)) e"
  shows "achieves r cr lookup filled K P (State_Monad.bind (create r (set_owners os d)) k) Q"
proof (rule achievesI)
  let ?ob = "set_owners os d"
  fix s :: "'w st"
  assume s: "cluster_ok r cr (lookup (st_world s))" "P (lookup (st_world s))"
  obtain x w' where w': "cl_create (Client r) ?ob (st_world s) = (x, w')" by fastforce
  note law = platformD(2) [OF pf, unfolded api_writes_def, THEN conjunct1, rule_format, of "st_world s" ?ob, unfolded w' prod.case]
  let ?t = "s\<lparr>st_world := w', st_events := st_events s @ [CreateEv ?ob x]\<rparr>"
  have "wp (k x) (ends r cr lookup filled K Q s) ?t"
  proof (cases x)
    case None
    have key: "obj_key (filled ?ob) = obj_key d"
      using platformD(3) [OF pf] by (simp add: fills_def)
    have new: "lookup w' = (lookup (st_world s))(obj_key d \<mapsto> filled ?ob)" using law None by simp
    have t: "lands r cr lookup filled K (\<lambda>_ v. v (obj_key d) = Some (filled ?ob)) s x ?t"
      using s(1) cluster_ok_update(1) [OF s(1) acc] None
      by (simp add: lands_def Let_def new key kept_outside_update K grown_add wanted emits_def)
    show ?thesis
      unfolding None
      by (rule wp_mono [OF achievesD [OF rest]])
        (use landsD(1,2) [OF t] ends_trans [OF t] None in simp_all)
  next
    case (Some e)
    have "\<not> prompt r lookup"
      using free [OF s(2)] w' Some unfolding prompt_def by (metis fst_conv option.distinct(1) set_owners_key)
    then show ?thesis
      unfolding Some
      by (intro turned_awayI [where ev = "CreateEv ?ob (Some e)", OF err]) (use s(1) law Some in simp_all)
  qed
  then show "wp (State_Monad.bind (create r ?ob) k) (ends r cr lookup filled K Q s) s"
    by (simp add: wp_bind wp_create w')
qed

lemma achieves_delete:
  fixes lookup :: "'w \<Rightarrow> view"
  assumes pf: "platform r cr lookup filled" and K: "key \<in> K"
    and found: "\<And>v. P v \<Longrightarrow> v key = Some ob"
    and rest: "achieves r cr lookup filled K (\<lambda>v. (v key = None \<or> v key = Some (mark_deleted ob))
       \<and> (prompt r lookup \<longrightarrow> v key = None)) (k None) Q"
    and err: "\<And>e. aborts lookup (k (Some e)) e"
  shows "achieves r cr lookup filled K P (State_Monad.bind (delete r ob) k) Q"
proof (rule achievesI)
  fix s :: "'w st"
  assume s: "cluster_ok r cr (lookup (st_world s))" "P (lookup (st_world s))"
  have key: "obj_key ob = key" "lookup (st_world s) key = Some ob"
    using cluster_okD [OF s(1) found [OF s(2)]] found [OF s(2)] by simp_all
  obtain x w' where w': "cl_delete (Client r) ob (st_world s) = (x, w')" by fastforce
  note law = platformD(2) [OF pf, unfolded api_writes_def, THEN conjunct2, rule_format, of "st_world s" ob, unfolded w' prod.case]
  have prompt: "x = None \<and> lookup w' key = None" if "prompt r lookup"
    using that key w' unfolding prompt_def by (metis fst_conv option.distinct(1) snd_conv)
  let ?t = "s\<lparr>st_world := w', st_events := st_events s @ [DeleteEv ob x]\<rparr>"
  have "wp (k x) (ends r cr lookup filled K Q s) ?t"
  proof (cases x)
    case None
    have new: "lookup w' = (lookup (st_world s))(key := None) \<or> lookup w' = (lookup (st_world s))(key \<mapsto> mark_deleted ob)"
      using law None key by simp
    then have "cluster_ok r cr (lookup w')" "kept_outside K (lookup (st_world s)) (lookup w')"
        "grown r cr filled (lookup (st_world s)) (lookup w')" "lookup w' key = None \<or> lookup w' key = Some (mark_deleted ob)"
      using cluster_ok_update(2) [OF s(1), of key] cluster_ok_mark [where v = "lookup (st_world s)" and key = key and ob = ob, OF s(1) key(2)] K grown_remove [of r cr filled "lookup (st_world s)" key]
        grown_mark [where v = "lookup (st_world s)" and key = key and ob = ob and r = r and cr = cr and filled = filled, OF key(2)]
      by (auto simp: kept_outside_update)
    then have t: "lands r cr lookup filled K (\<lambda>_ v. (v key = None \<or> v key = Some (mark_deleted ob))
        \<and> (prompt r lookup \<longrightarrow> v key = None)) s x ?t"
      using None prompt by (simp add: lands_def emits_def)
    show ?thesis
      unfolding None
      by (rule wp_mono [OF achievesD [OF rest]])
        (use landsD(1,2) [OF t] ends_trans [OF t] None in simp_all)
  next
    case (Some e)
    then show ?thesis
      unfolding Some
      by (intro turned_awayI [where ev = "DeleteEv ob (Some e)", OF err]) (use s(1) law Some prompt in auto)
  qed
  then show "wp (State_Monad.bind (delete r ob) k) (ends r cr lookup filled K Q s) s"
    by (simp add: wp_bind wp_delete w')
qed

lemma api_now: "api_reads r lookup \<Longrightarrow> lookup (snd (lib_now (Lib r) w)) = lookup w"
  unfolding api_reads_def by blast

lemma achieves_setStatus:
  fixes lookup :: "'w \<Rightarrow> view"
  assumes "api_reads r lookup" and "achieves r cr lookup filled K P (k ()) Q"
  shows "achieves r cr lookup filled K P (State_Monad.bind (setStatus r status reason) k) Q"
proof (rule achieves_bind [where J = "\<lambda>_. P"])
  fix s :: "'w st"
  assume "cluster_ok r cr (lookup (st_world s))" "P (lookup (st_world s))"
  then show "wp (setStatus r status reason) (\<lambda>x t. lands r cr lookup filled K (\<lambda>_. P) s x t) s"
    using api_now [OF assms(1), of "st_world s"]
    by (cases "lib_now (Lib r) (st_world s)") (auto simp: wp_setStatus emits_def intro!: lands_still)
qed (use assms(2) in simp)

section \<open>The operations\<close>

lemma achieves_createObj:
  assumes "platform r cr lookup filled" and "wanted r cr d" and "acceptable r cr (filled (set_owners os d))"
    and "obj_key d \<in> K" and "\<And>v. P v \<Longrightarrow> prompt r lookup \<Longrightarrow> v (obj_key d) = None"
  shows "achieves r cr lookup filled K P (createObj r cr (set_owners os d) out)
    (\<lambda>x v. x = out \<and> v (obj_key d) = Some (filled (set_owners os d)))"
  unfolding createObj_def
proof (rule achieves_create [where P = P and d = d, OF assms(1-4)], rule assms(5), assumption, assumption, unfold option.case)
  show "achieves r cr lookup filled K (\<lambda>v. v (obj_key d) = Some (filled (set_owners os d)))
     (do { setStatus r ''Pending'' (''Creating '' @ kind_and_name (set_owners os d)); ok out })
     (\<lambda>x v. x = out \<and> v (obj_key d) = Some (filled (set_owners os d)))"
    by (rule achieves_setStatus [OF platformD(1) [OF assms(1)]], rule achieves_ok) simp
qed (rule aborts_report [OF platformD(1) [OF assms(1)]])

context resource_contract begin

text \<open>An object that was found is kept, with a report if it is not healthy, or deleted and created anew.\<close>

lemma achieves_found:
  assumes pf: "platform r cr lookup filled" and K: "obj_key ob \<in> K"
    and keep: "\<And>v. cluster_ok r cr v \<Longrightarrow> P v \<Longrightarrow> v (obj_key ob) = Some out \<Longrightarrow> compare ob out \<Longrightarrow> Q (Some out) v"
    and create: "acceptable r cr out \<Longrightarrow> achieves r cr lookup filled K (\<lambda>v. prompt r lookup \<longrightarrow> v (obj_key ob) = None)
      (createObj r cr (set_owners os ob) (Some out)) Q"
  shows "achieves r cr lookup filled K (\<lambda>v. P v \<and> v (obj_key ob) = Some out)
    (if compare (set_owners os ob) out then
       case check out of (healthy, status, reason) \<Rightarrow>
         if \<not> healthy then do { setStatus r status (report reason); ok (Some out) } else ok (Some out)
     else do {
       err \<leftarrow> delete r out;
       case err of None \<Rightarrow> createObj r cr (set_owners os ob) (Some out)
       | Some e \<Rightarrow> do { updateStatus r cr ''Error'' msg; fail e } }) Q"
proof (cases "compare ob out")
  case True
  have "achieves r cr lookup filled K (\<lambda>v. P v \<and> v (obj_key ob) = Some out) (ok (Some out)) Q"
    by (rule achieves_ok) (use True keep in blast)
  then show ?thesis
    using True by (auto simp: compare_owners intro: achieves_setStatus [OF platformD(1) [OF pf]] split: prod.split)
next
  case False
  show ?thesis
  proof (cases "acceptable r cr out")
    case True
    show ?thesis
      unfolding compare_owners if_not_P [OF False]
    proof (rule achieves_delete [OF pf K], simp, unfold option.case)
      show "achieves r cr lookup filled K (\<lambda>v. (v (obj_key ob) = None \<or> v (obj_key ob) = Some (mark_deleted out))
          \<and> (prompt r lookup \<longrightarrow> v (obj_key ob) = None)) (createObj r cr (set_owners os ob) (Some out)) Q"
        by (rule achieves_weaken [OF create [OF True]]) simp_all
    qed (rule aborts_report [OF platformD(1) [OF pf]])
  next
    case False
    then have "\<not> (cluster_ok r cr v \<and> v (obj_key ob) = Some out)" for v by (auto dest: cluster_okD)
    then show ?thesis by (auto simp: achieves_def)
  qed
qed

text \<open>
  Afterwards the stored object matches the desired one; any further property of matching acceptable
  objects holds, too. What it hands to its caller is the object it found, before a replacement.
\<close>

lemma achieves_ensureSame_found:
  assumes pf: "platform r cr lookup filled" and wanted: "wanted r cr ob"
    and acc: "\<And>os. acceptable r cr (filled (set_owners os ob))"
    and cmp: "\<And>os. compare ob (filled (set_owners os ob))"
    and goal: "\<And>out. acceptable r cr out \<Longrightarrow> obj_key out = obj_key ob \<Longrightarrow> compare ob out \<Longrightarrow> fst (goal out)"
    and K: "obj_key ob \<in> K"
  shows "achieves r cr lookup filled K P (ensureSame r cr (Some ob) compare check)
    (\<lambda>x v. settled v ob compare goal \<and> pred_option (acceptable r cr) x)"
proof -
  let ?Q = "\<lambda>x v. settled v ob compare goal \<and> pred_option (acceptable r cr) x"
  obtain os where os: "set_controller_reference r cr ob = Inr (set_owners os ob)"
    using platformD(6) [OF pf] unfolding owns_def set_controller_reference_def by (metis sum.case(2))
  let ?ob = "set_owners os ob"
  have key: "(obj_kind ?ob, obj_namespace ?ob, obj_name ?ob) = obj_key ob" "obj_key (filled ?ob) = obj_key ob"
    using set_owners_key [of os ob] platformD(3) [OF pf] by (simp_all add: obj_key_def fills_def)
  have create: "achieves r cr lookup filled K P' (createObj r cr ?ob out) ?Q"
    if "pred_option (acceptable r cr) out" and "\<And>v. P' v \<Longrightarrow> prompt r lookup \<Longrightarrow> v (obj_key ob) = None" for out P'
  proof (rule achieves_weaken [OF achieves_createObj [where os = os, OF pf wanted acc K] subset_refl])
    show "v (obj_key ob) = None" if "P' v" and "prompt r lookup" for v
      by (rule \<open>\<And>v. P' v \<Longrightarrow> prompt r lookup \<Longrightarrow> v (obj_key ob) = None\<close> [OF that])
  qed (use \<open>pred_option (acceptable r cr) out\<close> cmp goal [OF acc _ cmp] key(2) in \<open>auto simp: settled_def\<close>)
  show ?thesis
    unfolding ensureSame_def option.case os sum.case
  proof (rule achieves_get_obj [OF platformD(1) [OF pf]], unfold key sum.case)
    fix out
    show "achieves r cr lookup filled K (\<lambda>v. P v \<and> v (obj_key ob) = Some out)
        (if compare ?ob out then
           case check out of (healthy, status, reason) \<Rightarrow>
             if \<not> healthy then do { setStatus r status (kind_and_name ?ob @ '' '' @ reason); ok (Some out) }
             else ok (Some out)
         else do {
           err \<leftarrow> delete r out;
           case err of None \<Rightarrow> createObj r cr ?ob (Some out)
           | Some e \<Rightarrow> do { updateStatus r cr ''Error'' (''Cannot delete '' @ kind_and_name ?ob); fail e } })
        ?Q"
    proof (rule achieves_found [OF pf K])
      show "achieves r cr lookup filled K (\<lambda>v. prompt r lookup \<longrightarrow> v (obj_key ob) = None) (createObj r cr ?ob (Some out)) ?Q"
        if "acceptable r cr out"
        by (rule create) (use that in simp_all)
    qed (use goal in \<open>auto simp: settled_def dest: cluster_okD\<close>)
  next
    show "achieves r cr lookup filled K (\<lambda>v. P v \<and> v (obj_key ob) = None)
       (if is_not_found NotFound then createObj r cr ?ob None
        else do { updateStatus r cr ''Error'' (''Cannot find '' @ kind_and_name ?ob); fail NotFound })
       ?Q"
      by (simp add: is_not_found_def) (rule create, simp_all)
  qed
qed

lemma achieves_ensureSame:
  assumes "platform r cr lookup filled" and "wanted r cr ob" and "\<And>os. acceptable r cr (filled (set_owners os ob))"
    and "\<And>os. compare ob (filled (set_owners os ob))"
    and "\<And>out. acceptable r cr out \<Longrightarrow> obj_key out = obj_key ob \<Longrightarrow> compare ob out \<Longrightarrow> fst (goal out)"
    and "obj_key ob \<in> K"
  shows "achieves r cr lookup filled K P (ensureSame r cr (Some ob) compare check) (\<lambda>_ v. settled v ob compare goal)"
  by (rule achieves_weaken [OF achieves_ensureSame_found [where goal = goal, OF assms]]) simp_all

end

text \<open>An object of a disabled component is gone, or will be.\<close>

lemma achieves_ensureDeleted:
  assumes pf: "platform r cr lookup filled" and K: "obj_key ob \<in> K" and D: "obj_key ob \<in> set (disabledKeys r cr)"
  shows "achieves r cr lookup filled K P (ensureDeleted r cr (Some ob)) (\<lambda>_ v. swept r cr v (obj_key ob) = None)"
proof -
  have key: "(obj_kind ob, obj_namespace ob, obj_name ob) = obj_key ob"
    by (simp add: obj_key_def)
  show ?thesis
    unfolding ensureDeleted_def option.case
  proof (rule achieves_get_obj [OF platformD(1) [OF pf]], unfold key sum.case)
    fix out
    show "achieves r cr lookup filled K (\<lambda>v. P v \<and> v (obj_key ob) = Some out)
       (do { err \<leftarrow> delete r out;
          case err of None \<Rightarrow> ok ()
          | Some e \<Rightarrow> do { updateStatus r cr ''Error'' (''Cannot delete '' @ kind_and_name ob); fail e } })
       (\<lambda>_ v. swept r cr v (obj_key ob) = None)"
      by (rule achieves_delete [OF pf K], simp, unfold option.case)
        (auto simp: swept_def D intro: achieves_ok aborts_report [OF platformD(1) [OF pf]])
  qed (auto simp: is_not_found_def swept_def intro: achieves_ok)
qed

end
