(* ===== verification/Install.thy ===== *)
theory Install
  imports Converge
begin

text \<open>
  The stages of a pass over an arbitrary cluster without routes, with the rules of \<^verbatim>\<open>Converge\<close>: each
  stage leaves its objects as the next passes want them, and the pass as a whole converges.
\<close>

section \<open>Keys\<close>

lemma object_keys:
  "obj_key (ConfigMapObj (postgresConfigMap cr)) = (KConfigMap, Namespace cr, Name cr @ ''-postgresql-start'')"
  "obj_key (PodObj (postgresPod cr r)) = (KPod, Namespace cr, Name cr @ ''-db'')"
  "obj_key (ServiceObj (postgresService cr)) = (KService, Namespace cr, Name cr @ ''-db'')"
  "obj_key (ServiceObj (keycloakService cr r)) = (KService, Namespace cr, Name cr @ ''-keycloak'')"
  "obj_key (ServiceObj (appService cr r)) = (KService, Namespace cr, Name cr)"
  "obj_key (PodObj (appPod cr ku au)) = (KPod, Namespace cr, Name cr @ ''-app'')"
  "obj_key (ConfigMapObj (uploadConfig cr)) = (KConfigMap, Namespace cr, Name cr @ ''-hyperfoil-upload'')"
  "keycloakPod cr url = Some p \<Longrightarrow> obj_key (PodObj p) = (KPod, Namespace cr, Name cr @ ''-keycloak'')"
  by (auto simp: obj_key_def obj_name_def obj_namespace_def builder_defs keycloakPod_def
      zero_pod_def zero_secret_def Let_def split: option.splits)

text \<open>No two secrets of a resource have the same name.\<close>

definition names_apart :: "Horreum \<Rightarrow> bool" where
  "names_apart cr \<longleftrightarrow> distinct (map fst (operatorSecrets cr) @ certSecrets cr)"

text \<open>
  What convergence asks of the resource: node ports on a host with a plain name, a valid external
  Keycloak if there is one, and no two secrets of the same name.
\<close>

definition installable :: "'w HorreumReconciler \<Rightarrow> Horreum \<Rightarrow> bool" where
  "installable r cr \<longleftrightarrow> \<not> RoutesAvailable r \<and> dns_name (Spec_NodeHost (Spec cr)) \<and> route_type_ok cr
     \<and> serviceType (Spec_ServiceType (Spec cr)) r = ServiceTypeNodePort
     \<and> (if publicUri cr = [] then serviceType (Kc_ServiceType (Keycloak cr)) r = ServiceTypeNodePort
        else parse_request_uri (publicUri cr) \<noteq> None)
     \<and> names_apart cr"

lemma installable_names: "installable r cr \<Longrightarrow> names_apart cr"
  by (simp add: installable_def)

section \<open>Objects as the server stores them\<close>

lemma fills_pod:
  assumes "platform r cr lookup filled" and "ps_rest (p_spec p) = []"
  shows "acceptable r cr (filled (set_owners os (PodObj p)))"
    and "comparePods r (PodObj p) (filled (set_owners os (PodObj p)))"
proof -
  obtain p' where "filled (set_owners os (PodObj p)) = PodObj p'" "lib_deep_derivative (Lib r) (p_spec p) (p_spec p')"
    using platformD(3) [OF assms(1)] assms(2) unfolding fills_def
    by (metis pod.select_convs(2) pod.surjective pod.update_convs(1) set_owners.simps(1))
  then show "acceptable r cr (filled (set_owners os (PodObj p)))"
    and "comparePods r (PodObj p) (filled (set_owners os (PodObj p)))"
    by (simp_all add: comparePods_def)
qed

lemma fills_service:
  assumes "platform r cr lookup filled" and "list_all (\<lambda>p. sp_node p = 0) (svc_ports s)"
  shows "acceptable r cr (filled (set_owners os (ServiceObj s)))"
    and "compareService (ServiceObj s) (filled (set_owners os (ServiceObj s)))"
proof -
  let ?s = "s\<lparr>svc_meta := (svc_meta s)\<lparr>om_owners := os\<rparr>\<rparr>"
  obtain s' where "filled (ServiceObj ?s) = ServiceObj s'" "svc_type s' = svc_type ?s"
      "map sp_port (svc_ports s') = map sp_port (svc_ports ?s)"
      "svc_type ?s = ServiceTypeNodePort \<and> list_all (\<lambda>p. sp_node p = 0) (svc_ports ?s) \<longrightarrow>
         list_all (\<lambda>p. 0 < sint (sp_node p)) (svc_ports s')"
    using platformD(3) [OF assms(1)] unfolding fills_def by blast
  then show "acceptable r cr (filled (set_owners os (ServiceObj s)))"
    and "compareService (ServiceObj s) (filled (set_owners os (ServiceObj s)))"
    using assms(2) by (auto simp: compareService_def samePorts_iff dest: map_eq_imp_length_eq)
qed

lemma fills_config_map:
  assumes "platform r cr lookup filled"
  shows "acceptable r cr (filled (set_owners os (ConfigMapObj c)))"
    and "compareConfigMap (ConfigMapObj c) (filled (set_owners os (ConfigMapObj c)))"
    and "\<exists>c'. filled (ConfigMapObj c) = ConfigMapObj c'"
proof -
  let ?c = "c\<lparr>cm_meta := (cm_meta c)\<lparr>om_owners := os\<rparr>\<rparr>"
  have maps: "\<exists>c'. filled (ConfigMapObj c) = ConfigMapObj c' \<and> cm_data c' = cm_data c" for c
    using platformD(3) [OF assms(1)] unfolding fills_def by blast
  obtain c' where "filled (ConfigMapObj ?c) = ConfigMapObj c'" "cm_data c' = cm_data ?c"
    using maps by blast
  then show "acceptable r cr (filled (set_owners os (ConfigMapObj c)))"
    and "compareConfigMap (ConfigMapObj c) (filled (set_owners os (ConfigMapObj c)))"
    by (simp_all add: compareConfigMap_def fmpred_iff)
  show "\<exists>c'. filled (ConfigMapObj c) = ConfigMapObj c'"
    using maps by blast
qed

lemma fills_secret:
  assumes "platform r cr lookup filled"
  obtains sec' where "filled (SecretObj sec) = SecretObj sec'"
    and "sec_data sec' = sec_data sec ++\<^sub>f sec_string_data sec"
    and "om_name (sec_meta sec') = om_name (sec_meta sec)"
    and "om_namespace (sec_meta sec') = om_namespace (sec_meta sec)"
proof -
  obtain sec' where sec': "filled (SecretObj sec) = SecretObj sec'"
      "sec_data sec' = sec_data sec ++\<^sub>f sec_string_data sec"
    using platformD(3) [OF assms(1)] unfolding fills_def by blast
  have "obj_key (filled (SecretObj sec)) = obj_key (SecretObj sec)"
    using platformD(3) [OF assms(1)] by (simp add: fills_def)
  then show thesis
    using that [of sec'] sec' by (simp add: obj_key_def obj_name_def obj_namespace_def)
qed

section \<open>Credentials\<close>

abbreviation secret_keys :: "Horreum \<Rightarrow> key set" where
  "secret_keys cr \<equiv> (\<lambda>(n, _). (KSecret, Namespace cr, n)) ` set (operatorSecrets cr)"

text \<open>Secrets with distinct names have one list of keys each.\<close>

lemma operatorSecrets_unique:
  assumes "names_apart cr" and "(n, keys) \<in> set (operatorSecrets cr)" and "(n, keys') \<in> set (operatorSecrets cr)"
  shows "keys' = keys"
  using assms by (auto simp: names_apart_def dest: eq_key_imp_eq_value)

lemma operatorSecrets_certSecrets:
  "names_apart cr \<Longrightarrow> (n, keys) \<in> set (operatorSecrets cr) \<Longrightarrow> n \<notin> set (certSecrets cr)"
  by (force simp: names_apart_def)

lemma wp_newSecret_fresh:
  assumes "api_reads r lookup"
  shows "wp (newSecret r cr n) (\<lambda>sec t. fresh_secret cr n basicKeys sec \<and> idle lookup s t) s"
  by (rule wp_mono [OF wp_conj [OF wp_newSecret idle_newSecret [OF assms]]])
    (auto simp: fresh_secret_def basicKeys_def)

lemma achieves_ensureSecret:
  assumes pf: "platform r cr lookup filled" and apart: "names_apart cr"
    and mem: "(n, keys) \<in> set (operatorSecrets cr)" and fresh: "fresh_secret cr n keys sec"
  shows "achieves r cr lookup filled {(KSecret, Namespace cr, n)} P (ensureSecret r cr sec keys)
    (\<lambda>_ v. has_secret v (Namespace cr) (n, keys))"
proof -
  have key: "obj_key (SecretObj sec) = (KSecret, Namespace cr, n)"
    using fresh by (simp add: fresh_secret_def)
  have "acceptable r cr (filled (set_owners os (SecretObj sec)))" for os
  proof -
    obtain sec' where sec': "filled (set_owners os (SecretObj sec)) = SecretObj sec'"
        "sec_data sec' = sec_string_data sec" "om_name (sec_meta sec') = n"
      using fills_secret [OF pf, of "sec\<lparr>sec_meta := (sec_meta sec)\<lparr>om_owners := os\<rparr>\<rparr>"] fresh
      by (auto simp: fresh_secret_def obj_key_def obj_name_def)
    have "firstMissing (sec_data sec') keys' = None" if "(n, keys') \<in> set (operatorSecrets cr)" for keys'
      using operatorSecrets_unique [OF apart mem that] fresh sec'(2) by (simp add: fresh_secret_def)
    then show ?thesis
      using operatorSecrets_certSecrets [OF apart mem] sec'
      by (auto simp: list_all_iff certSecrets_def)
  qed
  moreover have "fst (checkSecret keys out)"
    if "acceptable r cr out" and "obj_key out = obj_key (SecretObj sec)" for out
    using that mem key
    by (cases out) (auto simp: checkSecret_def obj_key_def obj_name_def obj_namespace_def list_all_iff)
  ultimately have "achieves r cr lookup filled {(KSecret, Namespace cr, n)} P
      (ensureSame r cr (Some (SecretObj sec)) nocompare (checkSecret keys))
      (\<lambda>_ v. settled v (SecretObj sec) nocompare (checkSecret keys))"
    by (intro secrets.achieves_ensureSame [OF pf wanted.credentials [OF mem fresh]]) (simp_all add: nocompare_def key)
  then have "achieves r cr lookup filled {(KSecret, Namespace cr, n)} P
      (ensureSame r cr (Some (SecretObj sec)) nocompare (checkSecret keys))
      (\<lambda>_ v. has_secret v (Namespace cr) (n, keys))"
    by (rule achieves_weaken) (auto simp: settled_def key has_secret_def split: option.splits)
  then show ?thesis
    unfolding ensureSecret_def by (rule achieves_then) (rule achieves_ok)
qed

lemma has_secret_kept:
  "kept_outside K v v' \<Longrightarrow> (KSecret, ns, fst ref) \<notin> K \<Longrightarrow> has_secret v' ns ref = has_secret v ns ref"
  by (simp add: has_secret_def kept_outside_def)

text \<open>One secret after the other: those already in place stay.\<close>

lemma achieves_next_secret:
  assumes pf: "platform r cr lookup filled" and apart: "names_apart cr"
    and ops: "operatorSecrets cr = done @ (n, keys) # rest" and fresh: "fresh_secret cr n keys sec"
  shows "achieves r cr lookup filled (secret_keys cr) (\<lambda>v. list_all (has_secret v (Namespace cr)) done)
    (ensureSecret r cr sec keys) (\<lambda>_ v. list_all (has_secret v (Namespace cr)) (done @ [(n, keys)]))"
proof -
  have mem: "(n, keys) \<in> set (operatorSecrets cr)" and new: "n \<notin> fst ` set done"
    using apart by (auto simp: ops names_apart_def)
  have frame: "list_all (has_secret v' (Namespace cr)) done"
    if "list_all (has_secret v (Namespace cr)) done" and "kept_outside {(KSecret, Namespace cr, n)} v v'" for v v'
    unfolding list_all_iff
  proof
    fix ref assume ref: "ref \<in> set done"
    then have "fst ref \<noteq> n" using new by auto
    then show "has_secret v' (Namespace cr) ref"
      using that(1) ref has_secret_kept [OF that(2)] by (simp add: list_all_iff)
  qed
  have "achieves r cr lookup filled {(KSecret, Namespace cr, n)}
      (\<lambda>v. True \<and> list_all (has_secret v (Namespace cr)) done) (ensureSecret r cr sec keys)
      (\<lambda>_ v. has_secret v (Namespace cr) (n, keys) \<and> list_all (has_secret v (Namespace cr)) done)"
    by (rule achieves_frame [OF achieves_ensureSecret [OF pf apart mem fresh] frame])
  then show ?thesis
    by (rule achieves_weaken) (use mem in \<open>auto intro: rev_image_eqI\<close>)
qed

lemma achieves_reconcileSecrets:
  assumes pf: "platform r cr lookup filled" and apart: "names_apart cr"
  shows "achieves r cr lookup filled (secret_keys cr) (\<lambda>_. True) (reconcileSecrets r cr)
    (\<lambda>_ v. list_all (has_secret v (Namespace cr)) (operatorSecrets cr))"
proof -
  note new = achieves_idle_bind [OF wp_newSecret_fresh [OF platformD(1) [OF pf]]]
  have pw: "wp (generatePassword r) (\<lambda>_ t. True \<and> idle lookup s t) s" for s
    by (rule wp_mono [OF idle_generatePassword [OF platformD(1) [OF pf]]]) simp
  have app: "fresh_secret cr n (basicKeys @ [''dbsecret''])
      (sec\<lparr>sec_string_data := fmupd ''dbsecret'' p (sec_string_data sec)\<rparr>)"
    if "fresh_secret cr n basicKeys sec" for n p sec
    using that by (auto simp: fresh_secret_def string_data_key basicKeys_def split: if_splits)
  let ?has = "\<lambda>n v. list_all (has_secret v (Namespace cr)) (take n (operatorSecrets cr))"
  have step: "achieves r cr lookup filled (secret_keys cr) (?has n) (ensureSecret r cr sec keys) (\<lambda>_. ?has (Suc n))"
    if "n < length (operatorSecrets cr)" and "operatorSecrets cr ! n = (name, keys)"
      and "fresh_secret cr name keys sec" for n name keys sec
    using achieves_next_secret [OF pf apart _ that(3), of "take n (operatorSecrets cr)"
        "drop (Suc n) (operatorSecrets cr)"] that(1,2)
    by (metis id_take_nth_drop take_Suc_conv_app_nth)
  note s0 = step [where n = 0 and name = "dbAdminSecret cr" and keys = basicKeys]
    and s1 = step [where n = "Suc 0" and name = "appUserSecret cr" and keys = "basicKeys @ [''dbsecret'']"]
    and s2 = step [where n = "Suc (Suc 0)" and name = "keycloakAdminSecret cr" and keys = basicKeys]
    and s3 = step [where n = "Suc (Suc (Suc 0))" and name = "keycloakDbSecret cr" and keys = basicKeys]
    and s4 = step [where n = "Suc (Suc (Suc (Suc 0)))" and name = "horreumAdminSecret cr" and keys = basicKeys]
  have "achieves r cr lookup filled (secret_keys cr) (?has 0) (reconcileSecrets r cr) (\<lambda>_. ?has (Suc (Suc (Suc (Suc (Suc 0))))))"
    unfolding reconcileSecrets_def Let_def
    by (intro new achieves_idle_bind [OF pw] achieves_then [OF s0] achieves_then [OF s1]
        achieves_then [OF s2] achieves_then [OF s3] s4)
      (simp_all add: operatorSecrets_def app)
  then show ?thesis by (simp add: operatorSecrets_def)
qed

section \<open>Certificates\<close>

lemma achieves_now:
  fixes lookup :: "'w \<Rightarrow> view"
  assumes "platform r cr lookup filled" and "\<And>t. achieves r cr lookup filled K P (k t) Q"
  shows "achieves r cr lookup filled K P (State_Monad.bind (now r) k) Q"
proof (rule achieves_idle_bind [where J = "\<lambda>_. True"])
  fix s :: "'w st"
  show "wp (now r) (\<lambda>a t. True \<and> idle lookup s t) s"
    using api_now [OF platformD(1) [OF assms(1)], of "st_world s"]
    by (cases "lib_now (Lib r) (st_world s)") (simp add: wp_now idle_world)
qed (use assms(2) in simp)

lemma achieves_fallible:
  fixes lookup :: "'w \<Rightarrow> view"
  assumes "\<And>w. \<exists>x w'. f w = (Inr x, w') \<and> J x \<and> lookup w' = lookup w"
    and "\<And>x. J x \<Longrightarrow> achieves r cr lookup filled K P (k x) Q"
  shows "achieves r cr lookup filled K P (and_then (fallible f) k) Q"
  unfolding and_then_def
proof (rule achieves_idle_bind [where J = "\<lambda>y. \<exists>x. y = Ok x \<and> J x"])
  fix s :: "'w st"
  obtain x w' where "f (st_world s) = (Inr x, w')" "J x" "lookup w' = lookup (st_world s)"
    using assms(1) by blast
  then show "wp (fallible f) (\<lambda>y t. (\<exists>x. y = Ok x \<and> J x) \<and> idle lookup s t) s"
    by (simp add: wp_fallible idle_world)
qed (use assms(2) in auto)

lemma achieves_rsa:
  assumes "platform r cr lookup filled" and "\<And>key. achieves r cr lookup filled K P (k key) Q"
  shows "achieves r cr lookup filled K P (and_then (fallible (rsa_generate (Crypto r))) k) Q"
  by (rule achieves_fallible [where J = "\<lambda>_. True"])
    (use platformD(4) [OF assms(1)] assms(2) in \<open>auto simp: signs_def\<close>)

text \<open>A signed certificate parses.\<close>

lemma achieves_x509:
  assumes "platform r cr lookup filled"
    and "\<And>bytes c. x509_parse (Crypto r) bytes = Inr c \<Longrightarrow> achieves r cr lookup filled K P (k bytes) Q"
  shows "achieves r cr lookup filled K P (and_then (fallible (x509_create (Crypto r) t p pub key)) k) Q"
proof (rule achieves_fallible [where J = "\<lambda>bytes. \<exists>c. x509_parse (Crypto r) bytes = Inr c"])
  fix w
  obtain bytes w' where "x509_create (Crypto r) t p pub key w = (Inr bytes, w')" "lookup w' = lookup w"
    using platformD(4) [OF assms(1)] unfolding signs_def by blast
  then show "\<exists>x w'. x509_create (Crypto r) t p pub key w = (Inr x, w')
      \<and> (\<exists>c. x509_parse (Crypto r) x = Inr c) \<and> lookup w' = lookup w"
    using platformD(5) [OF assms(1)] unfolding codec_laws_def by blast
qed (use assms(2) in blast)

lemma achieves_owned:
  assumes "platform r cr lookup filled" and "\<And>os. achieves r cr lookup filled K P (k (set_owners os ob)) Q"
  shows "achieves r cr lookup filled K P (and_then (liftE (set_controller_reference r cr ob)) k) Q"
proof -
  obtain os where "set_controller_reference r cr ob = Inr (set_owners os ob)"
    using platformD(6) [OF assms(1)] unfolding owns_def set_controller_reference_def by (metis sum.case(2))
  then show ?thesis using assms(2) by simp
qed

definition ca_in_place :: "'w HorreumReconciler \<Rightarrow> Horreum \<Rightarrow> view \<Rightarrow> bool" where
  "ca_in_place r cr v \<longleftrightarrow>
     (\<exists>sec. v (KSecret, Namespace cr, Name cr @ ''-ca-certs'') = Some (SecretObj sec) \<and> \<not> isl (loadCA r sec))"

definition ca_published :: "Horreum \<Rightarrow> view \<Rightarrow> bool" where
  "ca_published cr v \<longleftrightarrow> (\<exists>cm. v (KConfigMap, Namespace cr, ''service-ca.crt'') = Some (ConfigMapObj cm))"

definition cert_in_place :: "Horreum \<Rightarrow> string \<Rightarrow> view \<Rightarrow> bool" where
  "cert_in_place cr n v \<longleftrightarrow> (\<exists>sec. v (KSecret, Namespace cr, n) = Some (SecretObj sec))"

lemma certs_readyI:
  "ca_in_place r cr v \<Longrightarrow> ca_published cr v \<Longrightarrow> cert_in_place cr (Name cr @ ''-app-certs'') v \<Longrightarrow>
   cert_in_place cr (Name cr @ ''-keycloak-certs'') v \<Longrightarrow> certs_ready r cr v"
  by (auto simp: certs_ready_def ca_in_place_def ca_published_def cert_in_place_def split: sum.split)

text \<open>A stored TLS secret is acceptable; if it holds the authority, that can be loaded.\<close>

lemma fills_tlsSecret:
  assumes pf: "platform r cr lookup filled" and inst: "installable r cr" and n: "n \<in> set (certSecrets cr)"
    and parse: "x509_parse (Crypto r) bytes = Inr c"
  obtains sec x where "filled (set_owners os (SecretObj (tlsSecret r cr n bytes key))) = SecretObj sec"
    and "loadCA r sec = Inr x" and "acceptable r cr (SecretObj sec)"
proof -
  let ?tls = "tlsSecret r cr n bytes key"
  obtain sec where sec: "filled (set_owners os (SecretObj ?tls)) = SecretObj sec"
      "sec_data sec = sec_data ?tls" "om_name (sec_meta sec) = n"
    using fills_secret [OF pf, of "?tls\<lparr>sec_meta := (sec_meta ?tls)\<lparr>om_owners := os\<rparr>\<rparr>"]
    by (auto simp: tlsSecret_def zero_secret_def)
  have "loadCA r sec = Inr (c, key, pem_encode (Crypto r) ''CERTIFICATE'' bytes)"
    using platformD(5) [OF pf] parse
    by (simp add: loadCA_def sec(2) tlsSecret_def data_at_def codec_laws_def)
  moreover have "acceptable r cr (SecretObj sec)"
    using calculation operatorSecrets_certSecrets [OF installable_names [OF inst]] n sec(3) by (auto simp: list_all_iff)
  ultimately show thesis using that sec(1) by blast
qed

lemma achieves_newCA:
  assumes pf: "platform r cr lookup filled" and inst: "installable r cr"
    and K: "(KSecret, Namespace cr, Name cr @ ''-ca-certs'') \<in> K"
    and P: "\<And>v. P v \<Longrightarrow> v (KSecret, Namespace cr, Name cr @ ''-ca-certs'') = None"
  shows "achieves r cr lookup filled K P (newCA cr r) (\<lambda>_. ca_in_place r cr)"
proof -
  let ?n = "Name cr @ ''-ca-certs''"
  have n: "?n \<in> set (certSecrets cr)" by (simp add: certSecrets_def)
  have routes: "\<not> RoutesAvailable r" using inst by (simp add: installable_def)
  have create: "achieves r cr lookup filled K P
      (do { err \<leftarrow> create r (set_owners os (SecretObj (tlsSecret r cr ?n bytes key)));
         case err of Some e \<Rightarrow> do { updateStatus r cr ''Error'' msg; fail e } | None \<Rightarrow> ok a })
      (\<lambda>_. ca_in_place r cr)"
    if parse: "x509_parse (Crypto r) bytes = Inr c" for os bytes key c a msg
  proof -
    obtain sec x where sec: "filled (set_owners os (SecretObj (tlsSecret r cr ?n bytes key))) = SecretObj sec"
        "loadCA r sec = Inr x" "acceptable r cr (SecretObj sec)"
      using fills_tlsSecret [OF pf inst n parse] by blast
    show ?thesis
      by (rule achieves_create [OF pf wanted.certificate [OF routes n]], use sec in simp, use K in \<open>simp add: tlsSecret_key\<close>)
        (use P sec in \<open>auto simp: tlsSecret_key ca_in_place_def simp del: set_owners.simps
          intro!: achieves_ok aborts_report [OF platformD(1) [OF pf]]\<close>)
  qed
  show ?thesis
    unfolding newCA_def Let_def
    by (intro achieves_rsa [OF pf] achieves_now [OF pf] achieves_x509 [OF pf] achieves_owned [OF pf] create)
qed

lemma achieves_publishCA:
  assumes pf: "platform r cr lookup filled" and routes: "\<not> RoutesAvailable r"
  shows "achieves r cr lookup filled {(KConfigMap, Namespace cr, ''service-ca.crt'')} P (publishCA cr r pem)
    (\<lambda>_. ca_published cr)"
  unfolding publishCA_def
proof (rule achieves_get_config_map [OF platformD(1) [OF pf]], unfold sum.case)
  let ?key = "(KConfigMap, Namespace cr, ''service-ca.crt'')"
  have "achieves r cr lookup filled {?key} (\<lambda>v. P v \<and> v ?key = None)
      (do { err \<leftarrow> create r (set_owners os (ConfigMapObj (serviceCaConfigMap cr pem)));
         case err of Some e \<Rightarrow> fail e | None \<Rightarrow> ok () }) (\<lambda>_. ca_published cr)" for os
  proof -
    obtain c' where "filled (set_owners os (ConfigMapObj (serviceCaConfigMap cr pem))) = ConfigMapObj c'"
      using fills_config_map(3) [OF pf] by (metis set_owners.simps(4))
    then show ?thesis
      by (intro achieves_create [OF pf wanted.authority [OF routes] fills_config_map(1) [OF pf]])
        (auto simp: serviceCa_key ca_published_def simp del: set_owners.simps intro!: achieves_ok aborts_fail)
  qed
  then show "achieves r cr lookup filled {?key} (\<lambda>v. P v \<and> v ?key = None)
     (if is_not_found NotFound then and_then (liftE (set_controller_reference r cr
         (ConfigMapObj (serviceCaConfigMap cr pem)))) (\<lambda>ob. do {
        err \<leftarrow> create r ob;
        case err of Some e \<Rightarrow> fail e | None \<Rightarrow> ok () })
      else fail NotFound) (\<lambda>_. ca_published cr)"
    by (simp add: is_not_found_def achieves_owned [OF pf])
qed (auto simp: ca_published_def intro: achieves_ok)

lemma achieves_createServiceCert:
  assumes pf: "platform r cr lookup filled" and inst: "installable r cr" and n: "n \<in> set (certSecrets cr)"
  shows "achieves r cr lookup filled {(KSecret, Namespace cr, n)} P
    (createServiceCert cr r (Some ca) (Some cakey) n svc serial) (\<lambda>_. cert_in_place cr n)"
  unfolding createServiceCert_def prod.case option.case
proof (rule achieves_get_secret [OF platformD(1) [OF pf]], unfold sum.case)
  let ?key = "(KSecret, Namespace cr, n)"
  have routes: "\<not> RoutesAvailable r" using inst by (simp add: installable_def)
  have "achieves r cr lookup filled {?key} (\<lambda>v. P v \<and> v ?key = None)
      (do { err \<leftarrow> create r (set_owners os (SecretObj (tlsSecret r cr n bytes key)));
         case err of Some e \<Rightarrow> fail e | None \<Rightarrow> ok () }) (\<lambda>_. cert_in_place cr n)"
    if parse: "x509_parse (Crypto r) bytes = Inr c" for os bytes key c
  proof -
    obtain sec x where sec: "filled (set_owners os (SecretObj (tlsSecret r cr n bytes key))) = SecretObj sec"
        "acceptable r cr (SecretObj sec)"
      using fills_tlsSecret [OF pf inst n parse] by blast
    show ?thesis
      by (rule achieves_create [OF pf wanted.certificate [OF routes n]], use sec in simp)
        (use sec in \<open>auto simp: tlsSecret_key cert_in_place_def simp del: set_owners.simps intro!: achieves_ok aborts_fail\<close>)
  qed
  then show "achieves r cr lookup filled {?key} (\<lambda>v. P v \<and> v ?key = None)
     (if is_not_found NotFound then do {
        notBefore \<leftarrow> now r;
        t \<leftarrow> now r;
        let cert = serviceTemplate cr svc serial notBefore (add_years 10 t);
        and_then (fallible (rsa_generate (Crypto r))) (\<lambda>certPrivKey.
        and_then (fallible (x509_create (Crypto r) cert ca (rsa_public certPrivKey) cakey)) (\<lambda>certBytes.
        and_then (liftE (set_controller_reference r cr (SecretObj (tlsSecret r cr n certBytes certPrivKey))))
          (\<lambda>ob. do {
            err \<leftarrow> create r ob;
            case err of Some e \<Rightarrow> fail e | None \<Rightarrow> ok () }))) }
      else fail NotFound) (\<lambda>_. cert_in_place cr n)"
    unfolding is_not_found_def if_P [OF refl] Let_def
    by (intro achieves_rsa [OF pf] achieves_now [OF pf] achieves_x509 [OF pf] achieves_owned [OF pf])
qed (auto simp: cert_in_place_def intro: achieves_ok)

lemma achieves_createCA:
  assumes pf: "platform r cr lookup filled" and inst: "installable r cr"
  shows "achieves r cr lookup filled (set (certKeys r cr)) P (createCA cr r)
    (\<lambda>_ v. ca_published cr v \<and> ca_in_place r cr v)"
proof -
  let ?key = "(KSecret, Namespace cr, Name cr @ ''-ca-certs'')" and ?K = "set (certKeys r cr)"
  have routes: "\<not> RoutesAvailable r" using inst by (simp add: installable_def)
  have K: "?key \<in> ?K" "(KConfigMap, Namespace cr, ''service-ca.crt'') \<in> ?K"
    using inst by (simp_all add: certKeys_def installable_def)
  have publish: "achieves r cr lookup filled ?K (ca_in_place r cr) (publishCA cr r pem)
      (\<lambda>_ v. ca_published cr v \<and> ca_in_place r cr v)" for pem
    by (rule achieves_stage [OF achieves_publishCA [OF pf routes]])
      (use K in \<open>simp_all add: ca_in_place_def kept_outsideD\<close>)
  have rest: "achieves r cr lookup filled ?K P' (and_then m (\<lambda>(ca, key, pem). and_then (publishCA cr r pem) (\<lambda>_. ok (ca, key))))
      (\<lambda>_ v. ca_published cr v \<and> ca_in_place r cr v)"
    if "achieves r cr lookup filled ?K P' m (\<lambda>_. ca_in_place r cr)" for P' m
    by (rule achieves_then [OF that])
      (auto intro: achieves_then [OF publish] achieves_ok split: prod.split)
  show ?thesis
    unfolding createCA_def
  proof (rule achieves_get_secret [OF platformD(1) [OF pf]], unfold sum.case, rule_tac [!] rest)
    fix sec
    show "achieves r cr lookup filled ?K (\<lambda>v. P v \<and> v ?key = Some (SecretObj sec)) (liftE (loadCA r sec)) (\<lambda>_. ca_in_place r cr)"
    proof (cases "loadCA r sec")
      case (Inl e)
      have "\<not> (cluster_ok r cr v \<and> v ?key = Some (SecretObj sec))" for v
        using Inl cluster_okD [of r cr v ?key "SecretObj sec"]
        by (auto simp: obj_key_def obj_name_def obj_namespace_def)
      then show ?thesis by (auto simp: achieves_def)
    next
      case (Inr x)
      then show ?thesis by (auto simp: liftE_def ca_in_place_def intro!: achieves_ok)
    qed
  next
    show "achieves r cr lookup filled ?K (\<lambda>v. P v \<and> v ?key = None)
        (if is_not_found NotFound then newCA cr r else fail NotFound) (\<lambda>_. ca_in_place r cr)"
      unfolding is_not_found_def if_P [OF refl] by (rule achieves_newCA [OF pf inst K(1)]) simp
  qed
qed

lemma achieves_reconcileCerts:
  assumes pf: "platform r cr lookup filled" and inst: "installable r cr"
  shows "achieves r cr lookup filled (set (certKeys r cr)) P (reconcileCerts r cr) (\<lambda>_. certs_ready r cr)"
proof -
  let ?K = "set (certKeys r cr)" and ?app = "Name cr @ ''-app-certs''" and ?kc = "Name cr @ ''-keycloak-certs''"
  have routes: "\<not> RoutesAvailable r" using inst by (simp add: installable_def)
  have K: "(KSecret, Namespace cr, ?app) \<in> ?K" "(KSecret, Namespace cr, ?kc) \<in> ?K"
    using routes by (simp_all add: certKeys_def)
  let ?R1 = "\<lambda>v. ca_published cr v \<and> ca_in_place r cr v" and ?R2 = "\<lambda>v. cert_in_place cr ?app v"
  have same: "v' (KConfigMap, ns, n') = v (KConfigMap, ns, n')"
      "n' \<noteq> n \<Longrightarrow> v' (KSecret, ns, n') = v (KSecret, ns, n')"
    if "kept_outside {(KSecret, Namespace cr, n)} v v'" for v v' n ns n'
    by (simp_all add: kept_outsideD [OF that])
  have frame: "?R1 v'" if "?R1 v" "kept_outside {(KSecret, Namespace cr, n)} v v'" "n = ?app \<or> n = ?kc" for v v' n
    using that(1,3) same [OF that(2)] by (auto simp: ca_published_def ca_in_place_def)
  have app: "achieves r cr lookup filled ?K ?R1 (createServiceCert cr r (Some ca) (Some key) ?app svc serial)
      (\<lambda>_ v. ?R1 v \<and> ?R2 v)" for ca key svc serial
    by (rule achieves_stage [OF achieves_createServiceCert [OF pf inst]],
        simp add: certSecrets_def, simp add: K, erule (1) frame, simp, simp)
  have frame2: "?R2 v'" if "?R2 v" "kept_outside {(KSecret, Namespace cr, ?kc)} v v'" for v v'
    using that(1) same [OF that(2)] by (simp add: cert_in_place_def)
  have kc: "achieves r cr lookup filled ?K (\<lambda>v. ?R1 v \<and> ?R2 v) (createServiceCert cr r (Some ca) (Some key) ?kc svc serial)
      (\<lambda>_. certs_ready r cr)" for ca key svc serial
    by (rule achieves_stage [OF achieves_createServiceCert [OF pf inst]],
        simp add: certSecrets_def, simp add: K)
      (use frame frame2 in blast, simp add: certs_readyI)
  show ?thesis
    unfolding reconcileCerts_def if_P [OF routes]
    by (rule achieves_then [OF achieves_createCA [OF pf inst]])
      (auto intro: achieves_then [OF app kc] split: prod.split)
qed

section \<open>Workloads\<close>

lemma fresh_pods:
  "p_statuses (postgresPod cr r) = []" "ps_rest (p_spec (postgresPod cr r)) = []"
  "p_statuses (appPod cr ku au) = []" "ps_rest (p_spec (appPod cr ku au)) = []"
  "keycloakPod cr ku = Some p \<Longrightarrow> p_statuses p = []" "keycloakPod cr ku = Some p \<Longrightarrow> ps_rest (p_spec p) = []"
  by (auto simp: postgresPod_def appPod_def keycloakPod_def zero_pod_def zero_pod_spec_def Let_def
      split: option.splits)

lemma fresh_services:
  "list_all (\<lambda>p. sp_node p = 0) (svc_ports (postgresService cr))"
  "list_all (\<lambda>p. sp_node p = 0) (svc_ports (keycloakService cr r))"
  "list_all (\<lambda>p. sp_node p = 0) (svc_ports (appService cr r))"
  by (simp_all add: postgresService_def keycloakService_def appService_def servicePort_def)

lemma settled_kept:
  "kept_outside K v v' \<Longrightarrow> obj_key ob \<notin> K \<Longrightarrow> settled v' ob compare chk = settled v ob compare chk"
  by (simp add: settled_def kept_outsideD)

lemma achieves_pod:
  assumes "platform r cr lookup filled" and "wanted r cr (PodObj p)" and "ps_rest (p_spec p) = []"
  shows "achieves r cr lookup filled {obj_key (PodObj p)} P (ensureSame r cr (Some (PodObj p)) (comparePods r) checkPod)
    (\<lambda>_ v. settled v (PodObj p) (comparePods r) nocheck)"
  by (rule pods.achieves_ensureSame [OF assms(1,2) fills_pod [OF assms(1,3)]]) (simp_all add: nocheck_def)

lemma achieves_service:
  assumes "platform r cr lookup filled" and "wanted r cr (ServiceObj s)"
    and "list_all (\<lambda>p. sp_node p = 0) (svc_ports s)"
  shows "achieves r cr lookup filled {obj_key (ServiceObj s)} P (ensureSame r cr (Some (ServiceObj s)) compareService nocheck)
    (\<lambda>_ v. settled v (ServiceObj s) compareService nocheck)"
  by (rule services.achieves_ensureSame [OF assms(1,2) fills_service [OF assms(1,3)]]) (simp_all add: nocheck_def)

lemma achieves_config_map:
  assumes "platform r cr lookup filled" and "wanted r cr (ConfigMapObj c)"
  shows "achieves r cr lookup filled {obj_key (ConfigMapObj c)} P
      (ensureSame r cr (Some (ConfigMapObj c)) compareConfigMap nocheck)
      (\<lambda>_ v. settled v (ConfigMapObj c) compareConfigMap nocheck)"
    and "achieves r cr lookup filled {obj_key (ConfigMapObj c)} P
      (ensureSame r cr (Some (ConfigMapObj c)) nocompare nocheck)
      (\<lambda>_ v. settled v (ConfigMapObj c) nocompare nocheck)"
  by (rule config_maps.achieves_ensureSame [OF assms fills_config_map(1,2) [OF assms(1)]], simp_all add: nocheck_def)
    (rule kept.achieves_ensureSame [OF assms fills_config_map(1) [OF assms(1)]], simp_all add: nocheck_def nocompare_def)

abbreviation postgres_keys :: "Horreum \<Rightarrow> key set" where
  "postgres_keys cr \<equiv> {(KConfigMap, Namespace cr, Name cr @ ''-postgresql-start''),
     (KPod, Namespace cr, Name cr @ ''-db''), (KService, Namespace cr, Name cr @ ''-db'')}"

lemma swept_kept: "kept_outside K v v' \<Longrightarrow> key \<notin> K \<Longrightarrow> swept r cr v' key = swept r cr v key"
  by (simp add: swept_def kept_outsideD)

lemma achieves_reconcilePostgres:
  assumes pf: "platform r cr lookup filled"
  shows "achieves r cr lookup filled (postgres_keys cr) (\<lambda>_. True) (reconcilePostgres r cr)
    (\<lambda>_ v. postgres_ready nocheck r cr (swept r cr v))"
proof -
  let ?cm = "ConfigMapObj (postgresConfigMap cr)" and ?pod = "PodObj (postgresPod cr r)"
    and ?svc = "ServiceObj (postgresService cr)" and ?K = "postgres_keys cr"
  note keys = object_keys(1-3) [of cr] object_keys(2) [of cr r]
  show ?thesis
  proof (cases "Pg_Enabled (Postgres cr) = Some False")
    case True
    let ?Q = "\<lambda>v. swept r cr v (obj_key ?pod) = None"
    note del = achieves_ensureDeleted [OF pf _ disabled_objects(1) [OF True]]
      achieves_ensureDeleted [OF pf singletonI disabled_objects(2) [OF True]]
    have pod: "achieves r cr lookup filled ?K (\<lambda>_. True) (ensureDeleted r cr (Some ?pod)) (\<lambda>_. ?Q)"
      by (rule del(1)) (simp add: keys)
    have svc: "achieves r cr lookup filled ?K ?Q (ensureDeleted r cr (Some ?svc))
        (\<lambda>_ v. postgres_ready nocheck r cr (swept r cr v))"
      by (rule achieves_stage [OF del(2)])
        (use True in \<open>simp_all add: keys postgres_ready_def swept_kept\<close>)
    show ?thesis
      unfolding reconcilePostgres_def Let_def if_P [OF True] by (rule achieves_then [OF pod svc])
  next
    case False
    note wanted = wanted.db_script [OF False] wanted.db_pod [OF False] wanted.db_service [OF False]
    let ?Q1 = "\<lambda>v. settled v ?cm compareConfigMap nocheck"
    let ?Q2 = "\<lambda>v. ?Q1 v \<and> settled v ?pod (comparePods r) nocheck"
    have cm: "achieves r cr lookup filled ?K (\<lambda>_. True) (ensureSame r cr (Some ?cm) compareConfigMap nocheck) (\<lambda>_. ?Q1)"
      by (rule achieves_stage [OF achieves_config_map(1) [OF pf wanted(1)]]) (simp_all add: keys)
    have pod: "achieves r cr lookup filled ?K ?Q1 (ensureSame r cr (Some ?pod) (comparePods r) checkPod) (\<lambda>_. ?Q2)"
      by (rule achieves_stage [OF achieves_pod [OF pf wanted(2) fresh_pods(2)]]) (simp_all add: keys settled_kept)
    have svc: "achieves r cr lookup filled ?K ?Q2 (ensureSame r cr (Some ?svc) compareService nocheck)
        (\<lambda>_ v. postgres_ready nocheck r cr (swept r cr v))"
      by (rule achieves_stage [OF achieves_service [OF pf wanted(3) fresh_services(1)]])
        (use False in \<open>simp_all add: keys settled_kept postgres_ready_def swept_settled enabled_keys\<close>)
    show ?thesis
      unfolding reconcilePostgres_def Let_def if_not_P [OF False]
      by (rule achieves_then [OF cm], rule achieves_then [OF pod], rule achieves_then [OF svc], rule achieves_ok)
  qed
qed

section \<open>Addresses\<close>

text \<open>A service on a node port, as the server stores it, is exposed.\<close>

lemma exposed_settled:
  assumes "cluster_ok r cr v" and "settled v (ServiceObj s) compareService nocheck"
    and "svc_type s = ServiceTypeNodePort" and "svc_ports s \<noteq> []"
  shows "exposed v s" and "0 < sint (node_port_of v s)"
proof -
  obtain s' where s': "v (obj_key (ServiceObj s)) = Some (ServiceObj s')" "compareService (ServiceObj s) (ServiceObj s')"
    using assms(2) by (auto simp: settled_def compareService_def split: option.splits obj.splits)
  then have "svc_type s' = ServiceTypeNodePort" "length (svc_ports s') = length (svc_ports s)"
    using assms(3) by (auto simp: compareService_def split: if_splits)
  moreover obtain p ps where "svc_ports s' = p # ps"
    using calculation(2) assms(4) by (cases "svc_ports s'") auto
  ultimately show port: "0 < sint (node_port_of v s)"
    using cluster_okD [OF assms(1) s'(1)] s'(1) by (simp add: node_port_of_def)
  have "node_port_of v s \<noteq> 0" using port by auto
  then show "exposed v s" using assms(2,3) by (simp add: exposed_def)
qed

text \<open>The address of such a service parses.\<close>

lemma parse_node_url:
  assumes "dns_name (Spec_NodeHost (Spec cr))" and "0 < sint (node_port_of v s)"
  shows "parse_request_uri (node_url v cr s) \<noteq> None"
proof -
  have "node_url v cr s = ''https://'' @ host_port (Spec_NodeHost (Spec cr)) (nat (sint (node_port_of v s)))"
    using assms(2) by (simp add: node_url_def https_url_def host_port_def itoa_def)
  then show ?thesis
    using parse_https_host_port [OF assms(1)] by (simp del: append.simps)
qed

lemma achieves_serviceUrl:
  assumes "platform r cr lookup filled" and "svc_type s = serviceType ty r"
    and "\<And>v. P v \<Longrightarrow> exposed v s"
  shows "achieves r cr lookup filled K P (serviceUrl r cr ty s rt p u) (\<lambda>x v. x = Inr (node_url v cr s) \<and> P v)"
  by (rule achieves_settles) (rule settles_serviceUrl [OF platformD(1) [OF assms(1)] assms(3,2)])

section \<open>Keycloak\<close>

definition keycloak_exposed :: "'w HorreumReconciler \<Rightarrow> Horreum \<Rightarrow> view \<Rightarrow> bool" where
  "keycloak_exposed r cr v \<longleftrightarrow> (publicUri cr = [] \<longrightarrow>
     exposed v (keycloakService cr r) \<and> 0 < sint (node_port_of v (keycloakService cr r)))"

abbreviation keycloak_keys :: "Horreum \<Rightarrow> key set" where
  "keycloak_keys cr \<equiv> {(KPod, Namespace cr, Name cr @ ''-keycloak''), (KService, Namespace cr, Name cr @ ''-keycloak'')}"

lemma achieves_keycloakUrl:
  assumes pf: "platform r cr lookup filled" and inst: "installable r cr"
  shows "achieves r cr lookup filled (keycloak_keys cr) (\<lambda>_. True) (keycloakUrl r cr rt)
    (\<lambda>x v. x = Inr (keycloak_address r cr v) \<and> keycloak_exposed r cr v)"
proof (cases "publicUri cr = []")
  case True
  let ?svc = "keycloakService cr r"
  have ty: "svc_type ?svc = ServiceTypeNodePort" "svc_ports ?svc \<noteq> []"
    using inst True by (simp_all add: installable_def keycloakService_def)
  have svc: "achieves r cr lookup filled (keycloak_keys cr) (\<lambda>_. True)
      (ensureSame r cr (Some (ServiceObj ?svc)) compareService nocheck) (\<lambda>_. keycloak_exposed r cr)"
    by (rule achieves_weaken [OF achieves_service [OF pf wanted.kc_service [OF True] fresh_services(2)]])
      (use exposed_settled [OF _ _ ty, where r = r and cr = cr] in \<open>auto simp: object_keys keycloak_exposed_def\<close>)
  have url: "achieves r cr lookup filled (keycloak_keys cr) (keycloak_exposed r cr)
      (serviceUrl r cr (Kc_ServiceType (Keycloak cr)) ?svc rt p u)
      (\<lambda>x v. x = Inr (node_url v cr ?svc) \<and> keycloak_exposed r cr v)" for p u
    by (rule achieves_serviceUrl [OF pf]) (simp_all add: True keycloak_exposed_def keycloakService_def)
  show ?thesis
    unfolding keycloakUrl_def if_P [OF True] keycloak_address_def
    by (rule achieves_then [OF svc url])
next
  case False
  then show ?thesis
    by (auto simp: keycloakUrl_def keycloak_address_def keycloak_exposed_def intro: achieves_ok)
qed

lemma keycloak_pod_exists:
  assumes "installable r cr" and "keycloak_exposed r cr v"
  shows "\<exists>pod. keycloakPod cr (keycloak_address r cr v) = Some pod"
proof -
  have "parse_request_uri (keycloak_address r cr v) \<noteq> None"
    using assms parse_node_url [of cr v "keycloakService cr r"]
    by (auto simp: installable_def keycloak_address_def keycloak_exposed_def split: if_splits)
  then show ?thesis
    by (auto simp: keycloakPod_def Let_def)
qed

lemma keycloak_address_kept:
  "kept_outside K v v' \<Longrightarrow> publicUri cr = [] \<Longrightarrow> (KService, Namespace cr, Name cr @ ''-keycloak'') \<notin> K \<Longrightarrow>
   keycloak_address r cr v' = keycloak_address r cr v \<and> keycloak_exposed r cr v' = keycloak_exposed r cr v"
  by (simp add: keycloak_address_def keycloak_exposed_def node_url_def node_port_of_def exposed_def
      settled_def object_keys kept_outsideD)

text \<open>What is read from enabled components does not depend on what is swept.\<close>

lemma swept_exposed:
  assumes "obj_key (ServiceObj s) \<notin> set (disabledKeys r cr)"
  shows "exposed (swept r cr v) s = exposed v s" and "node_port_of (swept r cr v) s = node_port_of v s"
    and "node_url (swept r cr v) cr' s = node_url v cr' s"
  using assms by (simp_all add: exposed_def swept_settled node_url_def node_port_of_def swept_same)

lemma swept_address:
  "keycloak_address r cr (swept r cr v) = keycloak_address r cr v"
  "keycloak_exposed r cr (swept r cr v) = keycloak_exposed r cr v"
  by (simp_all add: keycloak_address_def keycloak_exposed_def swept_exposed object_keys enabled_keys)

lemma swept_app: "app_ready chk r cr (swept r cr v) = app_ready chk r cr v"
  by (simp add: app_ready_def swept_address swept_exposed swept_settled object_keys enabled_keys)

lemma achieves_reconcileKeycloakPod:
  assumes pf: "platform r cr lookup filled" and inst: "installable r cr"
  shows "achieves r cr lookup filled (keycloak_keys cr)
    (\<lambda>v. url = keycloak_address r cr v \<and> keycloak_exposed r cr v) (reconcileKeycloakPod r cr rt url)
    (\<lambda>_ v. keycloak_ready nocheck r cr (swept r cr v) \<and> url = keycloak_address r cr v)"
proof (cases "keycloakPod cr url")
  case None
  then show ?thesis
    using keycloak_pod_exists [OF inst] by (fastforce simp: achieves_def)
next
  case (Some pod)
  let ?P = "\<lambda>v. url = keycloak_address r cr v \<and> keycloak_exposed r cr v"
  note key = object_keys(8) [OF Some] object_keys(4) [of cr r]
  show ?thesis
  proof (cases "publicUri cr = []")
    case True
    have kept: "?P v'" if "?P v" "kept_outside {obj_key (PodObj pod)} v v'" for v v'
      using that(1) keycloak_address_kept [OF that(2) True, of r] by (simp add: key)
    have "achieves r cr lookup filled (keycloak_keys cr) ?P (ensureSame r cr (Some (PodObj pod)) (comparePods r) checkPod)
        (\<lambda>_ v. keycloak_ready nocheck r cr (swept r cr v) \<and> url = keycloak_address r cr v)"
      by (rule achieves_stage [OF achieves_pod [OF pf wanted.kc_pod [OF True Some] fresh_pods(6) [OF Some]]],
          simp add: key, erule (1) kept)
        (use True Some in \<open>auto simp: keycloak_ready_def keycloak_exposed_def swept_address swept_exposed swept_settled
          key enabled_keys\<close>)
    then show ?thesis
      unfolding reconcileKeycloakPod_def Let_def Some
      using True by (auto intro: achieves_then achieves_ok)
  next
    case False
    have addr: "keycloak_address r cr v = publicUri cr" for v
      using False by (simp add: keycloak_address_def)
    note del = achieves_ensureDeleted [OF pf singletonI disabled_objects(3) [OF False Some]]
      achieves_ensureDeleted [OF pf singletonI disabled_objects(4) [OF False]]
    let ?P1 = "\<lambda>v. url = publicUri cr \<and> swept r cr v (obj_key (PodObj pod)) = None"
    have pod: "achieves r cr lookup filled (keycloak_keys cr) ?P (ensureDeleted r cr (Some (PodObj pod))) (\<lambda>_. ?P1)"
    proof (cases "url = publicUri cr")
      case True
      show ?thesis
        by (rule achieves_weaken [OF del(1)]) (simp_all add: key True)
    qed (simp add: achieves_def addr)
    have svc: "achieves r cr lookup filled (keycloak_keys cr) ?P1 (ensureDeleted r cr (Some (ServiceObj (keycloakService cr r))))
        (\<lambda>_ v. keycloak_ready nocheck r cr (swept r cr v) \<and> url = keycloak_address r cr v)"
      by (rule achieves_stage [OF del(2)])
        (use False Some in \<open>auto simp: key addr keycloak_ready_def swept_kept\<close>)
    show ?thesis
      unfolding reconcileKeycloakPod_def Let_def Some
      using False inst by (auto simp: installable_def intro!: achieves_then [OF pod] achieves_then [OF svc] achieves_ok)
  qed
qed

section \<open>Horreum\<close>

abbreviation app_keys :: "Horreum \<Rightarrow> key set" where
  "app_keys cr \<equiv> {(KPod, Namespace cr, Name cr @ ''-app''), (KService, Namespace cr, Name cr),
     (KConfigMap, Namespace cr, Name cr @ ''-hyperfoil-upload'')}"

lemma exposed_kept:
  "kept_outside K v v' \<Longrightarrow> obj_key (ServiceObj s) \<notin> K \<Longrightarrow>
   exposed v' s = exposed v s \<and> node_url v' cr s = node_url v cr s"
  by (simp add: exposed_def settled_def node_url_def node_port_of_def kept_outsideD)

lemma achieves_appUrl:
  assumes pf: "platform r cr lookup filled" and inst: "installable r cr"
  shows "achieves r cr lookup filled (app_keys cr) (\<lambda>_. True) (appUrl r cr)
    (\<lambda>x v. x = Inr (node_url v cr (appService cr r)) \<and> exposed v (appService cr r))"
proof -
  let ?svc = "appService cr r"
  have ty: "svc_type ?svc = ServiceTypeNodePort" "svc_ports ?svc \<noteq> []"
    using inst by (simp_all add: installable_def appService_def)
  have rt: "appRoute cr r = (ok None :: ('a st, route option res) state)"
    using inst by (simp add: appRoute_def route_def installable_def)
  have svc: "achieves r cr lookup filled (app_keys cr) (\<lambda>_. True)
      (ensureSame r cr (Some (ServiceObj ?svc)) compareService nocheck) (\<lambda>_ v. exposed v ?svc)"
    by (rule achieves_weaken [OF achieves_service [OF pf wanted.app_service fresh_services(3)]])
      (use exposed_settled [OF _ _ ty, where r = r and cr = cr] in \<open>auto simp: object_keys\<close>)
  have url: "achieves r cr lookup filled (app_keys cr) (\<lambda>v. exposed v ?svc)
      (serviceUrl r cr (Spec_ServiceType (Spec cr)) ?svc rt p u)
      (\<lambda>x v. x = Inr (node_url v cr ?svc) \<and> exposed v ?svc)" for rt p u
    by (rule achieves_serviceUrl [OF pf]) (simp_all add: appService_def)
  have "achieves r cr lookup filled (app_keys cr) (\<lambda>_. True) (ok None) (\<lambda>_ _. True)"
    by (rule achieves_ok) simp
  from achieves_then [OF this achieves_then [OF svc url]] show ?thesis
    unfolding appUrl_def rt .
qed

lemma achieves_set_url:
  fixes lookup :: "'w \<Rightarrow> view"
  assumes "achieves r cr lookup filled K P (k ()) Q"
  shows "achieves r cr lookup filled K P (State_Monad.bind (setPublicUrl url) k) Q"
    and "achieves r cr lookup filled K P (State_Monad.bind (setKeycloakUrl url) k) Q"
  by (rule achieves_bind [where J = "\<lambda>_. P"];
      simp add: assms setPublicUrl_def setKeycloakUrl_def wp_update lands_still emits_def)+

lemma achieves_statusUpdate:
  fixes lookup :: "'w \<Rightarrow> view"
  assumes "api_reads r lookup" and "achieves r cr lookup filled K P (k ()) Q"
  shows "achieves r cr lookup filled K P (State_Monad.bind (statusUpdate r cr') k) Q"
proof (rule achieves_bind [where J = "\<lambda>_. P"])
  fix s :: "'w st"
  assume "cluster_ok r cr (lookup (st_world s))" "P (lookup (st_world s))"
  moreover have "lookup (cl_update_status (Client r) (cr'\<lparr>Status := st_status s\<rparr>) (st_world s)) = lookup (st_world s)"
    using assms(1) unfolding api_reads_def by blast
  ultimately show "wp (statusUpdate r cr') (\<lambda>x t. lands r cr lookup filled K (\<lambda>_. P) s x t) s"
    by (simp add: wp_statusUpdate lands_still emits_def)
qed (use assms(2) in simp)

lemma achieves_reconcileApp:
  assumes pf: "platform r cr lookup filled" and inst: "installable r cr"
  shows "achieves r cr lookup filled (app_keys cr)
    (\<lambda>v. (url = keycloak_address r cr v \<and> aurl = node_url v cr (appService cr r)) \<and> exposed v (appService cr r))
    (reconcileApp r cr url aurl) (\<lambda>x v. x = Result False \<and> app_ready nocheck r cr v)"
proof -
  let ?pod = "PodObj (appPod cr url aurl)" and ?cm = "ConfigMapObj (uploadConfig cr)"
  let ?P = "\<lambda>v. (url = keycloak_address r cr v \<and> aurl = node_url v cr (appService cr r)) \<and> exposed v (appService cr r)"
  let ?Q = "\<lambda>v. ?P v \<and> settled v ?pod (comparePods r) nocheck"
  have P: "?P v'" if "?P v" "kept_outside {obj_key ob} v v'" "obj_kind ob \<noteq> KService" for v v' ob
  proof -
    have svc: "(KService, n) \<notin> {obj_key ob}" for n using that(3) by (auto simp: obj_key_def)
    then have "keycloak_address r cr v' = keycloak_address r cr v"
      using keycloak_address_kept [OF that(2), of cr r] by (cases "publicUri cr = []") (auto simp: keycloak_address_def)
    then show ?thesis
      using that(1) svc exposed_kept [OF that(2), of "appService cr r" cr] by (simp add: object_keys)
  qed
  have pod: "achieves r cr lookup filled (app_keys cr) ?P (ensureSame r cr (Some ?pod) (comparePods r) checkPod) (\<lambda>_. ?Q)"
    by (rule achieves_stage [OF achieves_pod [OF pf wanted.app_pod fresh_pods(4)]], simp add: object_keys, erule (1) P, simp_all)
  have Q: "?Q v'" if "?Q v" "kept_outside {obj_key ?cm} v v'" for v v'
  proof (rule conjI)
    show "?P v'" by (rule P [OF conjunct1 [OF that(1)] that(2)]) simp
    show "settled v' ?pod (comparePods r) nocheck"
      using conjunct2 [OF that(1)] settled_kept [OF that(2), of ?pod] by (simp add: object_keys)
  qed
  have cm: "achieves r cr lookup filled (app_keys cr) ?Q (ensureSame r cr (Some ?cm) nocompare nocheck)
      (\<lambda>_. app_ready nocheck r cr)"
    by (rule achieves_stage [OF achieves_config_map(2) [OF pf wanted.app_upload]], simp add: object_keys, erule (1) Q)
      (auto simp: app_ready_def)
  show ?thesis
    unfolding reconcileApp_def
    by (rule achieves_then [OF pod], rule achieves_then [OF cm],
        rule achieves_statusUpdate [OF platformD(1) [OF pf]], rule achieves_ok) simp
qed

section \<open>The pass\<close>

text \<open>A stage that may end the pass: with a result that satisfies \<open>Q\<close>, or the next stage follows.\<close>

lemma achieves_early:
  assumes "achieves r cr lookup filled K P m (\<lambda>x v. case x of Inl q \<Rightarrow> Q q v | Inr a \<Rightarrow> R a v)"
    and "\<And>a. achieves r cr lookup filled K (R a) (k a) Q"
  shows "achieves r cr lookup filled K P (unless_waiting m k) Q"
  unfolding unless_waiting_def
proof (rule achieves_then [OF assms(1)])
  fix x
  show "achieves r cr lookup filled K (\<lambda>v. case x of Inl q \<Rightarrow> Q q v | Inr a \<Rightarrow> R a v)
      (case x of Inl result \<Rightarrow> ok result | Inr a \<Rightarrow> k a) Q"
    by (cases x) (simp_all add: assms(2) achieves_ok)
qed

lemma achieves_unless:
  assumes "achieves r cr lookup filled K P m (\<lambda>x v. x = Inr (f v) \<and> R v)"
    and "\<And>a. achieves r cr lookup filled K (\<lambda>v. a = f v \<and> R v) (k a) Q"
  shows "achieves r cr lookup filled K P (unless_waiting m k) Q"
  by (rule achieves_early [OF achieves_weaken [OF assms(1)] assms(2)]) auto

lemma achieves_markReady:
  fixes lookup :: "'w \<Rightarrow> view"
  assumes "api_reads r lookup" and "achieves r cr lookup filled K P (k ()) Q"
  shows "achieves r cr lookup filled K P (State_Monad.bind (markReady r cr) k) Q"
proof (rule achieves_bind [where J = "\<lambda>_. P"])
  fix s :: "'w st"
  assume v: "cluster_ok r cr (lookup (st_world s))" "P (lookup (st_world s))"
  show "wp (markReady r cr) (\<lambda>x t. lands r cr lookup filled K (\<lambda>_. P) s x t) s"
    by (rule wp_mono [OF wp_markReady_steady [OF assms(1)]]) (use v in \<open>simp add: lands_still emits_def\<close>)
qed (use assms(2) in simp)

text \<open>What each stage has achieved is not touched by the others.\<close>

lemma ready_kept:
  assumes "kept_outside K v v'"
  shows "\<not> RoutesAvailable r \<Longrightarrow> set (certKeys r cr) \<inter> K = {} \<Longrightarrow> certs_ready r cr v' = certs_ready r cr v"
    and "postgres_keys cr \<inter> K = {} \<Longrightarrow> postgres_ready chk r cr v' = postgres_ready chk r cr v"
    and "keycloak_keys cr \<inter> K = {} \<Longrightarrow> keycloak_ready chk r cr v' = keycloak_ready chk r cr v"
    and "secret_keys cr \<inter> K = {} \<Longrightarrow>
      list_all (has_secret v' (Namespace cr)) (operatorSecrets cr) = list_all (has_secret v (Namespace cr)) (operatorSecrets cr)"
proof -
  note kept = kept_outsideD [OF assms]
  show "certs_ready r cr v' = certs_ready r cr v" if "\<not> RoutesAvailable r" "set (certKeys r cr) \<inter> K = {}"
    using that by (simp add: certs_ready_def certKeys_def kept)
  show "postgres_ready chk r cr v' = postgres_ready chk r cr v" if "postgres_keys cr \<inter> K = {}"
    using that by (simp add: postgres_ready_def settled_def object_keys kept)
  show "keycloak_ready chk r cr v' = keycloak_ready chk r cr v" if K: "keycloak_keys cr \<inter> K = {}"
  proof -
    have addr: "keycloak_address r cr v' = keycloak_address r cr v"
      using keycloak_address_kept [OF assms, of cr r] K by (cases "publicUri cr = []") (auto simp: keycloak_address_def)
    show ?thesis
      using K exposed_kept [OF assms, of "keycloakService cr r" cr]
      by (auto simp: keycloak_ready_def addr settled_def object_keys kept split: option.split)
  qed
  show "list_all (has_secret v' (Namespace cr)) (operatorSecrets cr) =
      list_all (has_secret v (Namespace cr)) (operatorSecrets cr)" if K: "secret_keys cr \<inter> K = {}"
  proof (rule list_all_cong [OF refl])
    fix ref assume "ref \<in> set (operatorSecrets cr)"
    then have "(KSecret, Namespace cr, fst ref) \<in> secret_keys cr"
      by (rule rev_image_eqI) (simp add: case_prod_beta)
    then have "(KSecret, Namespace cr, fst ref) \<notin> K" using K by blast
    then show "has_secret v' (Namespace cr) ref = has_secret v (Namespace cr) ref"
      by (rule has_secret_kept [OF assms])
  qed
qed

lemma achieves_reconcileApplication:
  assumes pf: "platform r cr lookup filled" and inst: "installable r cr"
  shows "achieves r cr lookup filled (app_keys cr) (\<lambda>v. keycloak_ready nocheck r cr (swept r cr v) \<and> url = keycloak_address r cr v)
    (reconcileApplication r cr url)
    (\<lambda>x v. x = Result False \<and> keycloak_ready nocheck r cr (swept r cr v) \<and> app_ready nocheck r cr v)"
proof -
  let ?R = "\<lambda>v. keycloak_ready nocheck r cr (swept r cr v) \<and> url = keycloak_address r cr v"
  let ?S = "\<lambda>v. exposed v (appService cr r) \<and> ?R v"
  have R: "?R v'" if "?R v" "kept_outside (app_keys cr) v v'" for v v'
    using that(1) ready_kept(3) [OF kept_outside_swept [OF that(2), of r cr], where chk = nocheck and r = r and cr = cr]
      keycloak_address_kept [OF that(2), of cr r]
    by (cases "publicUri cr = []") (auto simp: keycloak_address_def)
  have kc: "keycloak_ready nocheck r cr (swept r cr v')" if "keycloak_ready nocheck r cr (swept r cr v)" "kept_outside (app_keys cr) v v'" for v v'
    using that(1) ready_kept(3) [OF kept_outside_swept [OF that(2), of r cr], where chk = nocheck and r = r and cr = cr] by simp
  show ?thesis
    unfolding reconcileApplication_def
  proof (rule achieves_unless [where R = ?S])
    show "achieves r cr lookup filled (app_keys cr) ?R (appUrl r cr) (\<lambda>x v. x = Inr (node_url v cr (appService cr r)) \<and> ?S v)"
      by (rule achieves_stage [OF achieves_appUrl [OF pf inst] subset_refl], erule (1) R) simp
  next
    fix aurl
    have "achieves r cr lookup filled (app_keys cr)
        (\<lambda>v. ((url = keycloak_address r cr v \<and> aurl = node_url v cr (appService cr r)) \<and> exposed v (appService cr r))
          \<and> keycloak_ready nocheck r cr (swept r cr v)) (reconcileApp r cr url aurl)
        (\<lambda>x v. (x = Result False \<and> app_ready nocheck r cr v) \<and> keycloak_ready nocheck r cr (swept r cr v))"
      by (rule achieves_frame [OF achieves_reconcileApp [OF pf inst]]) (erule (1) kc)
    then have "achieves r cr lookup filled (app_keys cr) (\<lambda>v. aurl = node_url v cr (appService cr r) \<and> ?S v)
        (reconcileApp r cr url aurl)
        (\<lambda>x v. x = Result False \<and> keycloak_ready nocheck r cr (swept r cr v) \<and> app_ready nocheck r cr v)"
      by (rule achieves_weaken) simp_all
    then show "achieves r cr lookup filled (app_keys cr) (\<lambda>v. aurl = node_url v cr (appService cr r) \<and> ?S v)
        (do { setPublicUrl aurl; reconcileApp r cr url aurl })
        (\<lambda>x v. x = Result False \<and> keycloak_ready nocheck r cr (swept r cr v) \<and> app_ready nocheck r cr v)"
      by (rule achieves_set_url(1))
  qed
qed

lemma achieves_reconcileKeycloak:
  assumes pf: "platform r cr lookup filled" and inst: "installable r cr"
  shows "achieves r cr lookup filled (keycloak_keys cr \<union> app_keys cr) (\<lambda>_. True) (reconcileKeycloak r cr)
    (\<lambda>x v. x = Result False \<and> keycloak_ready nocheck r cr (swept r cr v) \<and> app_ready nocheck r cr v)"
proof -
  let ?K = "keycloak_keys cr \<union> app_keys cr"
  have rt: "keycloakRoute cr r = (ok None :: ('a st, route option res) state)"
    using inst by (auto simp: keycloakRoute_def route_def installable_def route_type_ok_def Let_def)
  have url: "achieves r cr lookup filled ?K (\<lambda>_. True) (keycloakUrl r cr rt)
      (\<lambda>x v. x = Inr (keycloak_address r cr v) \<and> keycloak_exposed r cr v)" for rt
    by (rule achieves_weaken [OF achieves_keycloakUrl [OF pf inst]]) auto
  have pod: "achieves r cr lookup filled ?K (\<lambda>v. url = keycloak_address r cr v \<and> keycloak_exposed r cr v)
      (reconcileKeycloakPod r cr rt url) (\<lambda>_ v. keycloak_ready nocheck r cr (swept r cr v) \<and> url = keycloak_address r cr v)"
    for rt url
    by (rule achieves_weaken [OF achieves_reconcileKeycloakPod [OF pf inst]]) auto
  have app: "achieves r cr lookup filled ?K (\<lambda>v. keycloak_ready nocheck r cr (swept r cr v) \<and> url = keycloak_address r cr v)
      (reconcileApplication r cr url)
      (\<lambda>x v. x = Result False \<and> keycloak_ready nocheck r cr (swept r cr v) \<and> app_ready nocheck r cr v)" for url
    by (rule achieves_weaken [OF achieves_reconcileApplication [OF pf inst]]) auto
  have "achieves r cr lookup filled ?K (\<lambda>_. True) (ok None) (\<lambda>_ _. True)"
    by (rule achieves_ok) simp
  then show ?thesis
    unfolding reconcileKeycloak_def rt
    by (rule achieves_then, intro achieves_unless [OF url] achieves_set_url(2) achieves_then [OF pod] app)
qed

text \<open>The keys a pass may change.\<close>

definition pass_keys :: "'w HorreumReconciler \<Rightarrow> Horreum \<Rightarrow> key set" where
  "pass_keys r cr = set (certKeys r cr) \<union> secret_keys cr \<union> postgres_keys cr \<union> (keycloak_keys cr \<union> app_keys cr)"

lemma stage_keys_disjoint:
  assumes "installable r cr"
  shows "set (certKeys r cr) \<inter> secret_keys cr = {}" "set (certKeys r cr) \<inter> postgres_keys cr = {}"
    "set (certKeys r cr) \<inter> (keycloak_keys cr \<union> app_keys cr) = {}"
    "secret_keys cr \<inter> postgres_keys cr = {}" "secret_keys cr \<inter> (keycloak_keys cr \<union> app_keys cr) = {}"
    "postgres_keys cr \<inter> (keycloak_keys cr \<union> app_keys cr) = {}"
proof -
  have "n \<notin> set (certSecrets cr)" if "(n, keys) \<in> set (operatorSecrets cr)" for n keys
    using operatorSecrets_certSecrets [OF installable_names [OF assms] that] .
  then show "set (certKeys r cr) \<inter> secret_keys cr = {}"
    using assms by (fastforce simp: certKeys_def certSecrets_def installable_def names_apart_def)
qed (auto simp: certKeys_def)

lemma swept_base:
  "certs_ready r cr (swept r cr v) = certs_ready r cr v" "has_secret (swept r cr v) ns = has_secret v ns"
  by (simp_all add: certs_ready_def has_secret_def fun_eq_iff swept_same enabled_keys)

lemma achieves_stages:
  assumes pf: "platform r cr lookup filled" and inst: "installable r cr"
  shows "achieves r cr lookup filled (pass_keys r cr) (\<lambda>_. True)
    (and_then (reconcileCerts r cr) (\<lambda>_. and_then (reconcileSecrets r cr) (\<lambda>_.
       and_then (reconcilePostgres r cr) (\<lambda>_. reconcileKeycloak r cr))))
    (\<lambda>x v. x = Result False \<and> stable nocheck r cr (swept r cr v))"
proof -
  have r: "\<not> RoutesAvailable r" using inst by (simp add: installable_def)
  note kept = ready_kept(1) [OF _ r] ready_kept(2,4) and dj = stage_keys_disjoint [OF inst]
  let ?K = "pass_keys r cr"
  let ?R1 = "certs_ready r cr"
  let ?R2 = "\<lambda>v. list_all (has_secret v (Namespace cr)) (operatorSecrets cr) \<and> ?R1 v"
  let ?R3 = "\<lambda>v. postgres_ready nocheck r cr (swept r cr v) \<and> ?R2 v"
  have R1: "?R1 v'" if "?R1 v" "kept_outside (secret_keys cr) v v'" for v v'
    using that(1) kept(1) [OF that(2) dj(1)] by simp
  have R2: "?R2 v'" if "?R2 v" "kept_outside (postgres_keys cr) v v'" for v v'
    using that(1) kept(1) [OF that(2) dj(2)] kept(3) [OF that(2) dj(4)] by simp
  have R3: "?R3 v'" if "?R3 v" "kept_outside (keycloak_keys cr \<union> app_keys cr) v v'" for v v'
    using that(1) kept(1) [OF that(2) dj(3)] kept(2) [where r = r and chk = nocheck, OF kept_outside_swept [OF that(2), of r cr] dj(6)] kept(3) [OF that(2) dj(5)] by simp
  have certs: "achieves r cr lookup filled ?K (\<lambda>_. True) (reconcileCerts r cr) (\<lambda>_. ?R1)"
    by (rule achieves_weaken [OF achieves_reconcileCerts [OF pf inst]]) (auto simp: pass_keys_def)
  have secrets: "achieves r cr lookup filled ?K ?R1 (reconcileSecrets r cr) (\<lambda>_. ?R2)"
    by (rule achieves_stage [OF achieves_reconcileSecrets [OF pf installable_names [OF inst]]], simp add: pass_keys_def, blast,
        erule (1) R1, simp)
  have pg: "achieves r cr lookup filled ?K ?R2 (reconcilePostgres r cr) (\<lambda>_. ?R3)"
    by (rule achieves_stage [OF achieves_reconcilePostgres [OF pf]], simp add: pass_keys_def, erule (1) R2, simp)
  have kc: "achieves r cr lookup filled ?K ?R3 (reconcileKeycloak r cr) (\<lambda>x v. x = Result False \<and> stable nocheck r cr (swept r cr v))"
    by (rule achieves_stage [OF achieves_reconcileKeycloak [OF pf inst]], simp add: pass_keys_def, erule (1) R3)
      (use inst in \<open>auto simp: stable_def installable_def dns_name_def swept_base swept_app\<close>)
  show ?thesis
    by (intro achieves_then [OF certs] achieves_then [OF secrets] achieves_then [OF pg] kc)
qed

lemma achieves_reconcileCr:
  assumes pf: "platform r cr lookup filled" and inst: "installable r cr"
  shows "achieves r cr lookup filled (pass_keys r cr) (\<lambda>_. True) (reconcileCr r cr)
    (\<lambda>x v. x = Result False \<and> stable nocheck r cr (swept r cr v))"
proof -
  have host: "Spec_NodeHost (Spec cr) \<noteq> []" using inst by (auto simp: installable_def dns_name_def)
  then show ?thesis
    using achieves_markReady [OF platformD(1) [OF pf] achieves_stages [OF pf inst]]
    unfolding reconcileCr_def by simp
qed

end
