(* ===== verification/Sample.thy ===== *)
theory Sample
  imports Install
begin

text \<open>
  The sample resource on the in-memory cluster: a steady state that meets the hypotheses of the
  idempotence theorem, object by object.
\<close>

section \<open>A steady cluster in memory\<close>

definition mem_lookup :: "memory \<Rightarrow> key \<Rightarrow> obj option" where
  "mem_lookup m key = mem_find key m"

lemma mem_reconciler_simps [simp]:
  "Lib (mem_reconciler b) = mem_library" "Crypto (mem_reconciler b) = mem_crypto"
  "RoutesAvailable (mem_reconciler b) = b" "UseRedHatImages (mem_reconciler b) = b"
  by (simp_all add: mem_reconciler_def)

lemma mem_update_status_simps [simp]:
  "cl_update_status mem_client = mem_update_status" "mem_objs (mem_update_status cr m) = mem_objs m"
  by (simp_all add: mem_client_def mem_update_status_def)

lemma mem_api_reads: "api_reads (mem_reconciler b) mem_lookup"
proof -
  have "\<exists>w'. mem_lookup w' = mem_lookup w \<and> client_get mem_client k ns n w =
      (case mem_lookup w (k, ns, n) of None \<Rightarrow> Inl NotFound | Some ob \<Rightarrow> Inr ob, w')" for k ns n w
    by (rule exI [of _ w]) (simp add: mem_client_get mem_lookup_def split: option.split)
  then show ?thesis
    unfolding api_reads_def
    by (simp add: mem_lookup_def mem_find_def mem_library_def fun_eq_iff)
qed

lemma mem_owns: "owns (mem_reconciler b) cr"
  by (simp add: owns_def mem_library_def)

definition basic_secret :: "Horreum \<Rightarrow> string \<Rightarrow> obj" where
  "basic_secret cr n = SecretObj (zero_secret
     \<lparr>sec_meta := zero_meta\<lparr>om_name := n, om_namespace := Namespace cr\<rparr>,
      sec_data := fmap_of_list [(''username'', n), (''password'', ''p''), (''dbsecret'', ''s'')]\<rparr>)"

text \<open>What the server holds after the operator has created everything and the pods have started.\<close>

definition steady_objs :: "Horreum \<Rightarrow> pod \<Rightarrow> string \<Rightarrow> obj list" where
  "steady_objs cr kpod url =
     (let r = mem_reconciler False; key = \<lparr>rsa_public = ''public'', rsa_private = ''private''\<rparr> in
        [SecretObj (tlsSecret r cr (Name cr @ ''-ca-certs'') ''ca'' key),
         ConfigMapObj (serviceCaConfigMap cr ''ca''),
         SecretObj (tlsSecret r cr (Name cr @ ''-app-certs'') ''app'' key),
         SecretObj (tlsSecret r cr (Name cr @ ''-keycloak-certs'') ''keycloak'' key),
         basic_secret cr (dbAdminSecret cr), basic_secret cr (appUserSecret cr),
         basic_secret cr (keycloakAdminSecret cr), basic_secret cr (keycloakDbSecret cr),
         basic_secret cr (horreumAdminSecret cr),
         ConfigMapObj (postgresConfigMap cr), PodObj (postgresPod cr r), ServiceObj (postgresService cr),
         ServiceObj (keycloakService cr r), PodObj kpod,
         ServiceObj (appService cr r), PodObj (appPod cr url url), ConfigMapObj (uploadConfig cr)])"

definition sample_url :: string where
  "sample_url = https_url ''127.0.0.1'' 30080"

definition steady_memory :: memory where
  "steady_memory =
     \<lparr>mem_objs = map (\<lambda>ob. bring_up (admit ob))
        (steady_objs sample_cr (the (keycloakPod sample_cr sample_url)) sample_url),
      mem_crs = [sample_cr], mem_time = 0, mem_seed = 7\<rparr>"

lemma sample_cr_simps [simp]:
  "Name sample_cr = ''horreum''" "Namespace sample_cr = ''default''"
  "Spec_NodeHost (Spec sample_cr) = ''127.0.0.1''" "Spec_ServiceType (Spec sample_cr) = []"
  "Spec_Route (Spec sample_cr) = zero_RouteSpec" "Keycloak sample_cr = zero_KeycloakSpec"
  "Postgres sample_cr = zero_PostgresSpec" "Database sample_cr = zero_DatabaseSpec"
  "Spec_AdminSecret (Spec sample_cr) = []"
  by (simp_all add: sample_cr_def zero_Horreum_def zero_HorreumSpec_def)

lemma basic_secret_key: "obj_key (basic_secret cr n) = (KSecret, Namespace cr, n)"
  by (simp add: obj_key_def obj_name_def obj_namespace_def basic_secret_def)

abbreviation live :: "obj \<Rightarrow> obj" where
  "live ob \<equiv> bring_up (admit ob)"

lemma mem_lookup_live:
  "mem_lookup (m\<lparr>mem_objs := map live obs\<rparr>) key = map_option live (find (\<lambda>ob. obj_key ob = key) obs)"
  by (induction obs) (simp_all add: mem_lookup_def mem_find_def)

lemma sample_keycloak: "\<exists>p. keycloakPod sample_cr sample_url = Some p"
proof -
  have "dns_name ''127.0.0.1''"
    by (simp add: dns_name_def char_class_defs code_of_def)
  from parse_https_host_port [OF this, of 30080] show ?thesis
    by (simp add: keycloakPod_def sample_url_def https_url_def host_port_def itoa_def Let_def)
qed

definition sample_kpod :: pod where
  "sample_kpod = the (keycloakPod sample_cr sample_url)"

lemma sample_kpod: "keycloakPod sample_cr sample_url = Some sample_kpod"
  using sample_keycloak by (auto simp: sample_kpod_def)

lemma sample_secrets:
  "dbAdminSecret sample_cr = ''horreum-db-admin''" "appUserSecret sample_cr = ''horreum-app''"
  "keycloakAdminSecret sample_cr = ''horreum-keycloak-admin''"
  "keycloakDbSecret sample_cr = ''horreum-keycloak-db''" "horreumAdminSecret sample_cr = ''horreum-admin''"
  by (simp_all add: dbAdminSecret_def appUserSecret_def keycloakAdminSecret_def keycloakDbSecret_def
      horreumAdminSecret_def zero_PostgresSpec_def zero_DatabaseSpec_def zero_KeycloakSpec_def)

lemma steady_lookup:
  "mem_lookup steady_memory key = map_option live
     (find (\<lambda>ob. obj_key ob = key) (steady_objs sample_cr sample_kpod sample_url))"
  using mem_lookup_live [where m = "\<lparr>mem_objs = [], mem_crs = [sample_cr], mem_time = 0, mem_seed = 7\<rparr>"]
  by (simp add: steady_memory_def sample_kpod_def)

lemmas steady_find = steady_lookup steady_objs_def Let_def basic_secret_key object_keys(1-7) tlsSecret_key serviceCa_key
  object_keys(8) [OF sample_kpod] sample_secrets

text \<open>Every object is found under its key.\<close>

abbreviation "mem0 \<equiv> mem_reconciler False"
abbreviation "tls_key0 \<equiv> \<lparr>rsa_public = ''public'', rsa_private = ''private''\<rparr>"

lemma steady_at:
  "mem_lookup steady_memory (KSecret, ''default'', ''horreum-ca-certs'') =
     Some (live (SecretObj (tlsSecret mem0 sample_cr ''horreum-ca-certs'' ''ca'' tls_key0)))"
  "mem_lookup steady_memory (KConfigMap, ''default'', ''service-ca.crt'') =
     Some (live (ConfigMapObj (serviceCaConfigMap sample_cr ''ca'')))"
  "mem_lookup steady_memory (KSecret, ''default'', ''horreum-app-certs'') =
     Some (live (SecretObj (tlsSecret mem0 sample_cr ''horreum-app-certs'' ''app'' tls_key0)))"
  "mem_lookup steady_memory (KSecret, ''default'', ''horreum-keycloak-certs'') =
     Some (live (SecretObj (tlsSecret mem0 sample_cr ''horreum-keycloak-certs'' ''keycloak'' tls_key0)))"
  "mem_lookup steady_memory (KSecret, ''default'', ''horreum-db-admin'') =
     Some (live (basic_secret sample_cr ''horreum-db-admin''))"
  "mem_lookup steady_memory (KSecret, ''default'', ''horreum-app'') =
     Some (live (basic_secret sample_cr ''horreum-app''))"
  "mem_lookup steady_memory (KSecret, ''default'', ''horreum-keycloak-admin'') =
     Some (live (basic_secret sample_cr ''horreum-keycloak-admin''))"
  "mem_lookup steady_memory (KSecret, ''default'', ''horreum-keycloak-db'') =
     Some (live (basic_secret sample_cr ''horreum-keycloak-db''))"
  "mem_lookup steady_memory (KSecret, ''default'', ''horreum-admin'') =
     Some (live (basic_secret sample_cr ''horreum-admin''))"
  "mem_lookup steady_memory (obj_key (ConfigMapObj (postgresConfigMap sample_cr))) =
     Some (live (ConfigMapObj (postgresConfigMap sample_cr)))"
  "mem_lookup steady_memory (obj_key (PodObj (postgresPod sample_cr mem0))) =
     Some (live (PodObj (postgresPod sample_cr mem0)))"
  "mem_lookup steady_memory (obj_key (ServiceObj (postgresService sample_cr))) =
     Some (live (ServiceObj (postgresService sample_cr)))"
  "mem_lookup steady_memory (obj_key (ServiceObj (keycloakService sample_cr mem0))) =
     Some (live (ServiceObj (keycloakService sample_cr mem0)))"
  "mem_lookup steady_memory (obj_key (PodObj sample_kpod)) = Some (live (PodObj sample_kpod))"
  "mem_lookup steady_memory (obj_key (ServiceObj (appService sample_cr mem0))) =
     Some (live (ServiceObj (appService sample_cr mem0)))"
  "mem_lookup steady_memory (obj_key (PodObj (appPod sample_cr sample_url sample_url))) =
     Some (live (PodObj (appPod sample_cr sample_url sample_url)))"
  "mem_lookup steady_memory (obj_key (ConfigMapObj (uploadConfig sample_cr))) =
     Some (live (ConfigMapObj (uploadConfig sample_cr)))"
  by (simp_all add: steady_find)

text \<open>An object as the operator wants it is settled once it is stored and started.\<close>

lemma settled_live:
  "v (obj_key (PodObj p)) = Some (live (PodObj p)) \<Longrightarrow> p_statuses p = [] \<Longrightarrow> ps_rest (p_spec p) = [] \<Longrightarrow>
     settled v (PodObj p) (comparePods (mem_reconciler b)) checkPod"
  "v (obj_key (ServiceObj s)) = Some (live (ServiceObj s)) \<Longrightarrow>
     settled v (ServiceObj s) compareService nocheck"
  "v (obj_key (ConfigMapObj c)) = Some (live (ConfigMapObj c)) \<Longrightarrow>
     settled v (ConfigMapObj c) compareConfigMap nocheck"
  "v (obj_key (ConfigMapObj c)) = Some (live (ConfigMapObj c)) \<Longrightarrow>
     settled v (ConfigMapObj c) nocompare nocheck"
  by (auto simp: settled_def comparePods_def mem_library_def checkPod_def compareService_def samePorts_iff
      nocheck_def compareConfigMap_iff nocompare_def comp_def)

lemma sample_ready:
  "certs_ready mem0 sample_cr (mem_lookup steady_memory)"
  "list_all (has_secret (mem_lookup steady_memory) ''default'') (operatorSecrets sample_cr)"
  "postgres_ready checkPod mem0 sample_cr (mem_lookup steady_memory)"
proof -
  show "certs_ready mem0 sample_cr (mem_lookup steady_memory)"
    by (simp add: certs_ready_def steady_at loadCA_def tlsSecret_def data_at_def mem_crypto_def
        mem_pem_decode_def zero_secret_def)
  show "list_all (has_secret (mem_lookup steady_memory) ''default'') (operatorSecrets sample_cr)"
    by (simp add: operatorSecrets_def sample_secrets basicKeys_def has_secret_def steady_at basic_secret_def
        checkSecret_def zero_secret_def)
  show "postgres_ready checkPod mem0 sample_cr (mem_lookup steady_memory)"
    using settled_live(1) [where v = "mem_lookup steady_memory", OF steady_at(11)] settled_live(2) [where v = "mem_lookup steady_memory", OF steady_at(12)]
      settled_live(3) [where v = "mem_lookup steady_memory", OF steady_at(10)]
    by (simp add: postgres_ready_def fresh_pods zero_PostgresSpec_def)
qed

lemma sample_exposed:
  "svc_type s = ServiceTypeNodePort \<Longrightarrow> svc_ports s = [p] \<Longrightarrow> sp_node p = 0 \<Longrightarrow>
   v (obj_key (ServiceObj s)) = Some (live (ServiceObj s)) \<Longrightarrow> exposed v s \<and> node_port_of v s = 30080"
  using settled_live(2) [of v s] by (simp add: exposed_def node_port_of_def)

lemma sample_addresses:
  "exposed (mem_lookup steady_memory) (keycloakService sample_cr mem0)"
  "exposed (mem_lookup steady_memory) (appService sample_cr mem0)"
  "keycloak_address mem0 sample_cr (mem_lookup steady_memory) = sample_url"
  "node_url (mem_lookup steady_memory) sample_cr (appService sample_cr mem0) = sample_url"
proof -
  have kc: "exposed (mem_lookup steady_memory) (keycloakService sample_cr mem0)
      \<and> node_port_of (mem_lookup steady_memory) (keycloakService sample_cr mem0) = 30080"
    by (rule sample_exposed [where v = "mem_lookup steady_memory", OF _ _ _ steady_at(13)],
        simp add: keycloakService_def serviceType_def zero_KeycloakSpec_def,
        simp add: keycloakService_def, simp)
  have app: "exposed (mem_lookup steady_memory) (appService sample_cr mem0)
      \<and> node_port_of (mem_lookup steady_memory) (appService sample_cr mem0) = 30080"
    by (rule sample_exposed [where v = "mem_lookup steady_memory", OF _ _ _ steady_at(15)],
        simp add: appService_def serviceType_def,
        simp add: appService_def servicePort_def zero_RouteSpec_def, simp)
  show "exposed (mem_lookup steady_memory) (keycloakService sample_cr mem0)"
    and "exposed (mem_lookup steady_memory) (appService sample_cr mem0)"
    and "keycloak_address mem0 sample_cr (mem_lookup steady_memory) = sample_url"
    and "node_url (mem_lookup steady_memory) sample_cr (appService sample_cr mem0) = sample_url"
    using kc app by (simp_all add: keycloak_address_def node_url_def publicUri_def zero_KeycloakSpec_def
        sample_url_def)
qed

lemma sample_steady: "steady mem0 sample_cr (mem_lookup steady_memory)"
proof -
  have "keycloak_ready checkPod mem0 sample_cr (mem_lookup steady_memory)"
    using settled_live(1) [where v = "mem_lookup steady_memory", OF steady_at(14)] fresh_pods(5,6) [OF sample_kpod] sample_addresses(1)
    by (simp add: keycloak_ready_def sample_addresses(3) sample_kpod publicUri_def zero_KeycloakSpec_def)
  moreover have "app_ready checkPod mem0 sample_cr (mem_lookup steady_memory)"
    using settled_live(1) [where v = "mem_lookup steady_memory", OF steady_at(16)] settled_live(4) [where v = "mem_lookup steady_memory", OF steady_at(17)] sample_addresses(2)
    by (simp add: app_ready_def sample_addresses(3,4) fresh_pods)
  ultimately show ?thesis
    using sample_ready
    by (simp add: stable_def route_type_ok_def zero_KeycloakSpec_def zero_RouteSpec_def)
qed

definition steady_state :: "memory st" where
  "steady_state = \<lparr>st_world = steady_memory, st_status = zero_HorreumStatus, st_events = []\<rparr>"

theorem steady_pass_is_idle_witness:
  "steady mem0 sample_cr (mem_lookup (st_world steady_state))
   \<and> wp (reconcileCr mem0 sample_cr)
    (\<lambda>x t. \<exists>status. passed mem_lookup sample_cr status steady_state x t
       \<and> Status_Status status = ''Ready''
       \<and> Status_KeycloakUrl status = keycloak_address mem0 sample_cr (mem_lookup (st_world steady_state))
       \<and> Status_PublicUrl status =
           node_url (mem_lookup (st_world steady_state)) sample_cr (appService sample_cr mem0)) steady_state"
proof
  show "steady mem0 sample_cr (mem_lookup (st_world steady_state))"
    by (simp add: steady_state_def sample_steady)
  then show "wp (reconcileCr mem0 sample_cr)
    (\<lambda>x t. \<exists>status. passed mem_lookup sample_cr status steady_state x t
       \<and> Status_Status status = ''Ready''
       \<and> Status_KeycloakUrl status = keycloak_address mem0 sample_cr (mem_lookup (st_world steady_state))
       \<and> Status_PublicUrl status =
           node_url (mem_lookup (st_world steady_state)) sample_cr (appService sample_cr mem0)) steady_state"
    by (rule steady_pass_is_idle [OF mem_api_reads mem_owns])
qed

theorem pods_find_their_secrets_witness:
  "api_reads mem0 mem_lookup \<and>
   wp (reconcileSecrets mem0 sample_cr)
    (\<lambda>x t. case x of
       Ok _ \<Rightarrow> status_severity t \<noteq> SReady \<or>
         emits (list_all is_get) steady_state t \<and> mem_lookup (st_world t) = mem_lookup (st_world steady_state) \<and>
         list_all (\<lambda>p. list_all (resolves (mem_lookup (st_world t)) (Namespace sample_cr)) (env_refs p))
           (workloadPods sample_cr mem0 sample_url sample_url)
     | Err e \<Rightarrow> error_reported sample_cr t \<or> (\<exists>sec. lib_owners (Lib mem0) sample_cr (SecretObj sec) = Inl e)
     | Panic _ \<Rightarrow> False) steady_state"
  by (rule conjI [OF mem_api_reads pods_find_their_secrets [OF mem_api_reads]])

end
