(* ===== verification/Openshift.thy ===== *)
theory Openshift
  imports Steady Exposure
begin

text \<open>
  Idempotence on OpenShift: services are reached through routes, certificates are injected by the
  platform. As in \<^verbatim>\<open>Steady\<close>, a pass over a cluster that holds what the resource asks for only reads.
\<close>

section \<open>The routes a pass asks for\<close>

text \<open>The TLS settings that \<^verbatim>\<open>tls\<close> computes from the stored secret; \<^const>\<open>None\<close> if it fails.\<close>

definition stored_tls :: "Horreum \<Rightarrow> (key \<Rightarrow> obj option) \<Rightarrow> tls_config option option" where
  "stored_tls cr v =
     (let ty = Route_Type (Spec_Route (Spec cr)); n = Route_TLS (Spec_Route (Spec cr));
          cfg = (\<lambda>sec. Some (Some (tls_of_secret (if ty = [] then ''reencrypt'' else ty) sec))) in
      if ty = ''http'' then Some None
      else if ty = ''passthrough'' then
        Some (Some \<lparr>tls_termination = ''passthrough'', tls_insecure = ''Redirect'',
          tls_certificate = [], tls_key = [], tls_ca = [], tls_destination_ca = []\<rparr>)
      else if ty \<in> {''edge'', ''reencrypt'', []} then
        (if n = [] then cfg zero_secret
         else case v (KSecret, Namespace cr, n) of Some (SecretObj sec) \<Rightarrow> cfg sec | _ \<Rightarrow> None)
      else None)"

abbreviation keycloak_route :: "Horreum \<Rightarrow> tls_config option \<Rightarrow> route" where
  "keycloak_route cr \<equiv> route_object (Kc_Route (Keycloak cr)) ''-keycloak'' cr"

abbreviation app_route :: "Horreum \<Rightarrow> tls_config option \<Rightarrow> route" where
  "app_route cr \<equiv> route_object (Spec_Route (Spec cr)) [] cr"

lemma settles_tls:
  assumes "api_reads r lookup" and "stored_tls cr v = Some cfg"
  shows "settles lookup v (tls r cr rs) cfg"
proof -
  let ?ty = "Route_Type (Spec_Route (Spec cr))" and ?n = "Route_TLS (Spec_Route (Spec cr))"
  consider "?ty = ''http''" | "?ty = ''passthrough''" | (cert) "?ty \<in> {''edge'', ''reencrypt'', []}"
    using assms(2) by (auto simp: stored_tls_def Let_def split: if_splits)
  then show ?thesis
  proof cases
    case cert
    then obtain sec where sec: "?n = [] \<and> sec = zero_secret \<or> ?n \<noteq> [] \<and> v (KSecret, Namespace cr, ?n) = Some (SecretObj sec)"
      "cfg = Some (tls_of_secret (if ?ty = [] then ''reencrypt'' else ?ty) sec)"
      using assms(2) by (auto simp: stored_tls_def Let_def split: if_splits option.splits obj.splits)
    show ?thesis
    proof (cases "?n = []")
      case True
      then show ?thesis
        using cert sec by (auto simp: tls_def Let_def tls_of_secret_def data_at_def settles_ok)
    next
      case False
      then have "v (KSecret, Namespace cr, ?n) = Some (SecretObj sec)" using sec by simp
      note get = settles_get_secret [where v = v, OF assms(1) this]
      show ?thesis
        using cert False sec(2)
        by (auto simp: tls_def Let_def tls_of_secret_def data_at_def settles_ok intro!: get)
    qed
  qed (use assms(2) in \<open>auto simp: stored_tls_def tls_def Let_def settles_ok\<close>)
qed

lemma settles_route:
  assumes "api_reads r lookup" and "stored_tls cr v = Some cfg" and "RoutesAvailable r"
  shows "settles lookup v (route rs sfx cr r) (Some (route_object rs sfx cr cfg))"
  using assms(3) unfolding route_def Let_def route_object_def
  by (auto intro!: settles_then [OF settles_tls [OF assms(1,2)]] settles_ok)

section \<open>A steady cluster\<close>

text \<open>The route is stored as asked for, admitted, and has an address.\<close>

definition route_url :: "(key \<Rightarrow> obj option) \<Rightarrow> route \<Rightarrow> string" where
  "route_url v rt = foundRouteUrl (v (obj_key (RouteObj rt)))"

definition admitted :: "(key \<Rightarrow> obj option) \<Rightarrow> route \<Rightarrow> bool" where
  "admitted v rt \<longleftrightarrow> settled v (RouteObj rt) compareRoute checkRoute \<and> route_url v rt \<noteq> []"

definition by_route :: "'w HorreumReconciler \<Rightarrow> string \<Rightarrow> bool" where
  "by_route r ty \<longleftrightarrow> RoutesAvailable r \<and> ty \<noteq> ServiceTypeNodePort \<and> ty \<noteq> ServiceTypeLoadBalancer"

definition keycloak_routed_url :: "Horreum \<Rightarrow> (key \<Rightarrow> obj option) \<Rightarrow> tls_config option \<Rightarrow> string" where
  "keycloak_routed_url cr v cfg =
     (if publicUri cr = [] then route_url v (keycloak_route cr cfg) else publicUri cr)"

definition keycloak_routed ::
  "checkFunc \<Rightarrow> 'w HorreumReconciler \<Rightarrow> Horreum \<Rightarrow> (key \<Rightarrow> obj option) \<Rightarrow> tls_config option \<Rightarrow> bool" where
  "keycloak_routed chk r cr v cfg \<longleftrightarrow>
     (case keycloakPod cr (keycloak_routed_url cr v cfg) of
        None \<Rightarrow> False
      | Some pod \<Rightarrow>
          if publicUri cr = []
          then by_route r (Kc_ServiceType (Keycloak cr))
             \<and> settled v (ServiceObj (keycloakService cr r)) compareService nocheck
             \<and> admitted v (keycloak_route cr cfg) \<and> settled v (PodObj pod) (comparePods r) chk
          else v (obj_key (PodObj pod)) = None \<and> v (obj_key (ServiceObj (keycloakService cr r))) = None
             \<and> v (obj_key (RouteObj (keycloak_route cr cfg))) = None)"

definition app_routed ::
  "checkFunc \<Rightarrow> 'w HorreumReconciler \<Rightarrow> Horreum \<Rightarrow> (key \<Rightarrow> obj option) \<Rightarrow> tls_config option \<Rightarrow> bool" where
  "app_routed chk r cr v cfg \<longleftrightarrow> by_route r (Spec_ServiceType (Spec cr))
     \<and> settled v (ServiceObj (appService cr r)) compareService nocheck \<and> admitted v (app_route cr cfg)
     \<and> settled v (PodObj (appPod cr (keycloak_routed_url cr v cfg) (route_url v (app_route cr cfg))))
         (comparePods r) chk
     \<and> settled v (ConfigMapObj (uploadConfig cr)) nocompare nocheck"

definition stable_routed ::
  "checkFunc \<Rightarrow> 'w HorreumReconciler \<Rightarrow> Horreum \<Rightarrow> (key \<Rightarrow> obj option) \<Rightarrow> tls_config option \<Rightarrow> bool" where
  "stable_routed chk r cr v cfg \<longleftrightarrow> stored_tls cr v = Some cfg \<and> route_type_ok cr
     \<and> (Spec_NodeHost (Spec cr) \<noteq> [] \<or> Kc_ServiceType (Keycloak cr) \<noteq> ServiceTypeNodePort)
     \<and> settled v (ConfigMapObj (injectedCaConfigMap cr)) nocompare nocheck
     \<and> list_all (has_secret v (Namespace cr)) (operatorSecrets cr) \<and> postgres_ready chk r cr v
     \<and> keycloak_routed chk r cr v cfg \<and> app_routed chk r cr v cfg"

abbreviation steady_routed ::
  "'w HorreumReconciler \<Rightarrow> Horreum \<Rightarrow> (key \<Rightarrow> obj option) \<Rightarrow> tls_config option \<Rightarrow> bool" where
  "steady_routed \<equiv> stable_routed checkPod"

section \<open>The stages\<close>

lemma by_route_simps:
  "by_route r ty \<Longrightarrow> RoutesAvailable r" "by_route r ty \<Longrightarrow> \<not> isNodePort r ty"
  "by_route r ty \<Longrightarrow> ty \<noteq> ServiceTypeLoadBalancer"
  by (auto simp: by_route_def isNodePort_def)

lemma settles_routed_serviceUrl:
  assumes "api_reads r lookup" and "owns r cr" and "by_route r ty" and "admitted v rt"
  shows "settles lookup v (serviceUrl r cr ty service (Some rt) p u) (Inr (route_url v rt))"
proof -
  have "settled v (RouteObj rt) compareRoute checkRoute" and url: "route_url v rt \<noteq> []"
    using assms(4) by (simp_all add: admitted_def)
  note rt = routes.settles_ensureSame [OF assms(1,2) this(1)]
  have "settles lookup v (and_then (ensureSame r cr (Some (RouteObj rt)) compareRoute checkRoute)
      (\<lambda>foundRoute. ok (foundRouteUrl foundRoute))) (route_url v rt)"
    by (rule settles_then [OF rt]) (simp add: route_url_def settles_ok)
  then have "settles lookup v (and_then (and_then (ensureSame r cr (Some (RouteObj rt)) compareRoute checkRoute)
      (\<lambda>foundRoute. ok (foundRouteUrl foundRoute))) (\<lambda>url. if url = [] then waiting r cr u else ok (Inr url)))
      (Inr (route_url v rt))"
    by (rule settles_then) (simp add: url settles_ok)
  then show ?thesis
    using by_route_simps [OF assms(3)] by (simp add: serviceUrl_def)
qed

lemma settles_routed_keycloakUrl:
  assumes "api_reads r lookup" and "owns r cr" and "keycloak_routed checkPod r cr v cfg"
  shows "settles lookup v (keycloakUrl r cr (Some (keycloak_route cr cfg))) (Inr (keycloak_routed_url cr v cfg))"
proof (cases "publicUri cr = []")
  case True
  then have kc: "by_route r (Kc_ServiceType (Keycloak cr))" "admitted v (keycloak_route cr cfg)"
    "settled v (ServiceObj (keycloakService cr r)) compareService nocheck"
    using assms(3) by (auto simp: keycloak_routed_def split: option.splits)
  show ?thesis
    unfolding keycloakUrl_def keycloak_routed_url_def if_P [OF True]
    by (rule settles_then [OF services.settles_ensureSame [OF assms(1,2) kc(3)]])
      (rule settles_routed_serviceUrl [OF assms(1,2) kc(1,2)])
qed (simp add: keycloakUrl_def keycloak_routed_url_def settles_ok)

lemma settles_routed_keycloakPod:
  assumes "api_reads r lookup" and "owns r cr" and "keycloak_routed checkPod r cr v cfg" and "RoutesAvailable r"
  shows "settles lookup v
    (reconcileKeycloakPod r cr (Some (keycloak_route cr cfg)) (keycloak_routed_url cr v cfg)) ()"
proof -
  obtain pod where pod: "keycloakPod cr (keycloak_routed_url cr v cfg) = Some pod"
    using assms(3) by (auto simp: keycloak_routed_def split: option.splits)
  show ?thesis
  proof (cases "publicUri cr = []")
    case True
    then have "settled v (PodObj pod) (comparePods r) checkPod"
      using assms(3) pod by (simp add: keycloak_routed_def)
    then show ?thesis
      using True unfolding reconcileKeycloakPod_def Let_def pod
      by (auto intro!: settles_then [OF pods.settles_ensureSame [OF assms(1,2)]] settles_ok)
  next
    case False
    then have "v (obj_key (PodObj pod)) = None" "v (obj_key (ServiceObj (keycloakService cr r))) = None"
      "v (obj_key (RouteObj (keycloak_route cr cfg))) = None"
      using assms(3) pod by (simp_all add: keycloak_routed_def)
    note del = this [THEN settles_ensureDeleted [where v = v, OF assms(1)]]
    have "settles lookup v (and_then (ensureDeleted r cr (Some (PodObj pod))) (\<lambda>_.
        and_then (ensureDeleted r cr (Some (ServiceObj (keycloakService cr r)))) (\<lambda>_.
          ensureDeleted r cr (Some (RouteObj (keycloak_route cr cfg)))))) ()"
      by (intro settles_then [where a = "()"] del)
    then show ?thesis
      using False assms(4) unfolding reconcileKeycloakPod_def Let_def pod by simp
  qed
qed

lemma settles_routed_appUrl:
  assumes "api_reads r lookup" and "owns r cr" and "stored_tls cr v = Some cfg" and "app_routed checkPod r cr v cfg"
  shows "settles lookup v (appUrl r cr) (Inr (route_url v (app_route cr cfg)))"
proof -
  have app: "by_route r (Spec_ServiceType (Spec cr))" "admitted v (app_route cr cfg)"
    "settled v (ServiceObj (appService cr r)) compareService nocheck"
    using assms(4) by (simp_all add: app_routed_def)
  show ?thesis
    unfolding appUrl_def appRoute_def
    by (rule settles_then [OF settles_route [OF assms(1,3) by_route_simps(1) [OF app(1)]]],
        rule settles_then [OF services.settles_ensureSame [OF assms(1,2) app(3)]],
        rule settles_routed_serviceUrl [OF assms(1,2) app(1,2)])
qed

lemma wp_openshift_pass:
  fixes lookup :: "'w \<Rightarrow> key \<Rightarrow> obj option"
  assumes "api_reads r lookup" and "owns r cr" and "steady_routed r cr (lookup (st_world s)) cfg"
  shows "wp (reconcileCr r cr)
    (\<lambda>x t. \<exists>status. passed lookup cr status s x t \<and> Status_Status status = ''Ready''
       \<and> Status_KeycloakUrl status = keycloak_routed_url cr (lookup (st_world s)) cfg
       \<and> Status_PublicUrl status = route_url (lookup (st_world s)) (app_route cr cfg)) s"
proof -
  let ?v = "lookup (st_world s)"
  have tls: "stored_tls cr ?v = Some cfg" and ty: "route_type_ok cr"
    and cm: "settled ?v (ConfigMapObj (injectedCaConfigMap cr)) nocompare nocheck"
    and secrets: "list_all (has_secret ?v (Namespace cr)) (operatorSecrets cr)"
    and pg: "postgres_ready checkPod r cr ?v" and kc: "keycloak_routed checkPod r cr ?v cfg"
    and app: "app_routed checkPod r cr ?v cfg"
    and ports: "Spec_NodeHost (Spec cr) \<noteq> [] \<or> Kc_ServiceType (Keycloak cr) \<noteq> ServiceTypeNodePort"
    using assms(3) by (simp_all add: stable_routed_def)
  have type: "by_route r (Spec_ServiceType (Spec cr))" using app by (simp add: app_routed_def)
  note routes = by_route_simps(1) [OF type]
  have certs: "settles lookup ?v (reconcileCerts r cr) ()"
    using routes unfolding reconcileCerts_def
    by (auto intro!: settles_then [OF kept.settles_ensureSame [OF assms(1,2) cm]] settles_ok)
  have rt: "settles lookup ?v (keycloakRoute cr r) (Some (keycloak_route cr cfg))"
    using ty settles_route [OF assms(1) tls routes]
    by (auto simp: keycloakRoute_def Let_def route_type_ok_def)
  show ?thesis
  proof (rule wp_settled_pass [where v = ?v, OF assms(1,2) refl _ certs secrets pg rt
        settles_routed_keycloakUrl [OF assms(1,2) kc] settles_routed_keycloakPod [OF assms(1,2) kc routes]
        settles_routed_appUrl [OF assms(1,2) tls app]])
  qed (use app ports routes by_route_simps(2) [OF type] in
      \<open>auto simp: app_routed_def isNodePort_def\<close>)
qed

text \<open>
  C5: a pass on OpenShift is idempotent. If the cluster holds the injected CA bundle, complete
  secrets, matching services and healthy pods, and routes that are as asked for, admitted by the router
  and have an address, then the pass reads only, leaves the view of the cluster as it is, asks
  for no other pass, and its last call reports \<^verbatim>\<open>Ready\<close> with the addresses of the two routes.
\<close>

theorem openshift_pass_is_idle:
  fixes lookup :: "'w \<Rightarrow> key \<Rightarrow> obj option"
  assumes "api_reads r lookup" and "owns r cr" and "steady_routed r cr (lookup (st_world s)) cfg"
  shows "wp (reconcileCr r cr)
    (\<lambda>x t. \<exists>status. passed lookup cr status s x t \<and> Status_Status status = ''Ready''
       \<and> Status_KeycloakUrl status = keycloak_routed_url cr (lookup (st_world s)) cfg
       \<and> Status_PublicUrl status = route_url (lookup (st_world s)) (app_route cr cfg)) s"
  by (rule wp_openshift_pass [OF assms])

end
