(* ===== verification/Rollout.thy ===== *)
theory Rollout
  imports Install Openshift
begin

text \<open>
  The stages of a pass over an arbitrary OpenShift cluster, with the rules of \<^verbatim>\<open>Converge\<close>. The router
  gives a route its address only after the operator has created it, so a pass gets as far as
  the addresses that are known when it starts.
\<close>

section \<open>What convergence asks of the resource\<close>

text \<open>
  Both components are reached through routes, unless there is an external Keycloak with a valid
  address; no two secrets of the resource have the same name, and the user's certificate is not one
  of them.
\<close>

definition routable :: "'w HorreumReconciler \<Rightarrow> Horreum \<Rightarrow> bool" where
  "routable r cr \<longleftrightarrow> RoutesAvailable r \<and> route_type_ok cr \<and> by_route r (Spec_ServiceType (Spec cr))
     \<and> (if publicUri cr = [] then by_route r (Kc_ServiceType (Keycloak cr))
        else parse_request_uri (publicUri cr) \<noteq> None)
     \<and> (Spec_NodeHost (Spec cr) \<noteq> [] \<or> Kc_ServiceType (Keycloak cr) \<noteq> ServiceTypeNodePort)
     \<and> names_apart cr
     \<and> (Route_TLS (Spec_Route (Spec cr)) \<noteq> [] \<longrightarrow>
          Route_TLS (Spec_Route (Spec cr)) \<notin> fst ` set (operatorSecrets cr))"

section \<open>Routes\<close>

lemma route_object_key:
  "obj_key (RouteObj (route_object rs sfx cr cfg)) = (KRoute, Namespace cr, Name cr @ sfx)"
  by (simp add: obj_key_def obj_name_def obj_namespace_def route_object_def)

lemma app_route_key: "obj_key (RouteObj (app_route cr cfg)) = (KRoute, Namespace cr, Name cr)"
  by (simp add: route_object_key)

lemma fills_route:
  assumes "platform r cr lookup filled" and "rt_ingress rt = []"
  shows "acceptable r cr (filled (set_owners os (RouteObj rt)))"
    and "compareRoute (RouteObj rt) (filled (set_owners os (RouteObj rt)))"
proof -
  let ?rt = "rt\<lparr>rt_meta := (rt_meta rt)\<lparr>om_owners := os\<rparr>\<rparr>"
  obtain rt' where "filled (RouteObj ?rt) = RouteObj rt'" "rt_host ?rt \<noteq> [] \<longrightarrow> rt_host rt' = rt_host ?rt"
      "rt_subdomain rt' = rt_subdomain ?rt" "rt_tls rt' = rt_tls ?rt" "rt_ingress rt' = rt_ingress ?rt"
    using platformD(3) [OF assms(1)] unfolding fills_def by blast
  then show "acceptable r cr (filled (set_owners os (RouteObj rt)))"
    and "compareRoute (RouteObj rt) (filled (set_owners os (RouteObj rt)))"
    using assms(2) by (auto simp: compareRoute_def)
qed

text \<open>The address of an acceptable route is empty or parses.\<close>

lemma acceptable_url_parses:
  assumes "acceptable r cr out" and "RoutesAvailable r" and "foundRouteUrl (Some out) \<noteq> []"
  shows "parse_request_uri (foundRouteUrl (Some out)) \<noteq> None"
proof -
  obtain rt where rt: "out = RouteObj rt" "getRouteUrl rt \<noteq> []"
    using assms(3) by (cases out) (auto simp: foundRouteUrl_def)
  then obtain ing rest where "rt_ingress rt = ing # rest" "ri_host ing \<noteq> []"
      "getRouteUrl rt = ifThenElse (rt_tls rt \<noteq> None) ''https'' ''http'' @ ''://'' @ ri_host ing"
    by (auto simp: getRouteUrl_def split: list.splits if_splits)
  then show ?thesis
    using assms(1,2) rt(1) parse_scheme_host [of "ri_host ing" "ifThenElse (rt_tls rt \<noteq> None) ''https'' ''http''"]
    by (simp add: foundRouteUrl_def ifThenElse_def del: append.simps split: if_splits)
qed

lemma achieves_route:
  assumes "platform r cr lookup filled" and "wanted r cr (RouteObj rt)" and "rt_ingress rt = []"
  shows "achieves r cr lookup filled {obj_key (RouteObj rt)} P
    (ensureSame r cr (Some (RouteObj rt)) compareRoute checkRoute)
    (\<lambda>x v. settled v (RouteObj rt) compareRoute nocheck \<and> pred_option (acceptable r cr) x)"
  by (rule routes.achieves_ensureSame_found [OF assms(1,2) fills_route [OF assms(1,3)]]) (simp_all add: nocheck_def)

lemma admitted_settled: "admitted v rt \<Longrightarrow> settled v (RouteObj rt) compareRoute nocheck"
  by (auto simp: admitted_def settled_def nocheck_def split: option.splits)

lemma admitted_url_parses:
  assumes "cluster_ok r cr v" and "RoutesAvailable r" and "admitted v rt"
  shows "parse_request_uri (route_url v rt) \<noteq> None"
proof -
  obtain out where out: "v (obj_key (RouteObj rt)) = Some out"
    using assms(3) by (auto simp: admitted_def settled_def split: option.splits)
  then show ?thesis
    using cluster_okD [OF assms(1) out] acceptable_url_parses [OF _ assms(2), of cr out] assms(3)
    by (simp add: admitted_def route_url_def)
qed

section \<open>Addresses\<close>

lemma achieves_waiting:
  assumes "api_reads r lookup" and "\<And>v. cluster_ok r cr v \<Longrightarrow> P v \<Longrightarrow> Q (Inl (Result True)) v"
  shows "achieves r cr lookup filled K P (waiting r cr reason) Q"
  unfolding waiting_def updateStatus_def
  by (simp add: assms achieves_setStatus achieves_statusUpdate achieves_ok)

text \<open>
  The address of a service with a route. \<open>k\<close> stands for whether it is known when the stage
  starts; if it is not, the stage may still see the address of a route that it replaces.
\<close>

lemma achieves_routed_serviceUrl:
  assumes pf: "platform r cr lookup filled" and wanted: "wanted r cr (RouteObj rt)" and ty: "by_route r ty"
    and rt: "rt_ingress rt = []"
  shows "achieves r cr lookup filled {obj_key (RouteObj rt)} (\<lambda>v. k \<longrightarrow> admitted v rt)
    (serviceUrl r cr ty service (Some rt) p u)
    (\<lambda>x v. settled v (RouteObj rt) compareRoute nocheck \<and> (k \<longrightarrow> admitted v rt \<and> x = Inr (route_url v rt))
       \<and> (\<forall>url. x = Inr url \<longrightarrow> parse_request_uri url \<noteq> None))"
proof (cases k)
  case True
  have "achieves r cr lookup filled {obj_key (RouteObj rt)} (\<lambda>v. admitted v rt) (serviceUrl r cr ty service (Some rt) p u)
      (\<lambda>x v. x = Inr (route_url v rt) \<and> admitted v rt)"
    by (rule achieves_settles) (rule settles_routed_serviceUrl [OF platformD(1,6) [OF pf] ty])
  then show ?thesis
    by (rule achieves_weaken)
      (use True by_route_simps(1) [OF ty] in \<open>auto simp: admitted_settled dest: admitted_url_parses\<close>)
next
  case False
  let ?K = "{obj_key (RouteObj rt)}" and ?S = "\<lambda>v. settled v (RouteObj rt) compareRoute nocheck"
  have url: "achieves r cr lookup filled ?K (\<lambda>_. True)
      (and_then (ensureSame r cr (Some (RouteObj rt)) compareRoute checkRoute) (\<lambda>found. ok (foundRouteUrl found)))
      (\<lambda>url v. ?S v \<and> (url \<noteq> [] \<longrightarrow> parse_request_uri url \<noteq> None))"
  proof (rule achieves_then [OF achieves_route [OF pf wanted rt]], rule achieves_ok, elim conjE, intro conjI impI)
    fix found
    assume "pred_option (acceptable r cr) found" and "foundRouteUrl found \<noteq> []"
    then show "parse_request_uri (foundRouteUrl found) \<noteq> None"
      using acceptable_url_parses [OF _ by_route_simps(1) [OF ty]]
      by (cases found) (auto simp: foundRouteUrl_def)
  qed
  have "achieves r cr lookup filled ?K (\<lambda>_. True)
      (and_then (and_then (ensureSame r cr (Some (RouteObj rt)) compareRoute checkRoute)
        (\<lambda>found. ok (foundRouteUrl found))) (\<lambda>url. if url = [] then waiting r cr u else ok (Inr url)))
      (\<lambda>x v. ?S v \<and> (\<forall>url. x = Inr url \<longrightarrow> parse_request_uri url \<noteq> None))"
    by (rule achieves_then [OF url]) (simp add: achieves_waiting [OF platformD(1) [OF pf]] achieves_ok)
  then show ?thesis
    using False by_route_simps [OF ty] by (simp add: serviceUrl_def)
qed

section \<open>Keycloak\<close>

definition kc_known :: "Horreum \<Rightarrow> view \<Rightarrow> tls_config option \<Rightarrow> bool" where
  "kc_known cr v cfg \<longleftrightarrow> (publicUri cr = [] \<longrightarrow> admitted v (keycloak_route cr cfg))"

definition kc_stored :: "'w HorreumReconciler \<Rightarrow> Horreum \<Rightarrow> view \<Rightarrow> tls_config option \<Rightarrow> bool" where
  "kc_stored r cr v cfg \<longleftrightarrow> (publicUri cr = [] \<longrightarrow>
     settled v (ServiceObj (keycloakService cr r)) compareService nocheck
     \<and> settled v (RouteObj (keycloak_route cr cfg)) compareRoute nocheck)"

abbreviation kc_keys :: "Horreum \<Rightarrow> key set" where
  "kc_keys cr \<equiv> insert (KRoute, Namespace cr, Name cr @ ''-keycloak'') (keycloak_keys cr)"

lemma route_object_ingress [simp]: "rt_ingress (route_object rs sfx cr cfg) = []"
  by (simp add: route_object_def)

lemma admitted_kept:
  "kept_outside K v v' \<Longrightarrow> obj_key (RouteObj rt) \<notin> K \<Longrightarrow>
   admitted v' rt = admitted v rt \<and> route_url v' rt = route_url v rt"
  by (simp add: admitted_def settled_def route_url_def kept_outsideD)

lemma achieves_routed_keycloakUrl:
  assumes pf: "platform r cr lookup filled" and inst: "routable r cr"
  shows "achieves r cr lookup filled (kc_keys cr) (\<lambda>v. k \<longrightarrow> kc_known cr v cfg)
    (keycloakUrl r cr (Some (keycloak_route cr cfg)))
    (\<lambda>x v. (kc_stored r cr v cfg \<and> (k \<longrightarrow> kc_known cr v cfg \<and> x = Inr (keycloak_routed_url cr v cfg)))
       \<and> (\<forall>url. x = Inr url \<longrightarrow> parse_request_uri url \<noteq> None \<and> (publicUri cr \<noteq> [] \<longrightarrow> url = publicUri cr)))"
proof (cases "publicUri cr = []")
  case True
  let ?svc = "ServiceObj (keycloakService cr r)" and ?rt = "keycloak_route cr cfg"
  let ?S = "\<lambda>v. settled v ?svc compareService nocheck"
  have ty: "by_route r (Kc_ServiceType (Keycloak cr))" using inst True by (simp add: routable_def)
  note wanted = wanted.kc_service [OF True] wanted.kc_route [OF True by_route_simps(1) [OF ty]]
  have svc: "achieves r cr lookup filled (kc_keys cr) (\<lambda>v. k \<longrightarrow> admitted v ?rt)
      (ensureSame r cr (Some ?svc) compareService nocheck) (\<lambda>_ v. (k \<longrightarrow> admitted v ?rt) \<and> ?S v)"
    by (rule achieves_stage [OF achieves_service [OF pf wanted(1) fresh_services(2)]])
      (simp_all add: object_keys route_object_key admitted_kept)
  have url: "achieves r cr lookup filled (kc_keys cr) (\<lambda>v. (k \<longrightarrow> admitted v ?rt) \<and> ?S v)
      (serviceUrl r cr (Kc_ServiceType (Keycloak cr)) (keycloakService cr r) (Some ?rt) p u)
      (\<lambda>x v. (settled v (RouteObj ?rt) compareRoute nocheck \<and> (k \<longrightarrow> admitted v ?rt \<and> x = Inr (route_url v ?rt))
         \<and> (\<forall>url. x = Inr url \<longrightarrow> parse_request_uri url \<noteq> None)) \<and> ?S v)" for p u
    by (rule achieves_weaken [OF achieves_frame [where R = ?S, OF achieves_routed_serviceUrl [OF pf wanted(2) ty]]])
      (auto simp: object_keys route_object_key settled_kept)
  show ?thesis
    unfolding keycloakUrl_def if_P [OF True]
    by (rule achieves_weaken [OF achieves_then [OF svc url]])
      (auto simp: True kc_known_def kc_stored_def keycloak_routed_url_def)
next
  case False
  then show ?thesis
    using inst by (auto simp: keycloakUrl_def routable_def kc_known_def kc_stored_def keycloak_routed_url_def
        intro: achieves_ok)
qed

text \<open>What the stage of the pod needs to know of the address it is given.\<close>

definition kc_address :: "Horreum \<Rightarrow> view \<Rightarrow> tls_config option \<Rightarrow> bool \<Rightarrow> string \<Rightarrow> bool" where
  "kc_address cr v cfg k url \<longleftrightarrow> parse_request_uri url \<noteq> None \<and> (publicUri cr \<noteq> [] \<longrightarrow> url = publicUri cr)
     \<and> (k \<longrightarrow> kc_known cr v cfg \<and> url = keycloak_routed_url cr v cfg)"

lemma kc_stored_kept:
  "kept_outside K v v' \<Longrightarrow> (KService, Namespace cr, Name cr @ ''-keycloak'') \<notin> K \<Longrightarrow>
   (KRoute, Namespace cr, Name cr @ ''-keycloak'') \<notin> K \<Longrightarrow>
   kc_stored r cr v' cfg = kc_stored r cr v cfg \<and> kc_address cr v' cfg k url = kc_address cr v cfg k url
   \<and> kc_known cr v' cfg = kc_known cr v cfg \<and> keycloak_routed_url cr v' cfg = keycloak_routed_url cr v cfg"
  by (simp add: kc_stored_def kc_address_def kc_known_def keycloak_routed_url_def settled_kept object_keys
      route_object_key admitted_kept)

text \<open>What is read from enabled components does not depend on what is swept.\<close>

lemma swept_admitted:
  assumes "obj_key (RouteObj rt) \<notin> set (disabledKeys r cr)"
  shows "admitted (swept r cr v) rt = admitted v rt" and "route_url (swept r cr v) rt = route_url v rt"
  using assms by (simp_all add: admitted_def swept_settled route_url_def swept_same)

lemma swept_routed_url: "keycloak_routed_url cr (swept r cr v) cfg = keycloak_routed_url cr v cfg"
  by (simp add: keycloak_routed_url_def swept_admitted route_object_key enabled_keys)

lemma swept_app_routed: "app_routed chk r cr (swept r cr v) cfg = app_routed chk r cr v cfg"
  by (simp add: app_routed_def swept_routed_url swept_settled swept_admitted object_keys route_object_key
      app_route_key enabled_keys)

lemma swept_stored_tls: "stored_tls cr (swept r cr v) = stored_tls cr v"
  by (simp add: stored_tls_def Let_def swept_same enabled_keys)

text \<open>With an external Keycloak the stage deletes; otherwise it deploys the pod.\<close>

lemma achieves_external_keycloak:
  assumes pf: "platform r cr lookup filled" and inst: "routable r cr" and ext: "publicUri cr \<noteq> []"
    and pod: "keycloakPod cr url = Some pod"
  shows "achieves r cr lookup filled (kc_keys cr) (\<lambda>_. url = publicUri cr)
    (reconcileKeycloakPod r cr (Some (keycloak_route cr cfg)) url)
    (\<lambda>_ v. url = publicUri cr \<and> keycloak_routed nocheck r cr (swept r cr v) cfg)"
proof -
  let ?pod = "PodObj pod" and ?svc = "ServiceObj (keycloakService cr r)" and ?rt = "RouteObj (keycloak_route cr cfg)"
  let ?P0 = "\<lambda>v :: view. url = publicUri cr" and ?K = "kc_keys cr"
  let ?P1 = "\<lambda>v. swept r cr v (obj_key ?pod) = None \<and> ?P0 v"
  let ?P2 = "\<lambda>v. swept r cr v (obj_key ?svc) = None \<and> ?P1 v"
  have routes: "RoutesAvailable r" using inst by (simp add: routable_def)
  have rt: "obj_key ?rt \<in> set (disabledKeys r cr)"
    using ext routes by (simp add: route_object_key disabledKeys_def)
  note key = object_keys(8) [OF pod] object_keys(4) [of cr r] route_object_key
  note del = achieves_stage [OF achieves_ensureDeleted [OF pf singletonI]]
  have 1: "achieves r cr lookup filled ?K ?P0 (ensureDeleted r cr (Some ?pod)) (\<lambda>_. ?P1)"
    by (rule del [OF disabled_objects(3) [OF ext pod]]) (auto simp: key)
  have 2: "achieves r cr lookup filled ?K ?P1 (ensureDeleted r cr (Some ?svc)) (\<lambda>_. ?P2)"
    by (rule del [OF disabled_objects(4) [OF ext]]) (auto simp: key swept_kept)
  have 3: "achieves r cr lookup filled ?K ?P2 (ensureDeleted r cr (Some ?rt))
      (\<lambda>_ v. url = publicUri cr \<and> keycloak_routed nocheck r cr (swept r cr v) cfg)"
    by (rule del [OF rt]) (use ext pod in \<open>auto simp: key swept_kept keycloak_routed_def keycloak_routed_url_def\<close>)
  show ?thesis
    using achieves_then [OF 1 achieves_then [OF 2 3]] ext inst
    unfolding reconcileKeycloakPod_def Let_def pod by (simp add: routable_def)
qed

lemma achieves_routed_keycloakPod:
  assumes pf: "platform r cr lookup filled" and inst: "routable r cr"
  shows "achieves r cr lookup filled (kc_keys cr) (\<lambda>v. kc_stored r cr v cfg \<and> kc_address cr v cfg k url)
    (reconcileKeycloakPod r cr (Some (keycloak_route cr cfg)) url)
    (\<lambda>_ v. kc_stored r cr v cfg \<and> kc_address cr v cfg k url \<and> (k \<longrightarrow> keycloak_routed nocheck r cr (swept r cr v) cfg))"
proof (cases "keycloakPod cr url")
  case None
  then have "parse_request_uri url = None"
    by (auto simp: keycloakPod_def Let_def split: option.splits)
  then show ?thesis by (simp add: achieves_def kc_address_def)
next
  case (Some pod)
  let ?P = "\<lambda>v. kc_stored r cr v cfg \<and> kc_address cr v cfg k url"
  show ?thesis
  proof (cases "publicUri cr = []")
    case True
    have routed: "keycloakPod cr (keycloak_routed_url cr v cfg) = Some pod" if "kc_address cr v cfg k url" "k" for v
      using that Some by (simp add: kc_address_def)
    have P: "?P v'" if "?P v" "kept_outside {obj_key (PodObj pod)} v v'" for v v'
      using that kc_stored_kept [OF that(2), of cr r cfg k url] by (simp add: object_keys(8) [OF Some])
    have "achieves r cr lookup filled (kc_keys cr) ?P (ensureSame r cr (Some (PodObj pod)) (comparePods r) checkPod)
        (\<lambda>_ v. ?P v \<and> (k \<longrightarrow> keycloak_routed nocheck r cr (swept r cr v) cfg))"
      by (rule achieves_stage [OF achieves_pod [OF pf wanted.kc_pod [OF True Some] fresh_pods(6) [OF Some]]], simp add: object_keys(8) [OF Some],
          erule (1) P)
        (use True inst routed in \<open>auto simp: keycloak_routed_def kc_address_def kc_known_def kc_stored_def routable_def
          swept_routed_url swept_settled swept_admitted object_keys(4) object_keys(8) [OF Some] route_object_key enabled_keys\<close>)
    then show ?thesis
      unfolding reconcileKeycloakPod_def Let_def Some
      using True by (auto intro!: achieves_then achieves_ok)
  next
    case False
    have "parse_request_uri url \<noteq> None"
      using Some by (auto simp: keycloakPod_def Let_def split: option.splits)
    then have P: "?P v \<longleftrightarrow> url = publicUri cr" for v
      using False by (auto simp: kc_stored_def kc_address_def kc_known_def keycloak_routed_url_def)
    show ?thesis
      by (rule achieves_weaken [OF achieves_external_keycloak [where cfg = cfg, OF pf inst False Some] subset_refl])
        (use P in blast)+
  qed
qed

section \<open>Horreum\<close>

definition app_stored :: "'w HorreumReconciler \<Rightarrow> Horreum \<Rightarrow> view \<Rightarrow> tls_config option \<Rightarrow> bool" where
  "app_stored r cr v cfg \<longleftrightarrow> settled v (ServiceObj (appService cr r)) compareService nocheck
     \<and> settled v (RouteObj (app_route cr cfg)) compareRoute nocheck"

abbreviation horreum_keys :: "Horreum \<Rightarrow> key set" where
  "horreum_keys cr \<equiv> insert (KRoute, Namespace cr, Name cr) (app_keys cr)"

text \<open>The secret with the user's certificate is not one that a pass changes.\<close>

lemma stored_tls_kept:
  assumes "kept_outside K v v'"
    and "Route_TLS (Spec_Route (Spec cr)) \<noteq> [] \<longrightarrow> (KSecret, Namespace cr, Route_TLS (Spec_Route (Spec cr))) \<notin> K"
  shows "stored_tls cr v' = stored_tls cr v"
  using assms by (simp add: stored_tls_def Let_def kept_outsideD)

lemma achieves_routed_appUrl:
  assumes pf: "platform r cr lookup filled" and inst: "routable r cr"
  shows "achieves r cr lookup filled (horreum_keys cr)
    (\<lambda>v. stored_tls cr v = Some cfg \<and> (a \<longrightarrow> admitted v (app_route cr cfg))) (appUrl r cr)
    (\<lambda>x v. app_stored r cr v cfg
       \<and> (a \<longrightarrow> admitted v (app_route cr cfg) \<and> x = Inr (route_url v (app_route cr cfg))))"
proof -
  let ?svc = "ServiceObj (appService cr r)" and ?rt = "app_route cr cfg" and ?K = "horreum_keys cr"
  let ?A = "\<lambda>v. a \<longrightarrow> admitted v ?rt" and ?S = "\<lambda>v. settled v ?svc compareService nocheck"
  have ty: "by_route r (Spec_ServiceType (Spec cr))" using inst by (simp add: routable_def)
  have rt: "achieves r cr lookup filled ?K (\<lambda>v. stored_tls cr v = Some cfg \<and> ?A v) (appRoute cr r)
      (\<lambda>x v. x = Some ?rt \<and> stored_tls cr v = Some cfg \<and> ?A v)"
    unfolding appRoute_def
    by (rule achieves_settles)
      (simp add: settles_route [OF platformD(1) [OF pf] _ by_route_simps(1) [OF ty]])
  have svc: "achieves r cr lookup filled ?K (\<lambda>v. x = Some ?rt \<and> stored_tls cr v = Some cfg \<and> ?A v)
      (ensureSame r cr (Some ?svc) compareService nocheck) (\<lambda>_ v. x = Some ?rt \<and> ?A v \<and> ?S v)" for x
    by (rule achieves_stage [OF achieves_service [OF pf wanted.app_service fresh_services(3)]])
      (auto simp: object_keys app_route_key admitted_kept stored_tls_kept)
  have url: "achieves r cr lookup filled ?K (\<lambda>v. ?A v \<and> ?S v)
      (serviceUrl r cr (Spec_ServiceType (Spec cr)) (appService cr r) (Some ?rt) p u)
      (\<lambda>x v. app_stored r cr v cfg \<and> (a \<longrightarrow> admitted v ?rt \<and> x = Inr (route_url v ?rt)))" for p u
    by (rule achieves_weaken [OF achieves_frame [where R = ?S, OF achieves_routed_serviceUrl [OF pf wanted.app_route [OF by_route_simps(1) [OF ty]] ty]]])
      (auto simp: object_keys app_route_key settled_kept app_stored_def)
  have url': "achieves r cr lookup filled ?K (\<lambda>v. x = Some ?rt \<and> ?A v \<and> ?S v)
      (serviceUrl r cr (Spec_ServiceType (Spec cr)) (appService cr r) x p u)
      (\<lambda>x v. app_stored r cr v cfg \<and> (a \<longrightarrow> admitted v ?rt \<and> x = Inr (route_url v ?rt)))" for x p u
    using url by (cases "x = Some ?rt") (auto simp: achieves_def)
  show ?thesis
    unfolding appUrl_def by (rule achieves_then [OF rt], rule achieves_then [OF svc], rule url')
qed

lemma app_stored_kept:
  "kept_outside K v v' \<Longrightarrow> (KService, Namespace cr, Name cr) \<notin> K \<Longrightarrow> (KRoute, Namespace cr, Name cr) \<notin> K \<Longrightarrow>
   app_stored r cr v' cfg = app_stored r cr v cfg"
  by (simp add: app_stored_def settled_kept object_keys app_route_key)

lemma achieves_routed_reconcileApp:
  assumes pf: "platform r cr lookup filled"
  shows "achieves r cr lookup filled (horreum_keys cr)
    (\<lambda>v. app_stored r cr v cfg \<and> (a \<longrightarrow> admitted v (app_route cr cfg) \<and> aurl = route_url v (app_route cr cfg)))
    (reconcileApp r cr url aurl)
    (\<lambda>x v. app_stored r cr v cfg \<and> x = Result False \<and> (a \<longrightarrow> admitted v (app_route cr cfg)
       \<and> settled v (PodObj (appPod cr url (route_url v (app_route cr cfg)))) (comparePods r) nocheck
       \<and> settled v (ConfigMapObj (uploadConfig cr)) nocompare nocheck))"
proof -
  let ?pod = "PodObj (appPod cr url aurl)" and ?cm = "ConfigMapObj (uploadConfig cr)" and ?K = "horreum_keys cr"
  let ?P = "\<lambda>v. app_stored r cr v cfg \<and> (a \<longrightarrow> admitted v (app_route cr cfg) \<and> aurl = route_url v (app_route cr cfg))"
  let ?Q = "\<lambda>v. ?P v \<and> settled v ?pod (comparePods r) nocheck"
  have pod: "achieves r cr lookup filled ?K ?P (ensureSame r cr (Some ?pod) (comparePods r) checkPod) (\<lambda>_. ?Q)"
    by (rule achieves_stage [OF achieves_pod [OF pf wanted.app_pod fresh_pods(4)]])
      (simp_all add: object_keys app_route_key admitted_kept app_stored_kept)
  have cm: "achieves r cr lookup filled ?K ?Q (ensureSame r cr (Some ?cm) nocompare nocheck)
      (\<lambda>_ v. ?Q v \<and> settled v ?cm nocompare nocheck)"
    by (rule achieves_stage [OF achieves_config_map(2) [OF pf wanted.app_upload]])
      (simp_all add: object_keys app_route_key admitted_kept app_stored_kept settled_kept)
  show ?thesis
    unfolding reconcileApp_def
    by (rule achieves_then [OF pod], rule achieves_then [OF cm],
        rule achieves_statusUpdate [OF platformD(1) [OF pf]], rule achieves_ok) auto
qed

section \<open>The pass\<close>

text \<open>
  What is known when a pass starts: the TLS settings, and (if \<open>k\<close>, \<open>a\<close>) the addresses of the routes.
  What the pass has deployed then.
\<close>

definition known :: "bool \<Rightarrow> bool \<Rightarrow> Horreum \<Rightarrow> tls_config option \<Rightarrow> view \<Rightarrow> bool" where
  "known k a cr cfg v \<longleftrightarrow> stored_tls cr v = Some cfg \<and> (k \<longrightarrow> kc_known cr v cfg)
     \<and> (a \<longrightarrow> admitted v (app_route cr cfg))"

definition workloads ::
  "bool \<Rightarrow> bool \<Rightarrow> 'w HorreumReconciler \<Rightarrow> Horreum \<Rightarrow> tls_config option \<Rightarrow> ctrl_result \<Rightarrow> view \<Rightarrow> bool" where
  "workloads k a r cr cfg x v \<longleftrightarrow> kc_stored r cr v cfg
     \<and> (k \<longrightarrow> keycloak_routed nocheck r cr (swept r cr v) cfg \<and> app_stored r cr v cfg
          \<and> (a \<longrightarrow> x = Result False \<and> app_routed nocheck r cr v cfg))"

lemma keycloak_routed_kept:
  "kept_outside K v v' \<Longrightarrow> kc_keys cr \<inter> K = {} \<Longrightarrow>
   keycloak_routed chk r cr v' cfg = keycloak_routed chk r cr v cfg"
  using kc_stored_kept [of K v v' cr r cfg]
  by (auto simp: keycloak_routed_def settled_kept object_keys route_object_key admitted_kept kept_outsideD
      split: option.split)

lemma achieves_routed_application:
  assumes pf: "platform r cr lookup filled" and inst: "routable r cr"
  shows "achieves r cr lookup filled (horreum_keys cr)
    (\<lambda>v. known k a cr cfg v \<and> kc_stored r cr v cfg \<and> kc_address cr v cfg k url
       \<and> (k \<longrightarrow> keycloak_routed nocheck r cr (swept r cr v) cfg))
    (reconcileApplication r cr url) (workloads k a r cr cfg)"
proof -
  let ?K = "horreum_keys cr" and ?rt = "app_route cr cfg"
  let ?R = "\<lambda>v. kc_stored r cr v cfg \<and> kc_address cr v cfg k url \<and> (k \<longrightarrow> keycloak_routed nocheck r cr (swept r cr v) cfg)"
  have R: "?R v'" if "?R v" "kept_outside ?K v v'" for v v'
    using that(1) kc_stored_kept [OF that(2), of cr r cfg k url] keycloak_routed_kept [OF kept_outside_swept [OF that(2), of r cr], where cr = cr and chk = nocheck and r = r and cfg = cfg]
    by simp
  have url: "achieves r cr lookup filled ?K (\<lambda>v. (stored_tls cr v = Some cfg \<and> (a \<longrightarrow> admitted v ?rt)) \<and> ?R v) (appUrl r cr)
      (\<lambda>x v. (app_stored r cr v cfg \<and> (a \<longrightarrow> admitted v ?rt \<and> x = Inr (route_url v ?rt))) \<and> ?R v)"
    by (rule achieves_frame [OF achieves_routed_appUrl [OF pf inst]]) (erule (1) R)
  have app: "achieves r cr lookup filled ?K
      (\<lambda>v. (app_stored r cr v cfg \<and> (a \<longrightarrow> admitted v ?rt \<and> aurl = route_url v ?rt)) \<and> ?R v)
      (reconcileApp r cr url aurl) (workloads k a r cr cfg)" for aurl
  proof (rule achieves_weaken [OF achieves_frame [where R = ?R, OF achieves_routed_reconcileApp [OF pf]] subset_refl])
    fix x v
    assume "(app_stored r cr v cfg \<and> x = Result False \<and> (a \<longrightarrow> admitted v ?rt
       \<and> settled v (PodObj (appPod cr url (route_url v ?rt))) (comparePods r) nocheck
       \<and> settled v (ConfigMapObj (uploadConfig cr)) nocompare nocheck)) \<and> ?R v"
    moreover have "by_route r (Spec_ServiceType (Spec cr))" using inst by (simp add: routable_def)
    ultimately show "workloads k a r cr cfg x v"
      unfolding workloads_def app_routed_def app_stored_def kc_address_def by metis
  qed (erule (1) R)
  have early: "achieves r cr lookup filled ?K (\<lambda>v. (stored_tls cr v = Some cfg \<and> (a \<longrightarrow> admitted v ?rt)) \<and> ?R v) (appUrl r cr)
      (\<lambda>x v. case x of Inl q \<Rightarrow> workloads k a r cr cfg q v
         | Inr aurl \<Rightarrow> (app_stored r cr v cfg \<and> (a \<longrightarrow> admitted v ?rt \<and> aurl = route_url v ?rt)) \<and> ?R v)"
    by (rule achieves_weaken [OF url]) (auto simp: workloads_def split: sum.splits)
  have "achieves r cr lookup filled ?K (\<lambda>v. (stored_tls cr v = Some cfg \<and> (a \<longrightarrow> admitted v ?rt)) \<and> ?R v)
      (reconcileApplication r cr url) (workloads k a r cr cfg)"
    unfolding reconcileApplication_def by (rule achieves_early [OF early achieves_set_url(1) [OF app]])
  then show ?thesis
    by (rule achieves_weaken) (auto simp: known_def)
qed

lemma known_kept:
  assumes "kept_outside K v v'"
    and "Route_TLS (Spec_Route (Spec cr)) \<noteq> [] \<longrightarrow> (KSecret, Namespace cr, Route_TLS (Spec_Route (Spec cr))) \<notin> K"
    and "(KRoute, Namespace cr, Name cr @ ''-keycloak'') \<notin> K" and "(KRoute, Namespace cr, Name cr) \<notin> K"
  shows "known k a cr cfg v' = known k a cr cfg v"
  using stored_tls_kept [OF assms(1,2)] admitted_kept [OF assms(1)] assms(3,4)
  by (simp add: known_def kc_known_def route_object_key)

lemma achieves_routed_keycloak:
  assumes pf: "platform r cr lookup filled" and inst: "routable r cr"
  shows "achieves r cr lookup filled (kc_keys cr \<union> horreum_keys cr) (known k a cr cfg) (reconcileKeycloak r cr)
    (workloads k a r cr cfg)"
proof -
  let ?K = "kc_keys cr \<union> horreum_keys cr" and ?rt = "keycloak_route cr cfg"
  let ?R = "\<lambda>v. stored_tls cr v = Some cfg \<and> (a \<longrightarrow> admitted v (app_route cr cfg))"
  let ?A = "\<lambda>url v. kc_stored r cr v cfg \<and> kc_address cr v cfg k url"
  have R: "?R v'" if "?R v" "kept_outside (kc_keys cr) v v'" for v v'
    using that(1) stored_tls_kept [OF that(2)] admitted_kept [OF that(2), of "app_route cr cfg"]
    by (simp add: app_route_key)
  have rt: "achieves r cr lookup filled ?K (known k a cr cfg) (keycloakRoute cr r)
      (\<lambda>x v. x = Some ?rt \<and> known k a cr cfg v)"
  proof (rule achieves_settles)
    fix v assume "known k a cr cfg v"
    then show "settles lookup v (keycloakRoute cr r) (Some ?rt)"
      using inst settles_route [OF platformD(1) [OF pf], of cr v cfg]
      by (auto simp: keycloakRoute_def Let_def known_def routable_def route_type_ok_def)
  qed
  have url: "achieves r cr lookup filled ?K (known k a cr cfg) (keycloakUrl r cr (Some ?rt))
      (\<lambda>x v. case x of Inl q \<Rightarrow> workloads k a r cr cfg q v | Inr url \<Rightarrow> ?A url v \<and> ?R v)"
    by (rule achieves_weaken [OF achieves_frame [where R = ?R, OF achieves_routed_keycloakUrl [OF pf inst, where k = k] R]])
      (auto simp: known_def kc_address_def workloads_def split: sum.splits)
  have pod: "achieves r cr lookup filled ?K (\<lambda>v. ?A url v \<and> ?R v) (reconcileKeycloakPod r cr (Some ?rt) url)
      (\<lambda>_ v. (kc_stored r cr v cfg \<and> kc_address cr v cfg k url \<and> (k \<longrightarrow> keycloak_routed nocheck r cr (swept r cr v) cfg)) \<and> ?R v)"
    for url
    by (rule achieves_weaken [OF achieves_frame [where R = ?R, OF achieves_routed_keycloakPod [OF pf inst] R]]) auto
  have app: "achieves r cr lookup filled ?K
      (\<lambda>v. (kc_stored r cr v cfg \<and> kc_address cr v cfg k url \<and> (k \<longrightarrow> keycloak_routed nocheck r cr (swept r cr v) cfg)) \<and> ?R v)
      (reconcileApplication r cr url) (workloads k a r cr cfg)" for url
    by (rule achieves_weaken [OF achieves_routed_application [OF pf inst]]) (auto simp: known_def kc_address_def)
  have "achieves r cr lookup filled ?K (\<lambda>v. y = Some ?rt \<and> known k a cr cfg v)
      (unless_waiting (keycloakUrl r cr y) (\<lambda>url. do { setKeycloakUrl url;
         and_then (reconcileKeycloakPod r cr y url) (\<lambda>_. reconcileApplication r cr url) }))
      (workloads k a r cr cfg)" for y
    using achieves_early [OF url achieves_set_url(2) [OF achieves_then [OF pod app]]]
    by (cases "y = Some ?rt") (auto simp: achieves_def)
  then show ?thesis
    unfolding reconcileKeycloak_def by (rule achieves_then [OF rt])
qed

definition routed_keys :: "Horreum \<Rightarrow> key set" where
  "routed_keys cr = insert (KConfigMap, Namespace cr, ''service-ca.crt'')
     (secret_keys cr \<union> postgres_keys cr \<union> (kc_keys cr \<union> horreum_keys cr))"

definition base_ready :: "'w HorreumReconciler \<Rightarrow> Horreum \<Rightarrow> view \<Rightarrow> bool" where
  "base_ready r cr v \<longleftrightarrow> settled v (ConfigMapObj (injectedCaConfigMap cr)) nocompare nocheck
     \<and> list_all (has_secret v (Namespace cr)) (operatorSecrets cr) \<and> postgres_ready nocheck r cr (swept r cr v)"

lemma injected_ca_key:
  "obj_key (ConfigMapObj (injectedCaConfigMap cr)) = (KConfigMap, Namespace cr, ''service-ca.crt'')"
  by (simp add: obj_key_def obj_name_def obj_namespace_def injectedCaConfigMap_def)

lemma no_secret_key: "kd \<noteq> KSecret \<Longrightarrow> (kd, x) \<notin> secret_keys cr"
  by auto

text \<open>The stages before Keycloak: the injected authority, the secrets and the database.\<close>

lemma achieves_base:
  assumes pf: "platform r cr lookup filled" and inst: "routable r cr"
  shows "achieves r cr lookup filled (routed_keys cr) (known k a cr cfg)
    (and_then (reconcileCerts r cr) (\<lambda>_. and_then (reconcileSecrets r cr) (\<lambda>_. reconcilePostgres r cr)))
    (\<lambda>_ v. known k a cr cfg v \<and> base_ready r cr v)"
proof -
  let ?K = "routed_keys cr" and ?N = "known k a cr cfg" and ?cm = "ConfigMapObj (injectedCaConfigMap cr)"
  let ?R1 = "\<lambda>v. settled v ?cm nocompare nocheck"
  let ?R2 = "\<lambda>v. list_all (has_secret v (Namespace cr)) (operatorSecrets cr)"
  have routes: "RoutesAvailable r" and names: "names_apart cr" using inst by (simp_all add: routable_def)
  have tls: "Route_TLS (Spec_Route (Spec cr)) \<noteq> [] \<longrightarrow>
      (KSecret, Namespace cr, Route_TLS (Spec_Route (Spec cr))) \<notin> secret_keys cr"
    using inst by (force simp: routable_def)
  have "achieves r cr lookup filled ?K ?N (ensureSame r cr (Some ?cm) nocompare nocheck) (\<lambda>_ v. ?R1 v \<and> ?N v)"
    by (rule achieves_stage [OF achieves_config_map(2) [OF pf wanted.injected [OF routes]]])
      (simp_all add: injected_ca_key routed_keys_def known_kept)
  then have certs: "achieves r cr lookup filled ?K ?N (reconcileCerts r cr) (\<lambda>_ v. ?R1 v \<and> ?N v)"
    using routes unfolding reconcileCerts_def by (auto intro!: achieves_then achieves_ok)
  have R1: "?R1 v' \<and> ?N v'" if "?R1 v \<and> ?N v" "kept_outside (secret_keys cr) v v'" for v v'
    using that(1) settled_kept [OF that(2), of ?cm] known_kept [OF that(2) tls]
    by (simp add: injected_ca_key no_secret_key)
  have secrets: "achieves r cr lookup filled ?K (\<lambda>v. ?R1 v \<and> ?N v) (reconcileSecrets r cr) (\<lambda>_ v. ?R2 v \<and> ?R1 v \<and> ?N v)"
    by (rule achieves_stage [OF achieves_reconcileSecrets [OF pf names]], simp add: routed_keys_def, blast,
        erule (1) R1, simp)
  have R2: "?R2 v' \<and> ?R1 v' \<and> ?N v'" if "?R2 v \<and> ?R1 v \<and> ?N v" "kept_outside (postgres_keys cr) v v'" for v v'
    using that(1) settled_kept [OF that(2), of ?cm] known_kept [OF that(2)] ready_kept(4) [OF that(2), of cr]
    by (auto simp: injected_ca_key no_secret_key)
  have pg: "achieves r cr lookup filled ?K (\<lambda>v. ?R2 v \<and> ?R1 v \<and> ?N v) (reconcilePostgres r cr) (\<lambda>_ v. ?N v \<and> base_ready r cr v)"
    by (rule achieves_stage [OF achieves_reconcilePostgres [OF pf]], simp add: routed_keys_def, erule (1) R2,
        simp add: base_ready_def)
  show ?thesis by (intro achieves_then [OF certs] achieves_then [OF secrets] pg)
qed

lemma base_ready_kept:
  assumes "kept_outside (kc_keys cr \<union> horreum_keys cr) v v'"
  shows "base_ready r cr v' = base_ready r cr v" and "stored_tls cr v' = stored_tls cr v"
  using settled_kept [OF assms, of "ConfigMapObj (injectedCaConfigMap cr)"] stored_tls_kept [OF assms, of cr]
    ready_kept(2) [OF kept_outside_swept [OF assms, of r cr], where r = r and cr = cr and chk = nocheck] ready_kept(4) [OF assms, of cr]
  by (auto simp: injected_ca_key base_ready_def no_secret_key)

text \<open>
  One pass over any acceptable cluster: it returns without an error, deploys what it can with what
  is known, and keeps what is known.
\<close>

lemma achieves_routed_pass:
  assumes pf: "platform r cr lookup filled" and inst: "routable r cr"
  shows "achieves r cr lookup filled (routed_keys cr) (known k a cr cfg) (reconcileCr r cr)
    (\<lambda>x v. (base_ready r cr v \<and> stored_tls cr v = Some cfg) \<and> workloads k a r cr cfg x v)"
proof -
  let ?K = "routed_keys cr" and ?N = "known k a cr cfg"
  let ?B = "\<lambda>v. base_ready r cr v \<and> stored_tls cr v = Some cfg"
  have B: "?B v'" if "?B v" "kept_outside (kc_keys cr \<union> horreum_keys cr) v v'" for v v'
    using that(1) base_ready_kept(1) [OF that(2), of r] base_ready_kept(2) [OF that(2)] by simp
  have kc: "achieves r cr lookup filled ?K (\<lambda>v. ?N v \<and> base_ready r cr v) (reconcileKeycloak r cr)
      (\<lambda>x v. ?B v \<and> workloads k a r cr cfg x v)"
    by (rule achieves_weaken [OF achieves_frame [where R = ?B,
          OF achieves_routed_keycloak [OF pf inst, where k = k and a = a and cfg = cfg] B]])
      (auto simp: routed_keys_def known_def)
  have host: "\<not> (Spec_NodeHost (Spec cr) = [] \<and>
      (isNodePort r (Spec_ServiceType (Spec cr)) \<or> isNodePort r (Kc_ServiceType (Keycloak cr))))"
    using inst by (auto simp: routable_def by_route_def isNodePort_def)
  show ?thesis
    unfolding reconcileCr_def if_not_P [OF host]
    by (rule achieves_markReady [OF platformD(1) [OF pf]])
      (use achieves_then [OF achieves_base [OF pf inst] kc] in \<open>simp add: and_then_assoc\<close>)
qed

end
