(* ===== verification/Rounds.thy ===== *)
theory Rounds
  imports Rollout
begin

text \<open>
  Convergence on OpenShift: passes of the operator alternate with moves of the router and the
  kubelets. The addresses of the two routes appear one after the other, so the third pass is the first one
  that deploys everything; this theory proves that it does, from any cluster.
\<close>

section \<open>The moves of the platform\<close>

text \<open>
  Documented behaviour of the router: it admits a route without changing what the route asks for,
  under a plain host name, and an address it has given stays.
\<close>

definition served :: "route \<Rightarrow> route \<Rightarrow> bool" where
  "served rt rt' \<longleftrightarrow> rt_meta rt' = rt_meta rt \<and> (rt_host rt \<noteq> [] \<longrightarrow> rt_host rt' = rt_host rt)
     \<and> rt_subdomain rt' = rt_subdomain rt \<and> rt_tls rt' = rt_tls rt \<and> fst (checkRoute (RouteObj rt'))
     \<and> getRouteUrl rt' \<noteq> [] \<and> (getRouteUrl rt \<noteq> [] \<longrightarrow> getRouteUrl rt' = getRouteUrl rt)
     \<and> list_all (\<lambda>i. ri_host i \<noteq> [] \<longrightarrow> dns_name (ri_host i)) (rt_ingress rt')"

text \<open>Pods keep their specification and pass \<open>chk\<close>; nothing else changes.\<close>

fun moved :: "checkFunc \<Rightarrow> obj option \<Rightarrow> obj option \<Rightarrow> bool" where
  "moved chk (Some (PodObj p)) y \<longleftrightarrow> (\<exists>p'. y = Some (PodObj p') \<and> p_meta p' = p_meta p
     \<and> p_spec p' = p_spec p \<and> fst (chk (PodObj p')))"
| "moved chk (Some (RouteObj rt)) y \<longleftrightarrow> (\<exists>rt'. y = Some (RouteObj rt') \<and> served rt rt')"
| "moved chk x y \<longleftrightarrow> y = x"

definition moves :: "checkFunc \<Rightarrow> view \<Rightarrow> view \<Rightarrow> bool" where
  "moves chk v v' \<longleftrightarrow> (\<forall>key. moved chk (v key) (v' key))"

lemma movesD: "moves chk v v' \<Longrightarrow> moved chk (v key) (v' key)"
  unfolding moves_def by blast

lemma moved_key: "moved chk (Some ob) y \<Longrightarrow> \<exists>ob'. y = Some ob' \<and> obj_key ob' = obj_key ob"
  by (cases ob) (auto simp: served_def obj_key_def obj_name_def obj_namespace_def)

lemma moved_acceptable: "moved chk (Some ob) (Some ob') \<Longrightarrow> acceptable r cr ob \<Longrightarrow> acceptable r cr ob'"
  by (cases ob) (auto simp: served_def)

lemma moves_none: "moves chk v v' \<Longrightarrow> v' key = None \<longleftrightarrow> v key = None"
  using movesD [of chk v v' key] by (cases "v key") (auto dest: moved_key)

lemma moves_cluster_ok:
  assumes "cluster_ok r cr v" and "moves chk v v'"
  shows "cluster_ok r cr v'"
  unfolding cluster_ok_def
proof (intro allI impI)
  fix key ob' assume ob': "v' key = Some ob'"
  then obtain ob where ob: "v key = Some ob" using moves_none [OF assms(2), of key] by auto
  then show "obj_key ob' = key \<and> acceptable r cr ob'"
    using movesD [OF assms(2), of key] ob' cluster_okD [OF assms(1) ob] moved_acceptable [of chk ob ob' r cr]
    by (auto dest: moved_key)
qed

lemma moves_other:
  assumes "cluster_ok r cr v" and "moves chk v v'" and "kd \<noteq> KPod" and "kd \<noteq> KRoute"
  shows "v' (kd, n) = v (kd, n)"
proof (cases "v (kd, n)")
  case (Some ob)
  then have "obj_kind ob = kd" using cluster_okD [OF assms(1) Some] by (auto simp: obj_key_def)
  then show ?thesis using movesD [OF assms(2), of "(kd, n)"] Some assms(3,4) by (cases ob) auto
qed (use moves_none [OF assms(2)] in simp)

lemma moves_settled:
  assumes "cluster_ok r cr v" and "moves chk v v'" and "obj_kind ob \<noteq> KPod" and "obj_kind ob \<noteq> KRoute"
  shows "settled v' ob compare chk' = settled v ob compare chk'"
  using moves_other [OF assms] by (simp add: settled_def obj_key_def)

lemma moves_pod:
  assumes "moves chk v v'" and "settled v (PodObj p) (comparePods r) nocheck"
  shows "settled v' (PodObj p) (comparePods r) chk"
proof -
  obtain out where "v (obj_key (PodObj p)) = Some (PodObj out)"
      "lib_deep_derivative (Lib r) (p_spec p) (p_spec out)"
    using assms(2) by (auto simp: settled_def comparePods_def split: option.splits obj.splits)
  then show ?thesis
    using movesD [OF assms(1), of "obj_key (PodObj p)"] by (auto simp: settled_def comparePods_def)
qed

lemma moves_route:
  assumes "moves chk v v'" and "settled v (RouteObj rt) compareRoute nocheck"
  shows "admitted v' rt" and "route_url v rt \<noteq> [] \<Longrightarrow> route_url v' rt = route_url v rt"
proof -
  obtain out where out: "v (obj_key (RouteObj rt)) = Some (RouteObj out)" "compareRoute (RouteObj rt) (RouteObj out)"
    using assms(2) by (auto simp: settled_def compareRoute_def split: option.splits obj.splits)
  moreover obtain out' where out': "v' (obj_key (RouteObj rt)) = Some (RouteObj out')" "served out out'"
    using movesD [OF assms(1), of "obj_key (RouteObj rt)"] out(1) by auto
  moreover have "compareRoute (RouteObj rt) (RouteObj out')"
    using out(2) out'(2) by (auto simp: compareRoute_def served_def split: if_splits)
  ultimately show "admitted v' rt" and "route_url v rt \<noteq> [] \<Longrightarrow> route_url v' rt = route_url v rt"
    by (simp_all add: admitted_def settled_def route_url_def foundRouteUrl_def served_def)
qed

lemma moves_admitted:
  "moves chk v v' \<Longrightarrow> admitted v rt \<Longrightarrow> admitted v' rt \<and> route_url v' rt = route_url v rt"
  using moves_route [of chk v v' rt] admitted_settled [of v rt] by (simp add: admitted_def)

lemma moves_secrets:
  assumes "cluster_ok r cr v" and "moves chk v v'"
  shows "stored_tls cr v' = stored_tls cr v" and "has_secret v' = has_secret v"
proof -
  have secret: "v' (KSecret, n) = v (KSecret, n)" for n by (rule moves_other [OF assms]) simp_all
  then show "stored_tls cr v' = stored_tls cr v" by (simp add: stored_tls_def Let_def)
  show "has_secret v' = has_secret v" by (simp add: has_secret_def fun_eq_iff secret)
qed

text \<open>A cluster where only health is missing is steady after such a move.\<close>

lemma moves_steady:
  assumes ok: "cluster_ok r cr v" and stable: "stable_routed nocheck r cr v cfg" and mv: "moves checkPod v v'"
  shows "steady_routed r cr v' cfg"
proof -
  note same = moves_settled [OF ok mv] and none = moves_none [OF mv] and pod = moves_pod [OF mv]
  have kurl: "admitted v (keycloak_route cr cfg) \<or> publicUri cr \<noteq> [] \<Longrightarrow>
      keycloak_routed_url cr v' cfg = keycloak_routed_url cr v cfg"
    using moves_admitted [OF mv] by (auto simp: keycloak_routed_url_def)
  have kc: "keycloak_routed nocheck r cr v cfg" and app: "app_routed nocheck r cr v cfg"
    and pg: "postgres_ready nocheck r cr v"
    using stable by (simp_all add: stable_routed_def)
  have "keycloak_routed checkPod r cr v' cfg"
    using kc kurl moves_admitted [OF mv] none
    by (auto simp: keycloak_routed_def same pod split: option.splits if_splits)
  moreover have "app_routed checkPod r cr v' cfg"
  proof -
    have "admitted v (keycloak_route cr cfg) \<or> publicUri cr \<noteq> []"
      using kc by (auto simp: keycloak_routed_def split: option.splits if_splits)
    then show ?thesis
      using app kurl moves_admitted [OF mv, of "app_route cr cfg"] by (simp add: app_routed_def same pod)
  qed
  moreover have "postgres_ready checkPod r cr v'"
    using pg none by (auto simp: postgres_ready_def same pod split: if_splits)
  ultimately show ?thesis
    using stable by (simp add: stable_routed_def moves_secrets [OF ok mv] same)
qed

text \<open>What a pass has stored of enabled components is still there when the deleted objects have ended.\<close>

lemma swept_kc_stored: "kc_stored r cr (swept r cr v) cfg = kc_stored r cr v cfg"
  by (simp add: kc_stored_def swept_settled object_keys route_object_key enabled_keys)

lemma swept_app_stored: "app_stored r cr (swept r cr v) cfg = app_stored r cr v cfg"
  by (simp add: app_stored_def swept_settled object_keys app_route_key enabled_keys)

text \<open>The next pass knows more.\<close>

lemma moves_known:
  assumes ok: "cluster_ok r cr v" and mv: "moves chk (swept r cr v) v'"
    and "stored_tls cr v = Some cfg" and work: "workloads k a r cr cfg x v"
  shows "known True k cr cfg v'"
proof -
  have "kc_stored r cr (swept r cr v) cfg" and "k \<Longrightarrow> app_stored r cr (swept r cr v) cfg"
    using work by (simp_all add: workloads_def swept_kc_stored swept_app_stored)
  then show ?thesis
    using assms(3) moves_route(1) [OF mv] moves_secrets(1) [OF cluster_ok_swept [OF ok] mv]
    by (simp add: known_def kc_known_def kc_stored_def app_stored_def swept_stored_tls)
qed

section \<open>Rounds\<close>

text \<open>
  A round is a pass that returns without an error, and a move of the platform, in which the deleted
  objects of disabled components end.
\<close>

inductive round :: "'w HorreumReconciler \<Rightarrow> Horreum \<Rightarrow> ('w \<Rightarrow> view) \<Rightarrow> 'w st \<Rightarrow> 'w st \<Rightarrow> bool"
  for r cr lookup where
  round: "run_state (reconcileCr r cr) s = (Ok q, t) \<Longrightarrow>
     moves nocheck (swept r cr (lookup (st_world t))) (lookup (st_world u)) \<Longrightarrow> round r cr lookup s u"

text \<open>What a pass leaves, if it is not turned away.\<close>

definition deployed ::
  "bool \<Rightarrow> bool \<Rightarrow> 'w HorreumReconciler \<Rightarrow> Horreum \<Rightarrow> tls_config option \<Rightarrow> ctrl_result \<Rightarrow> view \<Rightarrow> bool" where
  "deployed k a r cr cfg q v \<longleftrightarrow>
     (base_ready r cr v \<and> stored_tls cr v = Some cfg) \<and> workloads k a r cr cfg q v"

lemma wp_routed_pass:
  fixes lookup :: "'w \<Rightarrow> view" and s :: "'w st"
  assumes "platform r cr lookup filled" and "routable r cr" and "cluster_ok r cr (lookup (st_world s))"
    and "known k a cr cfg (lookup (st_world s))"
  shows "wp (reconcileCr r cr) (ends r cr lookup filled (routed_keys cr) (deployed k a r cr cfg) s) s"
  unfolding deployed_def by (rule achievesD [OF achieves_routed_pass [OF assms(1,2)] assms(3,4)])

lemma round_known:
  fixes lookup :: "'w \<Rightarrow> view" and s u :: "'w st"
  assumes pf: "platform r cr lookup filled" and inst: "routable r cr" and step: "round r cr lookup s u"
    and ok: "cluster_ok r cr (lookup (st_world s))" and kn: "known k a cr cfg (lookup (st_world s))"
  shows "cluster_ok r cr (lookup (st_world u))" and "known True k cr cfg (lookup (st_world u))"
proof -
  obtain q t where t: "run_state (reconcileCr r cr) s = (Ok q, t)"
      "moves nocheck (swept r cr (lookup (st_world t))) (lookup (st_world u))"
    using step by (auto elim: round.cases)
  have "lands r cr lookup filled (routed_keys cr) (deployed k a r cr cfg) s q t"
    using wp_routed_pass [OF pf inst ok kn] t(1) by (simp add: wp_def)
  then have post: "cluster_ok r cr (lookup (st_world t))" "stored_tls cr (lookup (st_world t)) = Some cfg"
      "workloads k a r cr cfg q (lookup (st_world t))"
    by (simp_all add: lands_def Let_def deployed_def)
  show "cluster_ok r cr (lookup (st_world u))"
    by (rule moves_cluster_ok [OF cluster_ok_swept [OF post(1)] t(2)])
  show "known True k cr cfg (lookup (st_world u))" by (rule moves_known [OF post(1) t(2) post(2,3)])
qed

lemma rounds_known:
  fixes lookup :: "'w \<Rightarrow> view" and s t :: "'w st"
  assumes "platform r cr lookup filled" and "routable r cr" and "cluster_ok r cr (lookup (st_world s))"
    and "stored_tls cr (lookup (st_world s)) = Some cfg" and "(round r cr lookup ^^ n) s t"
  shows "cluster_ok r cr (lookup (st_world t)) \<and> known (0 < n) (1 < n) cr cfg (lookup (st_world t))"
  using assms(5)
proof (induction n arbitrary: t)
  case 0
  then show ?case using assms(3,4) by (simp add: known_def)
next
  case (Suc n)
  then obtain u where "(round r cr lookup ^^ n) s u" "round r cr lookup u t" by auto
  then show ?case using Suc.IH round_known [OF assms(1,2)] by fastforce
qed

text \<open>With both addresses known, the pass is the last one that has something to deploy.\<close>

lemma deployed_steady:
  fixes lookup :: "'w \<Rightarrow> view" and w :: "'w st"
  assumes pf: "platform r cr lookup filled" and inst: "routable r cr" and ok: "cluster_ok r cr v"
    and post: "deployed True True r cr cfg q v"
  shows "q = Result False" and "stable_routed nocheck r cr (swept r cr v) cfg"
    and "moves checkPod (swept r cr v) (lookup (st_world w)) \<Longrightarrow>
      wp (reconcileCr r cr) (\<lambda>y z. \<exists>status. passed lookup cr status w y z \<and> Status_Status status = ''Ready'') w"
proof -
  show "q = Result False" using post by (simp add: deployed_def workloads_def)
  show stable: "stable_routed nocheck r cr (swept r cr v) cfg"
    using post inst
    by (simp add: deployed_def workloads_def stable_routed_def base_ready_def routable_def swept_stored_tls
        swept_app_routed swept_base swept_settled injected_ca_key enabled_keys)
  assume "moves checkPod (swept r cr v) (lookup (st_world w))"
  then have "steady_routed r cr (lookup (st_world w)) cfg" by (rule moves_steady [OF cluster_ok_swept [OF ok] stable])
  note pass = wp_openshift_pass [OF platformD(1,6) [OF pf] this]
  show "wp (reconcileCr r cr) (\<lambda>y z. \<exists>status. passed lookup cr status w y z \<and> Status_Status status = ''Ready'') w"
    by (rule wp_mono [OF pass]) blast
qed


end
