(* ===== verification/Sample_Openshift.thy ===== *)
theory Sample_Openshift
  imports Liveness Rounds
begin

text \<open>
  The sample resource on the in-memory cluster with routes: a steady state that meets the hypotheses
  of the idempotence theorem on OpenShift, and rounds of passes and moves of the router.
\<close>

abbreviation "mem1 \<equiv> mem_reconciler True"

definition sample_tls :: "tls_config option" where
  "sample_tls = Some (tls_of_secret ''reencrypt'' zero_secret)"

abbreviation "kc_rt \<equiv> keycloak_route sample_cr sample_tls"
abbreviation "app_rt \<equiv> app_route sample_cr sample_tls"

definition sample_kurl :: string where
  "sample_kurl = ''https://horreum-keycloak.apps.example.com''"

definition sample_aurl :: string where
  "sample_aurl = ''https://horreum.apps.example.com''"

lemma sample_kurl_parses: "parse_request_uri sample_kurl = Some ''horreum-keycloak.apps.example.com''"
  by code_simp

definition routed_kpod :: pod where
  "routed_kpod = the (keycloakPod sample_cr sample_kurl)"

lemma routed_kpod: "keycloakPod sample_cr sample_kurl = Some routed_kpod"
  by (simp add: routed_kpod_def keycloakPod_def sample_kurl_parses Let_def)

definition routed_objs :: "obj list" where
  "routed_objs =
     [ConfigMapObj (injectedCaConfigMap sample_cr),
      basic_secret sample_cr ''horreum-db-admin'', basic_secret sample_cr ''horreum-app'',
      basic_secret sample_cr ''horreum-keycloak-admin'', basic_secret sample_cr ''horreum-keycloak-db'',
      basic_secret sample_cr ''horreum-admin'',
      ConfigMapObj (postgresConfigMap sample_cr), PodObj (postgresPod sample_cr mem1),
      ServiceObj (postgresService sample_cr),
      ServiceObj (keycloakService sample_cr mem1), RouteObj kc_rt, PodObj routed_kpod,
      ServiceObj (appService sample_cr mem1), RouteObj app_rt,
      PodObj (appPod sample_cr sample_kurl sample_aurl), ConfigMapObj (uploadConfig sample_cr)]"

definition routed_memory :: memory where
  "routed_memory = \<lparr>mem_objs = map live routed_objs, mem_crs = [sample_cr], mem_time = 0, mem_seed = 7\<rparr>"

lemma routed_lookup:
  "mem_lookup routed_memory key = map_option live (find (\<lambda>ob. obj_key ob = key) routed_objs)"
  using mem_lookup_live [where m = "\<lparr>mem_objs = [], mem_crs = [sample_cr], mem_time = 0, mem_seed = 7\<rparr>"]
  by (simp add: routed_memory_def)

lemmas routed_obj_keys = basic_secret_key object_keys(1-7) object_keys(8) [OF routed_kpod]
  route_object_key injected_ca_key

lemma routed_at:
  "ob \<in> set routed_objs \<Longrightarrow> mem_lookup routed_memory (obj_key ob) = Some (live ob)"
proof -
  assume ob: "ob \<in> set routed_objs"
  have "distinct (map obj_key routed_objs)"
    by (simp add: routed_objs_def routed_obj_keys)
  moreover have "find (\<lambda>x. obj_key x = obj_key ob) obs = Some ob"
    if "distinct (map obj_key obs)" "ob \<in> set obs" for obs
    using that by (induction obs) auto
  ultimately show ?thesis using ob by (simp add: routed_lookup)
qed

lemma routed_secret:
  "n \<in> set [''horreum-db-admin'', ''horreum-app'', ''horreum-keycloak-admin'', ''horreum-keycloak-db'', ''horreum-admin'']
   \<Longrightarrow> mem_lookup routed_memory (KSecret, ''default'', n) = Some (live (basic_secret sample_cr n))"
  using routed_at [of "basic_secret sample_cr n"] by (auto simp: routed_objs_def routed_obj_keys)

lemma route_live:
  "v (obj_key (RouteObj (route_object rs sfx cr cfg))) = Some (live (RouteObj (route_object rs sfx cr cfg))) \<Longrightarrow>
   cfg \<noteq> None \<Longrightarrow> Route_Host rs = [] \<Longrightarrow>
   admitted v (route_object rs sfx cr cfg)
   \<and> route_url v (route_object rs sfx cr cfg) = ''https://'' @ (Name cr @ sfx) @ ''.apps.example.com''"
  by (auto simp: admitted_def settled_def compareRoute_def checkRoute_def route_url_def foundRouteUrl_def
      getRouteUrl_def ifThenElse_def route_object_def)

lemma routed_settled:
  "PodObj p \<in> set routed_objs \<Longrightarrow> p_statuses p = [] \<Longrightarrow> ps_rest (p_spec p) = [] \<Longrightarrow>
     settled (mem_lookup routed_memory) (PodObj p) (comparePods mem1) checkPod"
  "ServiceObj s \<in> set routed_objs \<Longrightarrow> settled (mem_lookup routed_memory) (ServiceObj s) compareService nocheck"
  "ConfigMapObj c \<in> set routed_objs \<Longrightarrow> settled (mem_lookup routed_memory) (ConfigMapObj c) compareConfigMap nocheck"
  "ConfigMapObj c \<in> set routed_objs \<Longrightarrow> settled (mem_lookup routed_memory) (ConfigMapObj c) nocompare nocheck"
  using settled_live [where v = "mem_lookup routed_memory"] routed_at by blast+

lemma routed_addresses:
  "admitted (mem_lookup routed_memory) kc_rt" "admitted (mem_lookup routed_memory) app_rt"
  "keycloak_routed_url sample_cr (mem_lookup routed_memory) sample_tls = sample_kurl"
  "route_url (mem_lookup routed_memory) app_rt = sample_aurl"
proof -
  have kc: "admitted (mem_lookup routed_memory) kc_rt
      \<and> route_url (mem_lookup routed_memory) kc_rt = ''https://'' @ (Name sample_cr @ ''-keycloak'') @ ''.apps.example.com''"
    by (rule route_live) (simp_all add: routed_at routed_objs_def sample_tls_def zero_KeycloakSpec_def zero_RouteSpec_def)
  have app: "admitted (mem_lookup routed_memory) app_rt
      \<and> route_url (mem_lookup routed_memory) app_rt = ''https://'' @ (Name sample_cr @ []) @ ''.apps.example.com''"
    by (rule route_live) (simp_all add: routed_at routed_objs_def sample_tls_def zero_RouteSpec_def)
  show "admitted (mem_lookup routed_memory) kc_rt" "admitted (mem_lookup routed_memory) app_rt"
    "keycloak_routed_url sample_cr (mem_lookup routed_memory) sample_tls = sample_kurl"
    "route_url (mem_lookup routed_memory) app_rt = sample_aurl"
    using kc app by (simp_all add: keycloak_routed_url_def publicUri_def sample_kurl_def sample_aurl_def
        zero_KeycloakSpec_def)
qed

lemma sample_routed: "steady_routed mem1 sample_cr (mem_lookup routed_memory) sample_tls"
proof -
  have types: "by_route mem1 (Kc_ServiceType (Keycloak sample_cr))" "by_route mem1 (Spec_ServiceType (Spec sample_cr))"
    by (simp_all add: by_route_def zero_KeycloakSpec_def)
  have "stored_tls sample_cr (mem_lookup routed_memory) = Some sample_tls"
    by (simp add: stored_tls_def sample_tls_def zero_RouteSpec_def)
  moreover have "list_all (has_secret (mem_lookup routed_memory) ''default'') (operatorSecrets sample_cr)"
    by (simp add: operatorSecrets_def sample_secrets basicKeys_def has_secret_def routed_secret basic_secret_def
        checkSecret_def zero_secret_def)
  moreover have "postgres_ready checkPod mem1 sample_cr (mem_lookup routed_memory)"
    by (simp add: postgres_ready_def zero_PostgresSpec_def routed_settled routed_objs_def fresh_pods)
  moreover have "keycloak_routed checkPod mem1 sample_cr (mem_lookup routed_memory) sample_tls"
  proof -
    have "publicUri sample_cr = []" by (simp add: publicUri_def zero_KeycloakSpec_def)
    moreover have "settled (mem_lookup routed_memory) (ServiceObj (keycloakService sample_cr mem1)) compareService nocheck"
      "settled (mem_lookup routed_memory) (PodObj routed_kpod) (comparePods mem1) checkPod"
      by (simp_all add: routed_settled routed_objs_def fresh_pods(5,6) [OF routed_kpod])
    ultimately show ?thesis
      using types(1) routed_addresses(1) by (simp only: keycloak_routed_def routed_addresses(3) routed_kpod option.case simp_thms if_True)
  qed
  moreover have "app_routed checkPod mem1 sample_cr (mem_lookup routed_memory) sample_tls"
  proof -
    have "settled (mem_lookup routed_memory) (ServiceObj (appService sample_cr mem1)) compareService nocheck"
      "settled (mem_lookup routed_memory) (PodObj (appPod sample_cr sample_kurl sample_aurl)) (comparePods mem1) checkPod"
      "settled (mem_lookup routed_memory) (ConfigMapObj (uploadConfig sample_cr)) nocompare nocheck"
      by (simp_all add: routed_settled routed_objs_def fresh_pods)
    then show ?thesis
      using types(2) routed_addresses(2) by (simp only: app_routed_def routed_addresses(3,4) simp_thms)
  qed
  ultimately show ?thesis
    by (simp add: stable_routed_def route_type_ok_def zero_KeycloakSpec_def zero_RouteSpec_def routed_settled routed_objs_def)
qed

definition routed_state :: "memory st" where
  "routed_state = \<lparr>st_world = routed_memory, st_status = zero_HorreumStatus, st_events = []\<rparr>"

theorem openshift_pass_is_idle_witness:
  "steady_routed mem1 sample_cr (mem_lookup (st_world routed_state)) sample_tls
   \<and> wp (reconcileCr mem1 sample_cr)
    (\<lambda>x t. \<exists>status. passed mem_lookup sample_cr status routed_state x t \<and> Status_Status status = ''Ready''
       \<and> Status_KeycloakUrl status = keycloak_routed_url sample_cr (mem_lookup (st_world routed_state)) sample_tls
       \<and> Status_PublicUrl status = route_url (mem_lookup (st_world routed_state)) app_rt) routed_state"
proof
  show "steady_routed mem1 sample_cr (mem_lookup (st_world routed_state)) sample_tls"
    by (simp only: routed_state_def st.select_convs sample_routed)
  then show "wp (reconcileCr mem1 sample_cr)
    (\<lambda>x t. \<exists>status. passed mem_lookup sample_cr status routed_state x t \<and> Status_Status status = ''Ready''
       \<and> Status_KeycloakUrl status = keycloak_routed_url sample_cr (mem_lookup (st_world routed_state)) sample_tls
       \<and> Status_PublicUrl status = route_url (mem_lookup (st_world routed_state)) app_rt) routed_state"
    by (rule openshift_pass_is_idle [OF mem_api_reads mem_owns])
qed

section \<open>Rounds in memory\<close>

lemma sample_routable: "routable mem1 sample_cr"
  by (simp add: routable_def names_apart_def by_route_def route_type_ok_def publicUri_def operatorSecrets_def
      sample_secrets certSecrets_def zero_KeycloakSpec_def zero_RouteSpec_def)

lemma mem_lookup_bring_up: "mem_lookup (mem_bring_up m) key = map_option bring_up (mem_lookup m key)"
proof -
  have "find (\<lambda>ob. obj_key ob = key) (map bring_up obs) = map_option bring_up (find (\<lambda>ob. obj_key ob = key) obs)"
    for obs by (induction obs) auto
  then show ?thesis by (simp add: mem_lookup_def mem_find_def mem_bring_up_def)
qed

lemma router_host_dns:
  assumes "list_all dns_char (om_name (rt_meta rt))"
    and "list_all (\<lambda>i. ri_host i \<noteq> [] \<longrightarrow> dns_name (ri_host i)) (rt_ingress rt)"
  shows "dns_name (router_host rt)"
proof -
  have "dns_name (om_name (rt_meta rt) @ ''.apps.example.com'')"
    using assms(1) by (simp add: dns_name_def char_class_defs code_of_def)
  then show ?thesis using assms(2) by (auto simp: list_all_iff split: list.split)
qed

lemma served_bring_up:
  assumes "list_all dns_char (om_name (rt_meta rt))"
    and "list_all (\<lambda>i. ri_host i \<noteq> [] \<longrightarrow> dns_name (ri_host i)) (rt_ingress rt)"
  shows "\<exists>rt'. bring_up (RouteObj rt) = RouteObj rt' \<and> served rt rt'"
proof -
  have "router_host rt \<noteq> []" using router_host_dns [OF assms] by (simp add: dns_name_def)
  moreover have "router_host rt = ri_host i" if "rt_ingress rt = i # is" "ri_host i \<noteq> []" for i "is"
    using that by simp
  ultimately show ?thesis
    using router_host_dns [OF assms]
    by (auto simp: served_def checkRoute_def getRouteUrl_def simp del: router_host.simps
        split: list.splits if_splits)
qed

lemma mem_moves:
  assumes ok: "cluster_ok mem1 cr (mem_lookup m)" and chk: "\<And>p. fst (chk (bring_up (PodObj p)))"
    and names: "\<And>ns n. mem_lookup m (KRoute, ns, n) \<noteq> None \<Longrightarrow> list_all dns_char n"
  shows "moves chk (mem_lookup m) (mem_lookup (mem_bring_up m))"
  unfolding moves_def
proof
  fix key
  show "moved chk (mem_lookup m key) (mem_lookup (mem_bring_up m) key)"
  proof (cases "mem_lookup m key")
    case (Some ob)
    note stored = cluster_okD [OF ok Some]
    show ?thesis
    proof (cases ob)
      case (PodObj p)
      then show ?thesis using chk [of p] by (simp add: mem_lookup_bring_up Some)
    next
      case (RouteObj rt)
      then have "list_all dns_char (om_name (rt_meta rt))"
        using stored Some names [of "om_namespace (rt_meta rt)"]
        by (auto simp: obj_key_def obj_name_def obj_namespace_def)
      moreover have "list_all (\<lambda>i. ri_host i \<noteq> [] \<longrightarrow> dns_name (ri_host i)) (rt_ingress rt)"
        using stored RouteObj by simp
      ultimately show ?thesis
        using served_bring_up [of rt] RouteObj by (auto simp: mem_lookup_bring_up Some)
    qed (simp_all add: mem_lookup_bring_up Some)
  qed (simp add: mem_lookup_bring_up)
qed

text \<open>A round of the sample resource exists from every state that holds its own objects only.\<close>

definition own_objects :: "memory st \<Rightarrow> bool" where
  "own_objects s \<longleftrightarrow> (\<forall>key. key \<notin> routed_keys sample_cr \<longrightarrow> mem_lookup (st_world s) key = None)"

lemma own_objectsD:
  assumes "own_objects s" and "mem_lookup (st_world s) key \<noteq> None"
  shows "key \<in> routed_keys sample_cr"
proof (rule ccontr)
  assume "key \<notin> routed_keys sample_cr"
  with assms(1) have "mem_lookup (st_world s) key = None"
    unfolding own_objects_def by (elim allE [of _ key] impE)
  with assms(2) show False ..
qed

lemma routed_route_names: "(KRoute, ns, n) \<in> routed_keys sample_cr \<Longrightarrow> list_all dns_char n"
  by (auto simp: routed_keys_def char_class_defs code_of_def)

lemma sample_swept: "swept mem1 sample_cr v = v"
  by (simp add: swept_def fun_eq_iff disabledKeys_def publicUri_def sample_cr_def zero_Horreum_def
      zero_HorreumSpec_def zero_PostgresSpec_def zero_KeycloakSpec_def split: option.split)

lemma mem_round:
  assumes "cluster_ok mem1 sample_cr (mem_lookup (st_world s))" and "own_objects s"
    and "known k a sample_cr cfg (mem_lookup (st_world s))"
  shows "\<exists>u. round mem1 sample_cr mem_lookup s u \<and> own_objects u"
proof -
  obtain q t where t: "run_state (reconcileCr mem1 sample_cr) s = (Ok q, t)"
      "cluster_ok mem1 sample_cr (mem_lookup (st_world t))"
      "kept_outside (routed_keys sample_cr) (mem_lookup (st_world s)) (mem_lookup (st_world t))"
    using wp_routed_pass [OF mem_platform sample_routable assms(1,3)] mem_prompt [of True]
    by (cases "run_state (reconcileCr mem1 sample_cr) s"; cases "fst (run_state (reconcileCr mem1 sample_cr) s)")
      (auto simp: wp_def lands_def turned_away_def Let_def)
  let ?u = "t\<lparr>st_world := mem_bring_up (st_world t)\<rparr>"
  have own: "own_objects t"
    using assms(2) t(3) by (simp add: own_objects_def kept_outsideD)
  have "moves nocheck (mem_lookup (st_world t)) (mem_lookup (mem_bring_up (st_world t)))"
  proof (rule mem_moves [OF t(2)])
    fix ns n assume "mem_lookup (st_world t) (KRoute, ns, n) \<noteq> None"
    then show "list_all dns_char n" by (rule routed_route_names [OF own_objectsD [OF own]])
  qed (simp add: nocheck_def)
  then have "round mem1 sample_cr mem_lookup s ?u" by (intro round.intros [OF t(1)]) (simp add: sample_swept)
  moreover have "own_objects ?u"
    using own by (simp add: own_objects_def mem_lookup_bring_up)
  ultimately show ?thesis by blast
qed

lemma sample_start:
  "cluster_ok mem1 sample_cr (mem_lookup (st_world sample_state))" "own_objects sample_state"
  "stored_tls sample_cr (mem_lookup (st_world sample_state)) = Some sample_tls"
  by (simp_all add: cluster_ok_def own_objects_def sample_state_def sample_memory_def mem_lookup_def mem_find_def
      stored_tls_def sample_tls_def zero_RouteSpec_def)

lemma sample_rounds: "\<exists>t. (round mem1 sample_cr mem_lookup ^^ 2) sample_state t"
proof -
  have known: "known False False sample_cr sample_tls (mem_lookup (st_world sample_state))"
    using sample_start by (simp add: known_def)
  obtain u where u: "round mem1 sample_cr mem_lookup sample_state u" "own_objects u"
    using mem_round [OF sample_start(1,2) known] by blast
  then obtain t where "round mem1 sample_cr mem_lookup u t"
    using mem_round round_known [OF mem_platform sample_routable u(1) sample_start(1) known] by blast
  then show ?thesis using u(1) by (auto simp: numeral_2_eq_2)
qed


end
