(* ===== verification/Spec2Isabelle.thy ===== *)
theory Spec2Isabelle
  imports Behaviour Setup Exposure Issuance Lifetime Isolation Sample_Openshift
begin

text \<open>
  A verification library for the Horreum operator, a Kubernetes controller in Go that deploys
  Horreum, its Keycloak and its PostgreSQL for a custom resource \<^verbatim>\<open>Horreum\<close>.

  \<^bold>\<open>The program.\<close> \<^verbatim>\<open>main.go\<close> parses flags, asks the API server for its API groups (is there a
  \<^verbatim>\<open>route.openshift.io\<close>?) and registers a reconciler. For each request the manager calls \<^verbatim>\<open>Reconcile\<close>
  in \<^verbatim>\<open>controllers/horreum_controller.go\<close>. One call is a pass: it reads the resource, rejects node
  ports without a host, makes certificates (\<^verbatim>\<open>certificates.go\<close>; on OpenShift it asks for an injected
  CA bundle instead), five secrets, the database (\<^verbatim>\<open>postgres.go\<close>), the Keycloak service, its public
  address and its pod (\<^verbatim>\<open>keycloak.go\<close>), the Horreum service, its address, its pod (\<^verbatim>\<open>app.go\<close>) and a
  config map with an upload script, and ends by writing the status. Each object goes through
  \<^verbatim>\<open>ensureSame\<close> (create what is missing, replace what differs, check what is there) or
  \<^verbatim>\<open>ensureDeleted\<close>. A pass keeps no state but the status it accumulates; everything else is in the
  cluster, which other actors change between any two calls.

  \<^bold>\<open>The model.\<close> The state of a pass is the record \<^verbatim>\<open>st\<close> of \<^verbatim>\<open>Runtime\<close>: an arbitrary world, the status of
  the resource in memory, and the list of API calls made (a history variable). Computations are those
  of the library's \<^verbatim>\<open>State_Monad\<close>; a fallible function returns \<^verbatim>\<open>res\<close>, which is a value, an error or a
  panic, and \<^verbatim>\<open>and_then\<close> is Go's \<^verbatim>\<open>if err != nil { return err }\<close>. \<^verbatim>\<open>wp m Q s\<close> says that the run of \<open>m\<close>
  from \<open>s\<close> ends with a result and a state that satisfy \<open>Q\<close>. All functions are total, by recursion
  over strings, lists, numbers and the length of a password, so there is no fuel, and \<^verbatim>\<open>wp\<close> is total
  correctness. \<^verbatim>\<open>int32\<close> and \<^verbatim>\<open>int64\<close> are words, read with \<^verbatim>\<open>sint\<close>.

  \<^bold>\<open>Parameters.\<close> Code that is not in the repository is an argument: \<^verbatim>\<open>client\<close> (the API server: a typed
  read per kind, create, delete, status update), \<^verbatim>\<open>library\<close> (clock, \<^verbatim>\<open>math/rand\<close>,
  \<^verbatim>\<open>SetControllerReference\<close>, \<^verbatim>\<open>DeepDerivative\<close>) and \<^verbatim>\<open>crypto\<close> (RSA, x509, PKCS1, PEM). Most theorems hold
  for all of them. The others name what they use: \<^verbatim>\<open>reads_by_key\<close> (a read returns an object with the key
  asked for), \<^verbatim>\<open>codec_laws\<close> (decoders undo encoders), \<^verbatim>\<open>api_reads\<close>, \<^verbatim>\<open>owns\<close>, and for convergence
  \<^verbatim>\<open>platform\<close>, which adds \<^verbatim>\<open>api_writes\<close>, \<^verbatim>\<open>fills\<close> (admission and defaulting) and \<^verbatim>\<open>signs\<close>. By \<^verbatim>\<open>api_writes\<close> the server
  may refuse any creation and any deletion, and may defer a deletion, which leaves the object there, marked as being deleted;
  a server that is \<^verbatim>\<open>prompt\<close> does neither without need. \<^verbatim>\<open>Cluster\<close> has a
  concrete in-memory platform, on which every one of them is proved, for the witnesses.
  \<^verbatim>\<open>moves\<close> is what the router and the kubelets do between two passes: pods and routes keep what they ask for and
  get a state.

  \<^bold>\<open>Theories that model code.\<close>
    \<^item> \<^verbatim>\<open>Go_Std\<close>, \<^verbatim>\<open>Go_Url\<close>, \<^verbatim>\<open>Go_Flag\<close>: what the code uses of Go's library (numbers as text, \<^verbatim>\<open>time.AddDate\<close>,
      \<^verbatim>\<open>url.ParseRequestURI\<close>, \<^verbatim>\<open>flag.Parse\<close>). \<^verbatim>\<open>Kube\<close>: the fields of the API types that the operator reads or sets.
    \<^item> \<^verbatim>\<open>Api_Types\<close>: \<^verbatim>\<open>api/v1alpha1\<close>. \<^verbatim>\<open>Defaults\<close>: \<^verbatim>\<open>defaults.go\<close> and the pure helpers of \<^verbatim>\<open>utils.go\<close>.
      \<^verbatim>\<open>Utils\<close>: the rest of \<^verbatim>\<open>utils.go\<close>.
    \<^item> \<^verbatim>\<open>Status\<close>, \<^verbatim>\<open>Compare\<close>, \<^verbatim>\<open>Ensure\<close>, \<^verbatim>\<open>Reconcile\<close>: \<^verbatim>\<open>horreum_controller.go\<close>. \<^verbatim>\<open>Reconcile\<close> has one
      definition per stage; a stage that ends the pass early returns a left injection.
    \<^item> \<^verbatim>\<open>Postgres\<close>, \<^verbatim>\<open>Keycloak\<close>, \<^verbatim>\<open>App\<close>, \<^verbatim>\<open>Certificates\<close>: the files of these names. \<^verbatim>\<open>Setup\<close>: \<^verbatim>\<open>main.go\<close>.
      The rbac markers are in \<^verbatim>\<open>Safety\<close>.

  \<^bold>\<open>Interfaces.\<close> \<^verbatim>\<open>step_order\<close> (\<^verbatim>\<open>Prelude\<close>): a reflexive and transitive relation between the states around a
  computation, with the lemmas that compositions keep it. \<^verbatim>\<open>trace_language\<close> (\<^verbatim>\<open>Runtime\<close>) is a language of
  calls closed under concatenation, a sublocale of it. \<^verbatim>\<open>resource_contract\<close> (\<^verbatim>\<open>Compare\<close>): what \<^verbatim>\<open>ensureSame\<close> relies
  on in a comparison and a check, interpreted on every pair the code passes to it; the behaviour of
  \<^verbatim>\<open>ensureSame\<close> is proved once in it (its outcomes, its idempotence, what it achieves).

  \<^bold>\<open>Theories that prove properties.\<close>
    \<^item> \<^verbatim>\<open>Protocol\<close>, \<^verbatim>\<open>Safety\<close>: the grammar \<^verbatim>\<open>operator_trace\<close> of the calls of a pass is an abstract
      specification that \<^verbatim>\<open>Reconcile\<close> refines; from it, by rule induction: no secret is deleted, creations
      are owned, watched and guarded by a read, the namespace is kept, no route is touched
      without routes, every call is granted by the role. \<^verbatim>\<open>Isolation\<close>: two resources of a namespace write different
      objects, but for one config map.
    \<^item> \<^verbatim>\<open>Outcome\<close>, \<^verbatim>\<open>Quiet\<close>, \<^verbatim>\<open>Behaviour\<close>: what the operations return and report; a pass that returns
      without an error has written a status that tells whether it changed anything; configurations
      that are rejected, never complete, or panic.
    \<^item> \<^verbatim>\<open>Wiring\<close>, \<^verbatim>\<open>Exposure\<close>, \<^verbatim>\<open>Authority\<close>, \<^verbatim>\<open>Issuance\<close>: the objects fit together (selectors, mounts, URLs,
      certificates, routes), and the authority that was created is the one that is published and loaded. That the secrets
      that pods refer to are there after \<^verbatim>\<open>reconcileSecrets\<close> is in \<^verbatim>\<open>Steady\<close>.
    \<^item> \<^verbatim>\<open>Bounds\<close>: a pass ends after at most 45 calls; generated secrets are complete. \<^verbatim>\<open>Calendar\<close>,
      \<^verbatim>\<open>Lifetime\<close>: the conversion between days and dates is exact, and an authority is valid for ten years.
    \<^item> \<^verbatim>\<open>Steady\<close>, \<^verbatim>\<open>Converge\<close>, \<^verbatim>\<open>Install\<close>, \<^verbatim>\<open>Liveness\<close>: on a cluster without routes, a pass over a cluster that is as
      the resource asks for is idle and reports \<^verbatim>\<open>Ready\<close>; from any other cluster one pass that is not refused a write
      gets there, up to the start of the pods and the end of deferred deletions (\<^verbatim>\<open>swept\<close>). What it stores is what the operator builds
      (\<^verbatim>\<open>wanted\<close>, \<^verbatim>\<open>grown\<close>); what it keeps is accepted by the comparisons of the code, which are blind to some changes, as the
      theorems say. \<^verbatim>\<open>Converge\<close> is a total-correctness logic over the view of the stored objects, with a
      frame rule; \<^verbatim>\<open>Install\<close> applies it to each stage. \<^verbatim>\<open>Sample\<close> is a steady cluster in memory.
    \<^item> \<^verbatim>\<open>Openshift\<close>, \<^verbatim>\<open>Rollout\<close>, \<^verbatim>\<open>Rounds\<close>: the same on OpenShift, where the router gives a route its address only
      after a pass has created it. Passes alternate with moves of the router and the kubelets (the step relation
      \<^verbatim>\<open>round\<close>): a pass fails only if a write is refused, and the third one deploys everything. \<^verbatim>\<open>Sample_Openshift\<close> runs such rounds in memory.

  \<^bold>\<open>Not modelled.\<close> Logging and the messages of the standard logger; the fields of API objects that the operator
  neither sets nor reads (a stored pod specification keeps them in \<^verbatim>\<open>ps_rest\<close>); the scheme registration
  inside \<^verbatim>\<open>client-go\<close> beyond the list of types; the manager's work queue and its retries; generated YAML and
  deep-copy code; \<^verbatim>\<open>suite_test.go\<close>, which has no tests. \<^verbatim>\<open>time.Now\<close> is taken in UTC.
\<close>

end
